(* ===== verification/Prelude.thy ===== *)
theory Prelude
  imports Main "HOL-Library.Word"
begin

unbundle bit_operations_syntax

text \<open>
  Shared vocabulary of the development: the outcome of a Rust computation (a value, an
  \<open>Err\<close> or a panic), sequencing of outcomes with and without a state, Rust slices with and without
  an address, byte order conversions, and the list lemmas the component theories use.

  Unsigned 64-bit quantities that are only ever used as sizes, offsets and counts are natural
  numbers together with the bound \<open>U64\<close>, at which every overflow check is written out; values that
  are masked or shifted are machine words.
\<close>

section \<open>Collections\<close>

named_theorems slice_simps \<open>rewriting of take, drop and overwrite on byte lists\<close>
named_theorems outcome_simps \<open>unfolding of the outcome combinators\<close>

section \<open>Outcomes\<close>

text \<open>
  A Rust function returning \<open>Result<T, E>\<close> ends in one of three ways. \<open>Panic\<close> stands for every
  abort: a failed \<open>assert!\<close>, an \<open>unwrap\<close> of an error, an index out of range or an arithmetic overflow
  of a primitive operator in a build with overflow checks (the default Bazel \<open>fastbuild\<close> mode).
\<close>

datatype ('e, 'a) result = Ok 'a | Err 'e | Panic

fun and_then :: "('e, 'a) result \<Rightarrow> ('a \<Rightarrow> ('e, 'b) result) \<Rightarrow> ('e, 'b) result" where
  "and_then (Ok v) k = k v"
| "and_then (Err e) k = Err e"
| "and_then Panic k = Panic"

fun map_ok :: "('a \<Rightarrow> 'b) \<Rightarrow> ('e, 'a) result \<Rightarrow> ('e, 'b) result" where
  "map_ok f (Ok v) = Ok (f v)"
| "map_ok f (Err e) = Err e"
| "map_ok f Panic = Panic"

fun unwrap :: "('e, 'a) result \<Rightarrow> ('f, 'a) result" where
  "unwrap (Ok v) = Ok v"
| "unwrap (Err e) = Panic"
| "unwrap Panic = Panic"

fun is_ok :: "('e, 'a) result \<Rightarrow> bool" where
  "is_ok (Ok _) = True"
| "is_ok _ = False"

definition ok_or :: "'a option \<Rightarrow> 'e \<Rightarrow> ('e, 'a) result" where
  "ok_or x e = (case x of None \<Rightarrow> Err e | Some v \<Rightarrow> Ok v)"

definition unwrap_opt :: "'a option \<Rightarrow> ('e, 'a) result" where
  "unwrap_opt x = (case x of None \<Rightarrow> Panic | Some v \<Rightarrow> Ok v)"

definition rust_assert :: "bool \<Rightarrow> ('e, unit) result" where
  "rust_assert b = (if b then Ok () else Panic)"

text \<open>\<open>assert!(e?)\<close>: an error of the condition leaves the function, a false condition aborts.\<close>

definition assert_try :: "('e, bool) result \<Rightarrow> ('e, unit) result" where
  "assert_try r = and_then r rust_assert"

lemma and_then_Ok_iff: "and_then r k = Ok v \<longleftrightarrow> (\<exists>u. r = Ok u \<and> k u = Ok v)"
  by (cases r) auto

lemma and_then_Panic_iff: "and_then r k = Panic \<longleftrightarrow> r = Panic \<or> (\<exists>u. r = Ok u \<and> k u = Panic)"
  by (cases r) auto

lemma and_then_assoc: "and_then (and_then r f) g = and_then r (\<lambda>v. and_then (f v) g)"
  by (cases r) auto

lemma and_then_Ok_right [simp]: "and_then r Ok = r"
  by (cases r) auto

lemma ok_or_simps [simp]: "ok_or None e = Err e" "ok_or (Some v) e = Ok v"
  by (simp_all add: ok_or_def)

lemma unwrap_opt_simps [simp]: "unwrap_opt None = Panic" "unwrap_opt (Some v) = Ok v"
  by (simp_all add: unwrap_opt_def)

lemma rust_assert_simps [simp]: "rust_assert True = Ok ()" "rust_assert False = Panic"
  by (simp_all add: rust_assert_def)

lemma rust_assert_Ok_iff [simp]: "rust_assert b = Ok u \<longleftrightarrow> b"
  by (simp add: rust_assert_def)

lemma assert_try_simps [simp]:
  "assert_try (Ok b) = rust_assert b" "assert_try (Err e) = Err e" "assert_try Panic = Panic"
  by (simp_all add: assert_try_def)

lemma unwrap_Ok_iff [simp]: "unwrap r = Ok v \<longleftrightarrow> r = Ok v"
  by (cases r) auto

lemma map_ok_Ok_iff: "map_ok f r = Ok v \<longleftrightarrow> (\<exists>u. r = Ok u \<and> v = f u)"
  by (cases r) auto

declare and_then_Ok_iff [outcome_simps] map_ok_Ok_iff [outcome_simps]

section \<open>Outcomes over a state\<close>

type_synonym ('s, 'e, 'a) stateful = "'s \<Rightarrow> ('e, 'a) result \<times> 's"

definition st_then :: "('s, 'e, 'a) stateful \<Rightarrow> ('a \<Rightarrow> ('s, 'e, 'b) stateful) \<Rightarrow> ('s, 'e, 'b) stateful"
  where "st_then m k s = (case m s of
      (Ok v, s') \<Rightarrow> k v s'
    | (Err e, s') \<Rightarrow> (Err e, s')
    | (Panic, s') \<Rightarrow> (Panic, s'))"

definition st_lift :: "('e, 'a) result \<Rightarrow> ('s, 'e, 'a) stateful" where
  "st_lift r s = (r, s)"

lemma st_then_simps [simp]:
  "m s = (Ok v, s') \<Longrightarrow> st_then m k s = k v s'"
  "m s = (Err e, s') \<Longrightarrow> st_then m k s = (Err e, s')"
  "m s = (Panic, s') \<Longrightarrow> st_then m k s = (Panic, s')"
  by (simp_all add: st_then_def)

lemma st_lift_apply [simp]: "st_lift r s = (r, s)"
  by (simp add: st_lift_def)

lemma st_then_lift [simp]: "st_then (st_lift (Ok v)) k s = k v s"
  by (simp add: st_then_def st_lift_def)

section \<open>Bounded naturals\<close>

text \<open>\<open>U64\<close> is one more than \<open>u64::MAX\<close>; \<open>usize\<close> has the same width on the 64-bit targets modelled.\<close>

definition U64 :: nat where "U64 = 2 ^ 64"

definition U32 :: nat where "U32 = 2 ^ 32"

lemma U64_pos [simp]: "0 < U64"
  by (simp add: U64_def)

lemma one_less_U64 [simp]: "Suc 0 < U64"
  by (simp add: U64_def)

lemma numeral_less_U64 [simp]: "(numeral k :: nat) < U64 \<longleftrightarrow> (numeral k :: nat) < 2 ^ 64"
  by (simp add: U64_def)

lemma numeral_le_U64 [simp]: "(numeral k :: nat) \<le> U64 \<longleftrightarrow> (numeral k :: nat) \<le> 2 ^ 64"
  by (simp add: U64_def)

text \<open>Primitive arithmetic on \<open>u64\<close> and \<open>usize\<close> with overflow checks.\<close>

definition padd :: "nat \<Rightarrow> nat \<Rightarrow> ('e, nat) result" where
  "padd a b = (if a + b < U64 then Ok (a + b) else Panic)"

definition psub :: "nat \<Rightarrow> nat \<Rightarrow> ('e, nat) result" where
  "psub a b = (if b \<le> a then Ok (a - b) else Panic)"

definition pmul :: "nat \<Rightarrow> nat \<Rightarrow> ('e, nat) result" where
  "pmul a b = (if a * b < U64 then Ok (a * b) else Panic)"

lemma padd_Ok [simp]: "a + b < U64 \<Longrightarrow> padd a b = Ok (a + b)"
  by (simp add: padd_def)

lemma psub_Ok [simp]: "b \<le> a \<Longrightarrow> psub a b = Ok (a - b)"
  by (simp add: psub_def)

lemma pmul_Ok [simp]: "a * b < U64 \<Longrightarrow> pmul a b = Ok (a * b)"
  by (simp add: pmul_def)

section \<open>Byte lists as slices\<close>

type_synonym byte = "8 word"

text \<open>\<open>s[a..b]\<close> and \<open>s.get(a..b)\<close>: the first aborts out of range, the second is \<open>None\<close>.\<close>

definition slice_get :: "nat \<Rightarrow> nat \<Rightarrow> 'a list \<Rightarrow> 'a list option" where
  "slice_get a b xs = (if a \<le> b \<and> b \<le> length xs then Some (take (b - a) (drop a xs)) else None)"

definition slice_index :: "nat \<Rightarrow> nat \<Rightarrow> 'a list \<Rightarrow> ('e, 'a list) result" where
  "slice_index a b xs = unwrap_opt (slice_get a b xs)"

text \<open>\<open>dst[a..a + src.len()].clone_from_slice(src)\<close> where the range fits.\<close>

definition overwrite :: "nat \<Rightarrow> 'a list \<Rightarrow> 'a list \<Rightarrow> 'a list" where
  "overwrite a src dst = take a dst @ src @ drop (a + length src) dst"

lemma slice_get_Some [simp]:
  "a \<le> b \<Longrightarrow> b \<le> length xs \<Longrightarrow> slice_get a b xs = Some (take (b - a) (drop a xs))"
  by (simp add: slice_get_def)

lemma slice_get_None: "slice_get a b xs = None \<longleftrightarrow> b < a \<or> length xs < b"
  by (auto simp: slice_get_def)

lemma slice_index_Ok [simp]:
  "a \<le> b \<Longrightarrow> b \<le> length xs \<Longrightarrow> slice_index a b xs = Ok (take (b - a) (drop a xs))"
  by (simp add: slice_index_def)

lemma length_overwrite [simp]:
  "a + length src \<le> length dst \<Longrightarrow> length (overwrite a src dst) = length dst"
  by (simp add: overwrite_def)

lemma overwrite_Nil [simp]: "overwrite a [] dst = dst"
  by (simp add: overwrite_def)

lemma overwrite_all [simp]: "length src = length dst \<Longrightarrow> overwrite 0 src dst = src"
  by (simp add: overwrite_def)

lemma nth_overwrite:
  assumes "a + length src \<le> length dst" "i < length dst"
  shows "overwrite a src dst ! i =
    (if a \<le> i \<and> i < a + length src then src ! (i - a) else dst ! i)"
  using assms by (auto simp: overwrite_def nth_append min_def)

lemma take_drop_overwrite_same [simp]:
  "a + length src \<le> length dst \<Longrightarrow> take (length src) (drop a (overwrite a src dst)) = src"
  by (simp add: overwrite_def)

lemma take_overwrite_before [simp]:
  "n \<le> a \<Longrightarrow> a \<le> length dst \<Longrightarrow> take n (overwrite a src dst) = take n dst"
  by (simp add: overwrite_def min_def)

lemma drop_overwrite_after [simp]:
  "a + length src \<le> n \<Longrightarrow> a + length src \<le> length dst \<Longrightarrow> drop n (overwrite a src dst) = drop n dst"
  by (simp add: overwrite_def)

lemma overwrite_append:
  assumes "a + length xs + length ys \<le> length dst"
  shows "overwrite (a + length xs) ys (overwrite a xs dst) = overwrite a (xs @ ys) dst"
  using assms by (auto intro!: nth_equalityI simp: nth_overwrite nth_append)

lemma overwrite_append_rev:
  assumes "a + length xs + length ys \<le> length dst"
  shows "overwrite a xs (overwrite (a + length xs) ys dst) = overwrite a (xs @ ys) dst"
  using assms by (auto intro!: nth_equalityI simp: nth_overwrite nth_append)

lemma overwrite_nested:
  assumes "b + length ys \<le> length xs" "a + length xs \<le> length dst"
    and "xs = take (length xs) (drop a dst)"
  shows "overwrite a (overwrite b ys xs) dst = overwrite (a + b) ys dst"
proof (rule nth_equalityI)
  have xs: "xs ! j = dst ! (a + j)" if "j < length xs" for j
    using that assms(2) by (subst assms(3)) simp
  show "length (overwrite a (overwrite b ys xs) dst) = length (overwrite (a + b) ys dst)"
    using assms(1,2) by simp
  fix i assume "i < length (overwrite a (overwrite b ys xs) dst)"
  then have i: "i < length dst" using assms(1,2) by simp
  show "overwrite a (overwrite b ys xs) dst ! i = overwrite (a + b) ys dst ! i"
    using assms(1,2) i xs[of "i - a"] by (auto simp: nth_overwrite)
qed

lemma overwrite_self:
  assumes "a + n \<le> length dst"
  shows "overwrite a (take n (drop a dst)) dst = dst"
  using assms by (auto intro!: nth_equalityI simp: nth_overwrite)

declare overwrite_append [slice_simps] overwrite_append_rev [slice_simps]

text \<open>\<open>slice.copy_within(a..b, d)\<close> moves a part of a buffer inside the buffer.\<close>

definition copy_within :: "nat \<Rightarrow> nat \<Rightarrow> nat \<Rightarrow> 'a list \<Rightarrow> ('e, 'a list) result" where
  "copy_within a b d xs =
     (if a \<le> b \<and> b \<le> length xs \<and> d + (b - a) \<le> length xs
      then Ok (overwrite d (take (b - a) (drop a xs)) xs) else Panic)"

text \<open>\<open>dst[a..b].clone_from_slice(src)\<close>: aborts when the range or the length does not fit.\<close>

definition clone_into :: "nat \<Rightarrow> nat \<Rightarrow> 'a list \<Rightarrow> 'a list \<Rightarrow> ('e, 'a list) result" where
  "clone_into a b src dst =
     (if a \<le> b \<and> b \<le> length dst \<and> length src = b - a then Ok (overwrite a src dst) else Panic)"

lemma clone_into_Ok [simp]:
  "a \<le> b \<Longrightarrow> b \<le> length dst \<Longrightarrow> length src = b - a \<Longrightarrow> clone_into a b src dst = Ok (overwrite a src dst)"
  by (simp add: clone_into_def)

section \<open>Byte order\<close>

text \<open>Little-endian layout of an unsigned integer of \<open>k\<close> bytes held as a natural number.\<close>

fun nat_to_le :: "nat \<Rightarrow> nat \<Rightarrow> byte list" where
  "nat_to_le 0 n = []"
| "nat_to_le (Suc k) n = of_nat n # nat_to_le k (n div 256)"

fun nat_from_le :: "byte list \<Rightarrow> nat" where
  "nat_from_le [] = 0"
| "nat_from_le (b # bs) = unat b + 256 * nat_from_le bs"

lemma length_nat_to_le [simp]: "length (nat_to_le k n) = k"
  by (induction k n rule: nat_to_le.induct) auto

lemma nat_from_le_bound: "nat_from_le bs < 256 ^ length bs"
proof (induction bs)
  case (Cons b bs)
  have "unat b < 256" using unsigned_less[of b] by simp
  with Cons show ?case by simp
qed simp

lemma nat_from_to_le: "nat_from_le (nat_to_le k n) = n mod 256 ^ k"
proof (induction k n rule: nat_to_le.induct)
  case (2 k n)
  have "unat (of_nat n :: byte) = n mod 256" by (simp add: unat_of_nat)
  with 2 show ?case by (simp add: mod_mult2_eq mult.commute add.commute)
qed simp

lemma nat_le_roundtrip [simp]: "n < 256 ^ k \<Longrightarrow> nat_from_le (nat_to_le k n) = n"
  by (simp add: nat_from_to_le)

lemma nat_to_from_le [simp]: "nat_to_le (length bs) (nat_from_le bs) = bs"
proof (induction bs)
  case (Cons b bs)
  have "unat b < 256" using unsigned_less[of b] by simp
  then have "(unat b + 256 * nat_from_le bs) div 256 = nat_from_le bs" by simp
  moreover have "(of_nat (unat b + 256 * nat_from_le bs) :: byte) = b"
  proof -
    have "(of_nat (256 * nat_from_le bs) :: byte) = 0"
      by (rule word_unat_eq_iff[THEN iffD2]) (simp add: unat_of_nat del: of_nat_mult)
    then show ?thesis by (simp del: of_nat_mult)
  qed
  ultimately show ?case using Cons by (simp del: of_nat_add of_nat_mult)
qed simp

text \<open>\<open>u32::to_le_bytes\<close>, \<open>u32::to_be_bytes\<close> and their inverses.\<close>

definition u32_to_le_bytes :: "32 word \<Rightarrow> byte list" where
  "u32_to_le_bytes w = nat_to_le 4 (unat w)"

definition u32_from_le_bytes :: "byte list \<Rightarrow> 32 word" where
  "u32_from_le_bytes bs = of_nat (nat_from_le bs)"

definition u32_to_be_bytes :: "32 word \<Rightarrow> byte list" where
  "u32_to_be_bytes w = rev (u32_to_le_bytes w)"

definition u32_from_be_bytes :: "byte list \<Rightarrow> 32 word" where
  "u32_from_be_bytes bs = u32_from_le_bytes (rev bs)"

lemma length_u32_bytes [simp]:
  "length (u32_to_le_bytes w) = 4" "length (u32_to_be_bytes w) = 4"
  by (simp_all add: u32_to_be_bytes_def u32_to_le_bytes_def)

lemma u32_le_roundtrip [simp]: "u32_from_le_bytes (u32_to_le_bytes w) = w"
proof -
  have "unat w < 2 ^ LENGTH(32)" by (rule unsigned_less)
  then show ?thesis by (simp add: u32_from_le_bytes_def u32_to_le_bytes_def)
qed

lemma u32_be_roundtrip [simp]: "u32_from_be_bytes (u32_to_be_bytes w) = w"
  by (simp add: u32_from_be_bytes_def u32_to_be_bytes_def)

section \<open>Bits of byte sequences\<close>

lemma bit_add_shift:
  fixes a b :: nat
  assumes "a < 2 ^ k"
  shows "bit (a + 2 ^ k * b) n = (if n < k then bit a n else bit b (n - k))"
proof (cases "n < k")
  case True
  then have "(2::nat) ^ k = 2 ^ n * 2 ^ (k - n)" by (simp flip: power_add)
  then have "(a + 2 ^ k * b) div 2 ^ n = a div 2 ^ n + 2 ^ (k - n) * b"
    by (simp add: mult.assoc)
  with True show ?thesis by (simp add: bit_iff_odd)
next
  case False
  then have "(2::nat) ^ n = 2 ^ k * 2 ^ (n - k)" by (simp flip: power_add)
  with assms have "(a + 2 ^ k * b) div 2 ^ n = b div 2 ^ (n - k)"
    by (simp add: div_mult2_eq)
  with False show ?thesis by (simp add: bit_iff_odd)
qed

lemma bit_nat_from_le:
  "bit (nat_from_le bs) n \<longleftrightarrow> n < 8 * length bs \<and> bit (bs ! (n div 8)) (n mod 8)"
proof (induction bs arbitrary: n)
  case (Cons b bs)
  have "unat b < 2 ^ 8" using unsigned_less[of b] by simp
  from bit_add_shift[OF this, of "nat_from_le bs" n]
  have *: "bit (nat_from_le (b # bs)) n = (if n < 8 then bit b n else bit (nat_from_le bs) (n - 8))"
    by (simp add: bit_unsigned_iff)
  show ?case
  proof (cases "n < 8")
    case False
    then have "n div 8 = Suc ((n - 8) div 8)" "n mod 8 = (n - 8) mod 8"
      by (simp_all add: div_if mod_if)
    then show ?thesis using * False Cons.IH[of "n - 8"] by auto
  qed (use * in auto)
qed simp

lemma bit_word_of_nat:
  "bit (of_nat m :: 'a::len word) n \<longleftrightarrow> n < LENGTH('a) \<and> bit m n"
  by transfer (simp add: bit_take_bit_iff bit_of_nat_iff_bit)

lemma bit_nat_to_le:
  "i < k \<Longrightarrow> bit (nat_to_le k m ! i) j \<longleftrightarrow> j < 8 \<and> bit m (8 * i + j)"
proof (induction k m arbitrary: i rule: nat_to_le.induct)
  case (2 k n)
  show ?case
  proof (cases i)
    case 0
    then show ?thesis by (auto simp: bit_word_of_nat)
  next
    case (Suc i')
    have "bit (n div 256) (8 * i' + j) = bit n (8 * i + j)"
      using bit_drop_bit_eq[of 8 n] Suc by (auto simp: drop_bit_eq_div add.assoc)
    then show ?thesis using 2 Suc by simp
  qed
qed simp

lemma bit_u32_to_le:
  "i < 4 \<Longrightarrow> bit (u32_to_le_bytes w ! i) j \<longleftrightarrow> j < 8 \<and> bit w (8 * i + j)"
  by (simp add: u32_to_le_bytes_def bit_nat_to_le bit_unsigned_iff)

lemma bit_u32_from_le:
  "length bs = 4 \<Longrightarrow> bit (u32_from_le_bytes bs) n \<longleftrightarrow> n < 32 \<and> bit (bs ! (n div 8)) (n mod 8)"
  by (auto simp: u32_from_le_bytes_def bit_word_of_nat bit_nat_from_le)

lemma nat_to_le_4:
  "nat_to_le 4 n = [of_nat n, of_nat (n div 256), of_nat (n div 256 div 256),
     of_nat (n div 256 div 256 div 256)]"
proof -
  have four: "(4::nat) = Suc (Suc (Suc (Suc 0)))" by simp
  show ?thesis by (simp only: four nat_to_le.simps)
qed

end
