(* ===== verification/Errors.thy ===== *)
theory Errors
  imports Prelude
begin

text \<open>
  The unified error type of the bootloader (\<open>liberror\<close>) and the translation of UEFI status codes.
  The location payload of \<open>ArithmeticOverflow\<close> (the source position of the failing operation, used
  for logging only) is erased.
\<close>

datatype gpt_error =
    DifferentFromPrimary
  | DiskTooSmall
  | EntriesTruncated
  | IncorrectHeaderCrc
  | IncorrectMagic nat
  | IncorrectEntriesCrc
  | InvalidFirstLastUsableBlock nat nat "nat \<times> nat"
  | InvalidPartitionRange nat "nat \<times> nat" "nat \<times> nat"
  | InvalidPrimaryEntriesStart nat "nat \<times> nat"
  | InvalidSecondaryEntriesStart nat "nat \<times> nat"
  | NumberOfEntriesOverflow nat nat
  | PartitionRangeOverlap "nat \<times> nat \<times> nat" "nat \<times> nat \<times> nat"
  | UnexpectedEntrySize nat nat
  | UnexpectedHeaderSize nat nat
  | ZeroPartitionTypeGUID nat
  | ZeroPartitionUniqueGUID nat

type_synonym efi_status = "64 word"

datatype (plugins only: code size) error =
    Aborted
  | AccessDenied
  | AlreadyStarted
  | ArithmeticOverflow
  | BadBufferSize
  | BadChecksum
  | BadIndex nat
  | BadMagic
  | BlockIoError
  | BootFailed
  | BufferOverlap
  | BufferTooSmall "nat option"
  | CompromisedData
  | ConnectionReset
  | DeviceError
  | Disconnected
  | EndOfFile
  | EndOfMedia
  | Finished
  | GptError gpt_error
  | HttpError
  | IcmpError
  | InvalidAlignment
  | InvalidHandshake
  | InvalidInput
  | InvalidLanguage
  | InvalidState
  | IpAddressConflict
  | LoadError
  | MediaChanged
  | MemoryMapCallbackError int
  | MissingImage
  | NoFdt
  | NoGpt
  | NoMapping
  | NoMedia
  | NoResponse
  | NotFound
  | NotImplemented
  | NotReady
  | NotStarted
  | NotUnique
  | OperationProhibited
  | Other "string option"
  | OutOfRange
  | OutOfResources
  | ProtocolError
  | SecurityViolation
  | TftpError
  | Timeout
  | TooManyPartitions nat
  | Unaddressable
  | UnexpectedEfiError efi_status
  | UnexpectedReturn
  | Unsupported
  | UnsupportedVersion
  | VolumeCorrupted
  | VolumeFull
  | WriteProtected

type_synonym 'a res = "(error, 'a) result"
type_synonym ('s, 'a) io = "('s, error, 'a) stateful"

section \<open>UEFI status codes\<close>

text \<open>\<open>EFI_ERR(x)\<close> sets the top bit of the pointer-sized status.\<close>

definition EFI_ERR :: "efi_status \<Rightarrow> efi_status" where
  "EFI_ERR x = push_bit 63 1 OR x"

definition EFI_STATUS_SUCCESS :: efi_status where "EFI_STATUS_SUCCESS = 0"

text \<open>The match arms of \<open>efi_status_to_result\<close> other than success and the catch-all, in order.\<close>

definition efi_status_arms :: "(efi_status \<times> error) list" where
  "efi_status_arms =
    [(EFI_ERR 27, BadChecksum),
     (EFI_ERR 21, Aborted),
     (EFI_ERR 15, AccessDenied),
     (EFI_ERR 20, AlreadyStarted),
     (EFI_ERR 4, BadBufferSize),
     (EFI_ERR 5, BufferTooSmall None),
     (EFI_ERR 33, CompromisedData),
     (EFI_ERR 104, Disconnected),
     (EFI_ERR 106, OperationProhibited),
     (EFI_ERR 105, ConnectionReset),
     (EFI_ERR 7, DeviceError),
     (EFI_ERR 31, EndOfFile),
     (EFI_ERR 28, EndOfMedia),
     (EFI_ERR 35, HttpError),
     (EFI_ERR 22, IcmpError),
     (EFI_ERR 25, UnsupportedVersion),
     (EFI_ERR 32, InvalidLanguage),
     (EFI_ERR 2, InvalidInput),
     (EFI_ERR 34, IpAddressConflict),
     (EFI_ERR 1, LoadError),
     (EFI_ERR 13, MediaChanged),
     (EFI_ERR 14, NotFound),
     (EFI_ERR 6, NotReady),
     (EFI_ERR 19, NotStarted),
     (EFI_ERR 17, NoMapping),
     (EFI_ERR 12, NoMedia),
     (EFI_ERR 16, NoResponse),
     (EFI_ERR 9, OutOfResources),
     (EFI_ERR 24, ProtocolError),
     (EFI_ERR 26, SecurityViolation),
     (EFI_ERR 23, TftpError),
     (EFI_ERR 18, Timeout),
     (EFI_ERR 3, Unsupported),
     (EFI_ERR 10, VolumeCorrupted),
     (EFI_ERR 11, VolumeFull),
     (EFI_ERR 8, WriteProtected)]"

definition efi_status_to_result :: "efi_status \<Rightarrow> unit res" where
  "efi_status_to_result e =
     (if e = EFI_STATUS_SUCCESS then Ok ()
      else case map_of efi_status_arms e of
        Some err \<Rightarrow> Err err
      | None \<Rightarrow> Err (UnexpectedEfiError e))"

lemma efi_status_arms_errors_distinct: "distinct (map snd efi_status_arms)"
  by (simp add: efi_status_arms_def)

lemma efi_status_arms_no_unexpected: "(e, UnexpectedEfiError x) \<notin> set efi_status_arms"
  by (simp add: efi_status_arms_def)

lemma efi_status_Ok_iff: "efi_status_to_result e = Ok u \<longleftrightarrow> e = EFI_STATUS_SUCCESS"
  by (auto simp: efi_status_to_result_def split: option.splits)

lemma distinct_snd_unique: "distinct (map snd xs) \<Longrightarrow> (a, v) \<in> set xs \<Longrightarrow> (b, v) \<in> set xs \<Longrightarrow> a = b"
proof (induction xs)
  case (Cons x xs)
  then show ?case by (cases x) (force simp: rev_image_eqI)
qed simp

lemma map_of_arms_inj:
  "map_of efi_status_arms a = Some v \<Longrightarrow> map_of efi_status_arms b = Some v \<Longrightarrow> a = b"
  using distinct_snd_unique[OF efi_status_arms_errors_distinct] by (blast dest: map_of_SomeD)

lemma map_of_arms_not_unexpected: "map_of efi_status_arms a \<noteq> Some (UnexpectedEfiError x)"
  using efi_status_arms_no_unexpected by (blast dest: map_of_SomeD)

text \<open>
  No UEFI status is lost in translation: \<open>efi_status_to_result\<close> reports success exactly for
  \<open>EFI_STATUS_SUCCESS\<close>, never aborts, and maps different status codes to different results.
\<close>

theorem efi_status_faithful:
  "(efi_status_to_result a = Ok () \<longleftrightarrow> a = EFI_STATUS_SUCCESS)
     \<and> efi_status_to_result a \<noteq> Panic
     \<and> (efi_status_to_result a = efi_status_to_result b \<longleftrightarrow> a = b)"
proof (intro conjI)
  show "efi_status_to_result a = efi_status_to_result b \<longleftrightarrow> a = b"
    using map_of_arms_inj [of a _ b] map_of_arms_not_unexpected [of a b]
      map_of_arms_not_unexpected [of b a]
    by (auto simp: efi_status_to_result_def split: option.splits if_splits)
qed (auto simp: efi_status_to_result_def split: option.splits)

end
