(* ===== verification/Safe_Math.thy ===== *)
theory Safe_Math
  imports Errors
begin

text \<open>
  \<open>libsafemath\<close>: unsigned 64-bit arithmetic that carries the first error of a chain of operations.
  A \<open>SafeNum\<close> is a value below \<open>U64\<close> or the location of the operation that failed; the
  location argument \<open>loc\<close> of every operation is the implicit \<open>#[track_caller]\<close> argument. Clients
  erase locations by working at location type \<open>unit\<close> (the abbreviations at the end).
\<close>

type_synonym 'l safe_num = "'l + nat"

section \<open>Primitive checked operations on \<open>u64\<close>\<close>

definition checked_add :: "nat \<Rightarrow> nat \<Rightarrow> nat option" where
  "checked_add a b = (if a + b < U64 then Some (a + b) else None)"

definition checked_sub :: "nat \<Rightarrow> nat \<Rightarrow> nat option" where
  "checked_sub a b = (if b \<le> a then Some (a - b) else None)"

definition checked_mul :: "nat \<Rightarrow> nat \<Rightarrow> nat option" where
  "checked_mul a b = (if a * b < U64 then Some (a * b) else None)"

definition checked_div :: "nat \<Rightarrow> nat \<Rightarrow> nat option" where
  "checked_div a b = (if b = 0 then None else Some (a div b))"

definition checked_rem :: "nat \<Rightarrow> nat \<Rightarrow> nat option" where
  "checked_rem a b = (if b = 0 then None else Some (a mod b))"

section \<open>\<open>SafeNum\<close>\<close>

definition SafeNum_MAX :: "'l safe_num" where "SafeNum_MAX = Inr (U64 - 1)"
definition SafeNum_MIN :: "'l safe_num" where "SafeNum_MIN = Inr 0"
definition SafeNum_ZERO :: "'l safe_num" where "SafeNum_ZERO = Inr 0"

text \<open>The conversion macros: from \<open>u8 .. u64\<close> without a check, from every other integer type with one.\<close>

definition conversion_func :: "nat \<Rightarrow> 'l safe_num" where
  "conversion_func val = Inr val"

definition conversion_func_maybe_error :: "'l \<Rightarrow> int \<Rightarrow> 'l safe_num" where
  "conversion_func_maybe_error loc val =
     (if 0 \<le> val \<and> val < int U64 then Inr (nat val) else Inl loc)"

text \<open>\<open>TryFrom<SafeNum>\<close> for an integer type with values \<open>lo .. hi\<close>.\<close>

definition try_conversion_func :: "int \<Rightarrow> int \<Rightarrow> 'l \<Rightarrow> 'l safe_num \<Rightarrow> 'l + int" where
  "try_conversion_func lo hi loc val =
     (case val of Inl e \<Rightarrow> Inl e
      | Inr v \<Rightarrow> if lo \<le> int v \<and> int v \<le> hi then Inr (int v) else Inl loc)"

definition arithmetic_impl ::
    "(nat \<Rightarrow> nat \<Rightarrow> nat option) \<Rightarrow> 'l \<Rightarrow> 'l safe_num \<Rightarrow> 'l safe_num \<Rightarrow> 'l safe_num" where
  "arithmetic_impl func loc self rhs =
     (case (self, rhs) of
        (Inl _, _) \<Rightarrow> self
      | (_, Inl _) \<Rightarrow> rhs
      | (Inr a, Inr b) \<Rightarrow> (case func a b of Some v \<Rightarrow> Inr v | None \<Rightarrow> Inl loc))"

definition safe_add :: "'l \<Rightarrow> 'l safe_num \<Rightarrow> 'l safe_num \<Rightarrow> 'l safe_num" where
  "safe_add = arithmetic_impl checked_add"
definition safe_sub :: "'l \<Rightarrow> 'l safe_num \<Rightarrow> 'l safe_num \<Rightarrow> 'l safe_num" where
  "safe_sub = arithmetic_impl checked_sub"
definition safe_mul :: "'l \<Rightarrow> 'l safe_num \<Rightarrow> 'l safe_num \<Rightarrow> 'l safe_num" where
  "safe_mul = arithmetic_impl checked_mul"
definition safe_div :: "'l \<Rightarrow> 'l safe_num \<Rightarrow> 'l safe_num \<Rightarrow> 'l safe_num" where
  "safe_div = arithmetic_impl checked_div"
definition safe_rem :: "'l \<Rightarrow> 'l safe_num \<Rightarrow> 'l safe_num \<Rightarrow> 'l safe_num" where
  "safe_rem = arithmetic_impl checked_rem"

definition round_down :: "'l \<Rightarrow> 'l safe_num \<Rightarrow> 'l safe_num \<Rightarrow> 'l safe_num" where
  "round_down loc self rhs = safe_sub loc self (safe_rem loc self rhs)"

definition round_up :: "'l \<Rightarrow> 'l safe_num \<Rightarrow> 'l safe_num \<Rightarrow> 'l safe_num" where
  "round_up loc self rhs = round_down loc (safe_sub loc (safe_add loc self rhs) (Inr 1)) rhs"

definition has_error :: "'l safe_num \<Rightarrow> bool" where
  "has_error s = (case s of Inl _ \<Rightarrow> True | Inr _ \<Rightarrow> False)"

definition is_valid :: "'l safe_num \<Rightarrow> bool" where
  "is_valid s = (case s of Inl _ \<Rightarrow> False | Inr _ \<Rightarrow> True)"

section \<open>Evaluation of the operations\<close>

lemma arithmetic_impl_Inl [simp]: "arithmetic_impl f loc (Inl e) s = Inl e"
  by (simp add: arithmetic_impl_def)

lemma arithmetic_impl_Inr_Inl [simp]: "arithmetic_impl f loc (Inr a) (Inl e) = Inl e"
  by (simp add: arithmetic_impl_def)

lemma safe_ops_Inr [simp]:
  "safe_add loc (Inr a) (Inr b) = (if a + b < U64 then Inr (a + b) else Inl loc)"
  "safe_sub loc (Inr a) (Inr b) = (if b \<le> a then Inr (a - b) else Inl loc)"
  "safe_mul loc (Inr a) (Inr b) = (if a * b < U64 then Inr (a * b) else Inl loc)"
  "safe_div loc (Inr a) (Inr b) = (if b = 0 then Inl loc else Inr (a div b))"
  "safe_rem loc (Inr a) (Inr b) = (if b = 0 then Inl loc else Inr (a mod b))"
  by (simp_all add: safe_add_def safe_sub_def safe_mul_def safe_div_def safe_rem_def
      arithmetic_impl_def checked_add_def checked_sub_def checked_mul_def checked_div_def
      checked_rem_def)

lemma safe_ops_Inl [simp]:
  "safe_add loc (Inl e) s = Inl e" "safe_add loc (Inr a) (Inl e) = Inl e"
  "safe_sub loc (Inl e) s = Inl e" "safe_sub loc (Inr a) (Inl e) = Inl e"
  "safe_mul loc (Inl e) s = Inl e" "safe_mul loc (Inr a) (Inl e) = Inl e"
  "safe_div loc (Inl e) s = Inl e" "safe_div loc (Inr a) (Inl e) = Inl e"
  "safe_rem loc (Inl e) s = Inl e" "safe_rem loc (Inr a) (Inl e) = Inl e"
  by (simp_all add: safe_add_def safe_sub_def safe_mul_def safe_div_def safe_rem_def)

text \<open>The invariant of \<open>SafeNum\<close>: a valid value fits \<open>u64\<close>.\<close>

definition safe_wf :: "'l safe_num \<Rightarrow> bool" where
  "safe_wf s = (case s of Inl _ \<Rightarrow> True | Inr v \<Rightarrow> v < U64)"

lemma safe_wf_simps [simp]: "safe_wf (Inl e)" "safe_wf (Inr v) \<longleftrightarrow> v < U64"
  by (simp_all add: safe_wf_def)

lemma safe_ops_wf:
  assumes "safe_wf a" "safe_wf b"
  shows "safe_wf (safe_add loc a b)" "safe_wf (safe_sub loc a b)" "safe_wf (safe_mul loc a b)"
    "safe_wf (safe_div loc a b)" "safe_wf (safe_rem loc a b)"
  using assms
  by (cases a; cases b; auto intro: le_less_trans[OF div_le_dividend] le_less_trans[OF mod_less_eq_dividend])+

lemma round_down_Inr:
  "round_down loc (Inr a) (Inr b) = (if b = 0 then Inl loc else Inr (a - a mod b))"
  by (simp add: round_down_def)

lemma round_up_Inr:
  "round_up loc (Inr a) (Inr b) =
     (if b = 0 then Inl loc
      else if a + b < U64 then Inr (a + b - 1 - (a + b - 1) mod b) else Inl loc)"
  by (auto simp: round_up_def round_down_def)

text \<open>The arithmetic content of \<open>round_up\<close>: the least multiple that is not below the argument.\<close>

lemma round_up_multiple:
  fixes a b :: nat
  assumes "0 < b"
  defines "r \<equiv> a + b - 1 - (a + b - 1) mod b"
  shows "b dvd r" "a \<le> r" "r < a + b"
proof -
  have r: "r = (a + b - 1) div b * b"
    by (simp add: r_def minus_mod_eq_div_mult)
  show "b dvd r" by (simp add: r)
  have "(a + b - 1) mod b < b" using assms(1) by simp
  with assms(1) show "a \<le> r" "r < a + b" unfolding r_def by auto
qed

lemma round_up_least:
  fixes a b m :: nat
  assumes "0 < b" "b dvd m" "a \<le> m"
  shows "a + b - 1 - (a + b - 1) mod b \<le> m"
proof -
  obtain k where k: "m = b * k" using assms(2) by (auto elim: dvdE)
  have "a + b - 1 < b * (k + 1)" using assms k by auto
  then have "(a + b - 1) div b < k + 1"
    using assms(1) by (metis less_mult_imp_div_less mult.commute)
  then have "(a + b - 1) div b * b \<le> k * b" by simp
  then show ?thesis using k by (simp add: minus_mod_eq_div_mult mult.commute)
qed

section \<open>Location-erased use by clients\<close>

abbreviation sn :: "nat \<Rightarrow> unit safe_num" where "sn n \<equiv> conversion_func n"
abbreviation sn_add where "sn_add \<equiv> safe_add ()"
abbreviation sn_sub where "sn_sub \<equiv> safe_sub ()"
abbreviation sn_mul where "sn_mul \<equiv> safe_mul ()"
abbreviation sn_div where "sn_div \<equiv> safe_div ()"
abbreviation sn_rem where "sn_rem \<equiv> safe_rem ()"
abbreviation sn_round_down where "sn_round_down \<equiv> round_down ()"
abbreviation sn_round_up where "sn_round_up \<equiv> round_up ()"

text \<open>\<open>s.try_into()?\<close> for \<open>u64\<close> and \<open>usize\<close>: the safemath error becomes \<open>ArithmeticOverflow\<close>.\<close>

definition sn_try :: "unit safe_num \<Rightarrow> nat res" where
  "sn_try s = (case s of Inl _ \<Rightarrow> Err ArithmeticOverflow | Inr v \<Rightarrow> Ok v)"

lemma sn_try_simps [simp]: "sn_try (Inr v) = Ok v" "sn_try (Inl e) = Err ArithmeticOverflow"
  by (simp_all add: sn_try_def)

lemma sn_try_Ok_iff [simp]: "sn_try s = Ok v \<longleftrightarrow> s = Inr v"
  by (cases s) auto

lemma conversion_func_Inr [simp]: "conversion_func n = Inr n"
  by (simp add: conversion_func_def)

lemma sn_try_not_Panic [simp]: "sn_try s \<noteq> Panic"
  by (cases s) auto

text \<open>
  Against the \<open>u64\<close> conversion of the source: on well-formed numbers \<open>sn_try\<close> is
  \<open>try_conversion_func\<close> at the range of \<open>u64\<close>.
\<close>

lemma sn_try_conversion:
  "safe_wf s \<Longrightarrow> try_conversion_func 0 (int U64 - 1) () s =
     (case sn_try s of Ok v \<Rightarrow> Inr (int v) | _ \<Rightarrow> Inl ())"
  by (cases s) (auto simp: try_conversion_func_def)

section \<open>Expressions\<close>

text \<open>
  Code computes with \<open>SafeNum\<close> in whole expressions and looks at the result once. An expression with
  the source location of each operator is evaluated once by \<open>SafeNum\<close> and once exactly, with the
  first operator (in evaluation order) whose result does not fit \<open>u64\<close> as the error.
\<close>

datatype safe_op = OpAdd | OpSub | OpMul | OpDiv | OpRem

datatype 'l safe_exp = Lit nat | Op 'l safe_op "'l safe_exp" "'l safe_exp"

fun safe_op_eval :: "safe_op \<Rightarrow> 'l \<Rightarrow> 'l safe_num \<Rightarrow> 'l safe_num \<Rightarrow> 'l safe_num" where
  "safe_op_eval OpAdd = safe_add"
| "safe_op_eval OpSub = safe_sub"
| "safe_op_eval OpMul = safe_mul"
| "safe_op_eval OpDiv = safe_div"
| "safe_op_eval OpRem = safe_rem"

fun safe_eval :: "'l safe_exp \<Rightarrow> 'l safe_num" where
  "safe_eval (Lit n) = conversion_func n"
| "safe_eval (Op loc f a b) = safe_op_eval f loc (safe_eval a) (safe_eval b)"

text \<open>The exact integer result of an operator; \<open>None\<close> for a division by zero.\<close>

fun exact_op :: "safe_op \<Rightarrow> int \<Rightarrow> int \<Rightarrow> int option" where
  "exact_op OpAdd a b = Some (a + b)"
| "exact_op OpSub a b = Some (a - b)"
| "exact_op OpMul a b = Some (a * b)"
| "exact_op OpDiv a b = (if b = 0 then None else Some (a div b))"
| "exact_op OpRem a b = (if b = 0 then None else Some (a mod b))"

fun exact_eval :: "'l safe_exp \<Rightarrow> 'l + int" where
  "exact_eval (Lit n) = Inr (int n)"
| "exact_eval (Op loc f a b) = (case exact_eval a of Inl e \<Rightarrow> Inl e | Inr x \<Rightarrow>
     (case exact_eval b of Inl e \<Rightarrow> Inl e | Inr y \<Rightarrow>
       (case exact_op f x y of
          Some z \<Rightarrow> if 0 \<le> z \<and> z < int U64 then Inr z else Inl loc
        | None \<Rightarrow> Inl loc)))"

fun lits_fit :: "'l safe_exp \<Rightarrow> bool" where
  "lits_fit (Lit n) \<longleftrightarrow> n < U64"
| "lits_fit (Op loc f a b) \<longleftrightarrow> lits_fit a \<and> lits_fit b"

lemma safe_op_exact:
  assumes "x < U64" "y < U64"
  shows "safe_op_eval f loc (Inr x) (Inr y) = (case exact_op f (int x) (int y) of
      Some z \<Rightarrow> if 0 \<le> z \<and> z < int U64 then Inr (nat z) else Inl loc
    | None \<Rightarrow> Inl loc)"
proof (cases f)
  case OpDiv
  have "x div y < U64" using assms(1) by (rule le_less_trans [OF div_le_dividend])
  then show ?thesis using OpDiv by (simp flip: zdiv_int)
next
  case OpRem
  have "x mod y < U64" using assms(1) by (rule le_less_trans [OF mod_less_eq_dividend])
  then show ?thesis using OpRem by (simp flip: zmod_int)
next
  case OpMul
  then show ?thesis by (simp flip: of_nat_mult)
next
  case OpAdd
  then show ?thesis by (simp flip: of_nat_add)
next
  case OpSub
  then show ?thesis using assms by (auto simp: nat_diff_distrib)
qed

text \<open>
  C32. \<open>SafeNum\<close> expressions compute exactly: for every expression over \<open>u64\<close> literals the result is
  the exact integer value when no operator overflows, underflows or divides by zero, and otherwise the
  location of the first operator that does; no wrapped value is ever produced.
\<close>

theorem safe_expression_exact:
  assumes "lits_fit e"
  shows "safe_wf (safe_eval e) \<and> exact_eval e = map_sum (\<lambda>l. l) int (safe_eval e)"
  using assms
proof (induction e)
  case (Lit n)
  then show ?case by simp
next
  case (Op loc f a b)
  then have IH: "safe_wf (safe_eval a)" "exact_eval a = map_sum (\<lambda>l. l) int (safe_eval a)"
    "safe_wf (safe_eval b)" "exact_eval b = map_sum (\<lambda>l. l) int (safe_eval b)" by simp_all
  have err: "safe_op_eval f loc (Inl e) s = Inl e" "safe_op_eval f loc (Inr v) (Inl e) = Inl e" for e v s
    by (cases f; simp)+
  show ?case
    using IH
    by (cases "safe_eval a"; cases "safe_eval b")
      (auto simp: err safe_op_exact nat_less_iff split: option.splits)
qed

theorem safe_expression_exact_witness:
  "exact_eval (Op (1 :: nat) OpMul (Op 2 OpAdd (Lit 3) (Lit 4)) (Op 3 OpSub (Lit 5) (Lit 6)))
     = map_sum (\<lambda>l. l) int (safe_eval (Op 1 OpMul (Op 2 OpAdd (Lit 3) (Lit 4)) (Op 3 OpSub (Lit 5) (Lit 6))))
   \<and> safe_eval (Op (1 :: nat) OpMul (Op 2 OpAdd (Lit 3) (Lit 4)) (Op 3 OpSub (Lit 5) (Lit 6))) = Inl 3"
  using safe_expression_exact [of "Op (1 :: nat) OpMul (Op 2 OpAdd (Lit 3) (Lit 4)) (Op 3 OpSub (Lit 5) (Lit 6))"]
  by simp

text \<open>
  \<open>round_up\<close> gives the least multiple of the divisor that is not below the value; it fails exactly
  when the divisor is zero or value plus divisor does not fit \<open>u64\<close> (the intermediate sum is what must
  fit, not only the result).
\<close>

theorem safe_round_up_least_multiple:
  "case round_up loc (Inr a) (Inr b) of
     Inr r \<Rightarrow> b dvd r \<and> a \<le> r \<and> r < a + b \<and> 0 < b \<and> a + b < U64
       \<and> r = (LEAST m. b dvd m \<and> a \<le> m)
   | Inl e \<Rightarrow> e = loc \<and> (b = 0 \<or> U64 \<le> a + b)"
proof -
  have "a + b - 1 - (a + b - 1) mod b = (LEAST m. b dvd m \<and> a \<le> m)" if "0 < b"
    by (rule Least_equality [symmetric]) (use that round_up_multiple round_up_least in auto)
  then show ?thesis
    using round_up_multiple [of b a] by (auto simp: round_up_Inr)
qed

end
