(* ===== verification/Abr_Crc.thy ===== *)
theory Abr_Crc
  imports Prelude
begin

unbundle bit_operations_syntax

text \<open>
  The checksum of the A/B/R metadata: \<open>libabr\<close> computes CRC-32 most significant bit first on
  reversed bytes and reverses the result. It is shown to be the usual CRC-32 (polynomial
  0xEDB88320, least significant bit first), which is the checksum other tools compute for the
  same metadata.
\<close>

section \<open>CRC\<close>

text \<open>Reverses the bits of a byte by a table of reversed nibbles.\<close>

definition LOOKUP_TABLE_4BIT_REVERSE :: "byte list" where
  "LOOKUP_TABLE_4BIT_REVERSE =
     [0x0, 0x8, 0x4, 0xC, 0x2, 0xA, 0x6, 0xE, 0x1, 0x9, 0x5, 0xD, 0x3, 0xB, 0x7, 0xF]"

definition reverse_byte :: "byte \<Rightarrow> byte" where
  "reverse_byte b = LOOKUP_TABLE_4BIT_REVERSE ! unat (drop_bit 4 b)
     OR push_bit 4 (LOOKUP_TABLE_4BIT_REVERSE ! unat (b AND 0xf))"

definition reverse_u32 :: "32 word \<Rightarrow> 32 word" where
  "reverse_u32 val = u32_from_be_bytes (map reverse_byte (u32_to_le_bytes val))"

text \<open>One round of the inner loop, the eight rounds of one byte, and the whole loop.\<close>

definition crc32_round :: "32 word \<Rightarrow> 32 word" where
  "crc32_round res = (if res AND 0x80000000 \<noteq> 0
     then push_bit 1 res XOR 0x04C11DB7 else push_bit 1 res)"

definition crc32_byte :: "32 word \<Rightarrow> byte \<Rightarrow> 32 word" where
  "crc32_byte res b = (crc32_round ^^ 8) (res XOR push_bit 24 (ucast (reverse_byte b)))"

definition crc32 :: "byte list \<Rightarrow> 32 word" where
  "crc32 data = reverse_u32 (NOT (foldl crc32_byte 0xffffffff data))"

text \<open>The reference: CRC-32 least significant bit first.\<close>

definition ref_round :: "32 word \<Rightarrow> 32 word" where
  "ref_round c = (if bit c 0 then drop_bit 1 c XOR 0xEDB88320 else drop_bit 1 c)"

definition crc32_ref :: "byte list \<Rightarrow> 32 word" where
  "crc32_ref data = NOT (foldl (\<lambda>c b. (ref_round ^^ 8) (c XOR ucast b)) 0xFFFFFFFF data)"

section \<open>Bit reversal\<close>

lemma nibble_table:
  assumes "k < 16"
  shows "LOOKUP_TABLE_4BIT_REVERSE ! k = drop_bit 4 (word_reverse (of_nat k))"
proof -
  have "k \<in> set [0..<16]" using assms by simp
  moreover have "list_all (\<lambda>k. LOOKUP_TABLE_4BIT_REVERSE ! k = drop_bit 4 (word_reverse (of_nat k)))
      [0..<16]"
    by (simp add: LOOKUP_TABLE_4BIT_REVERSE_def upt_rec word_reverse_def)
  ultimately show ?thesis by (simp only: list_all_iff)
qed

lemma reverse_byte_eq: "reverse_byte b = word_reverse b"
proof (rule bit_word_eqI)
  fix n assume "n < LENGTH(8)"
  then have n: "n < 8" by simp
  have "unat b < 2 ^ LENGTH(8)" by (rule unsigned_less)
  then have "drop_bit 4 (unat b) < 16" by (simp add: drop_bit_eq_div)
  then have hi: "unat (drop_bit 4 b) < 16" by (simp only: unat_drop_bit_eq)
  have and15: "b AND 0xf = take_bit 4 b" by (simp add: take_bit_eq_mask mask_eq_exp_minus_1)
  moreover have "take_bit 4 (unat b) < 16" by (simp add: take_bit_eq_mod)
  ultimately have lo: "unat (b AND 0xf) < 16" by (simp only: unsigned_take_bit_eq)
  have eq: "reverse_byte b = drop_bit 4 (word_reverse (drop_bit 4 b))
      OR push_bit 4 (drop_bit 4 (word_reverse (take_bit 4 b)))"
    unfolding reverse_byte_def nibble_table[OF hi] and15
      nibble_table[OF lo[unfolded and15]] by simp
  have "n < 4 \<or> (\<exists>m<4. n = 4 + m)" using n by presburger
  then show "bit (reverse_byte b) n = bit (word_reverse b) n"
    unfolding eq using n by (auto simp: bit_simps)
qed

lemma reverse_u32_eq: "reverse_u32 w = word_reverse w"
proof (rule bit_word_eqI)
  fix n assume "n < LENGTH(32)"
  then have n: "n < 32" by simp
  have i: "n div 8 < 4" "n mod 8 < 8" using n by auto
  have idx: "8 * (3 - n div 8) + (7 - n mod 8) = 31 - n"
  proof -
    have "n = 8 * (n div 8) + n mod 8" by simp
    then show ?thesis using i by linarith
  qed
  have "rev (map reverse_byte (u32_to_le_bytes w)) ! (n div 8)
      = word_reverse (u32_to_le_bytes w ! (3 - n div 8))"
    using i by (simp add: rev_map[symmetric] rev_nth reverse_byte_eq)
  then have "bit (reverse_u32 w) n = bit (word_reverse (u32_to_le_bytes w ! (3 - n div 8))) (n mod 8)"
    using n by (simp add: reverse_u32_def u32_from_be_bytes_def bit_u32_from_le)
  also have "\<dots> = bit w (8 * (3 - n div 8) + (7 - n mod 8))"
    using i by (auto simp: bit_word_reverse_iff bit_u32_to_le)
  finally show "bit (reverse_u32 w) n = bit (word_reverse w) n"
    using n by (simp add: idx bit_word_reverse_iff)
qed

lemma rev_xor: "word_reverse (a XOR b :: 'a::len word) = word_reverse a XOR word_reverse b"
  by (rule bit_word_eqI) (auto simp: bit_simps)

lemma rev_not: "word_reverse (NOT a :: 'a::len word) = NOT (word_reverse a)"
  by (rule bit_word_eqI) (auto simp: bit_simps)

lemma rev_push1: "word_reverse (push_bit 1 a :: 32 word) = drop_bit 1 (word_reverse a)"
proof (rule bit_word_eqI)
  fix n assume "n < LENGTH(32)"
  then have n: "n < 32" by simp
  have "bit (push_bit 1 a) (31 - n) \<longleftrightarrow> n < 31 \<and> bit a (30 - n)"
    using n by (subst bit_push_bit_iff) auto
  then show "bit (word_reverse (push_bit 1 a)) n = bit (drop_bit 1 (word_reverse a)) n"
    using n by (simp add: bit_word_reverse_iff bit_drop_bit_eq del: push_bit_Suc)
qed

lemma rev_poly: "word_reverse (0x04C11DB7 :: 32 word) = 0xEDB88320"
  unfolding reverse_u32_eq[symmetric]
  by (simp add: reverse_u32_def u32_from_be_bytes_def u32_from_le_bytes_def u32_to_le_bytes_def
      nat_to_le_4 reverse_byte_def LOOKUP_TABLE_4BIT_REVERSE_def)

lemma round_rev: "word_reverse (crc32_round c) = ref_round (word_reverse c)"
proof -
  have top: "(c AND 0x80000000 \<noteq> 0) = bit (word_reverse c) 0"
  proof -
    have "(0x80000000 :: 32 word) = 2 ^ 31" by simp
    then show ?thesis by (simp only: and_exp_eq_0_iff_not_bit bit_word_reverse_iff) simp
  qed
  show ?thesis
    unfolding crc32_round_def ref_round_def top
    by (simp only: if_distrib[of word_reverse] rev_xor rev_push1 rev_poly)
qed

lemma rounds_rev: "word_reverse ((crc32_round ^^ k) c) = (ref_round ^^ k) (word_reverse c)"
  by (induction k) (simp_all add: round_rev)

lemma rev_shifted_byte: "word_reverse (push_bit 24 (ucast (word_reverse b)) :: 32 word) = ucast (b :: byte)"
proof (rule bit_word_eqI)
  fix n assume "n < LENGTH(32)"
  then have "n < 8 \<or> 8 \<le> n \<and> n < 32" by auto
  moreover have "\<not> bit b n" if "8 \<le> n" using that by (auto dest: bit_imp_le_length)
  ultimately show "bit (word_reverse (push_bit 24 (ucast (word_reverse b)) :: 32 word)) n
      = bit (ucast b :: 32 word) n"
    by (auto simp: bit_simps)
qed

lemma crc32_byte_rev:
  "word_reverse (crc32_byte c b) = (ref_round ^^ 8) (word_reverse c XOR ucast b)"
  by (simp only: crc32_byte_def rounds_rev rev_xor reverse_byte_eq rev_shifted_byte)

lemma crc32_loop_rev:
  "word_reverse (foldl crc32_byte c data)
     = foldl (\<lambda>c b. (ref_round ^^ 8) (c XOR ucast b)) (word_reverse c) data"
  by (induction data arbitrary: c) (simp_all only: foldl_Nil foldl_Cons crc32_byte_rev)

text \<open>
  C27. The checksum \<open>libabr\<close> computes is CRC-32: for every byte string, its byte-reversing
  most-significant-bit-first loop gives the value of the standard reflected algorithm.
\<close>

theorem crc32_is_crc32_ref: "crc32 data = crc32_ref data"
proof -
  have all_ones: "(0xffffffff :: 32 word) = NOT 0" by simp
  have "word_reverse (0xffffffff :: 32 word) = 0xffffffff"
    by (rule bit_word_eqI) (simp add: bit_simps all_ones)
  then show ?thesis
    by (simp only: crc32_def crc32_ref_def reverse_u32_eq rev_not crc32_loop_rev)
qed
end
