(* ===== verification/Abr.thy ===== *)
theory Abr
  imports Safe_Math Abr_Crc
begin

unbundle bit_operations_syntax

text \<open>
  \<open>libabr\<close>: the Fuchsia A/B/R slot library. The wire format of the metadata with its CRC, the
  normalisation of slot data, and the public operations over a storage backend (the trait \<open>Ops\<close>,
  here the record \<open>abr_ops\<close> of its two storage methods; the console is not modelled). The backend's
  contract is the locale \<open>abr_storage\<close>, interpreted on the in-memory backend of the library.
\<close>

section \<open>Data\<close>

definition ABR_MAGIC :: "byte list" where "ABR_MAGIC = [0x00, 0x41, 0x42, 0x30]"
definition ABR_MAJOR_VERSION :: byte where "ABR_MAJOR_VERSION = 2"
definition ABR_MINOR_VERSION :: byte where "ABR_MINOR_VERSION = 2"
definition ONE_SHOT_RECOVERY :: byte where "ONE_SHOT_RECOVERY = push_bit 0 1"
definition ONE_SHOT_BOOTLOADER :: byte where "ONE_SHOT_BOOTLOADER = push_bit 1 1"
definition ABR_MAX_PRIORITY :: byte where "ABR_MAX_PRIORITY = 15"
definition ABR_MAX_TRIES_REMAINING :: byte where "ABR_MAX_TRIES_REMAINING = 7"

datatype slot_index = SlotA | SlotB | SlotR

text \<open>The other slot of the A/B pair; aborts on the recovery slot.\<close>

fun other :: "slot_index \<Rightarrow> slot_index res" where
  "other SlotA = Ok SlotB"
| "other SlotB = Ok SlotA"
| "other SlotR = Panic"

fun slot_to_c_uint :: "slot_index \<Rightarrow> nat" where
  "slot_to_c_uint SlotA = 0"
| "slot_to_c_uint SlotB = 1"
| "slot_to_c_uint SlotR = 2"

fun slot_to_char :: "slot_index \<Rightarrow> char" where
  "slot_to_char SlotA = CHR ''a''"
| "slot_to_char SlotB = CHR ''b''"
| "slot_to_char SlotR = CHR ''r''"

fun slot_to_suffix :: "slot_index \<Rightarrow> string" where
  "slot_to_suffix SlotA = ''_a''"
| "slot_to_suffix SlotB = ''_b''"
| "slot_to_suffix SlotR = ''_r''"

definition slot_from_char :: "char \<Rightarrow> slot_index res" where
  "slot_from_char c = (if c = CHR ''a'' then Ok SlotA
     else if c = CHR ''b'' then Ok SlotB
     else if c = CHR ''r'' then Ok SlotR
     else Err InvalidInput)"

definition slot_from_c_uint :: "nat \<Rightarrow> slot_index res" where
  "slot_from_c_uint v = (if v = slot_to_c_uint SlotA then Ok SlotA
     else if v = slot_to_c_uint SlotB then Ok SlotB
     else if v = slot_to_c_uint SlotR then Ok SlotR
     else Err InvalidInput)"

datatype slot_state = Successful | Bootable byte | Unbootable

record slot_info =
  state :: slot_state
  is_active :: bool

record abr_slot_data =
  priority :: byte
  tries_remaining :: byte
  successful_boot :: byte
  slot_reserved :: byte

definition slot_deserialize :: "byte list \<Rightarrow> abr_slot_data" where
  "slot_deserialize bytes =
     \<lparr> priority = bytes ! 0, tries_remaining = bytes ! 1, successful_boot = bytes ! 2,
       slot_reserved = bytes ! 3 \<rparr>"

definition slot_serialize :: "abr_slot_data \<Rightarrow> byte list" where
  "slot_serialize d = [priority d, tries_remaining d, successful_boot d, slot_reserved d]"

definition is_slot_bootable :: "abr_slot_data \<Rightarrow> bool" where
  "is_slot_bootable d \<longleftrightarrow> 0 < priority d \<and> (successful_boot d = 1 \<or> 0 < tries_remaining d)"

definition set_slot_unbootable :: "abr_slot_data \<Rightarrow> abr_slot_data" where
  "set_slot_unbootable d = d\<lparr> tries_remaining := 0, successful_boot := 0 \<rparr>"

definition get_normalized_priority :: "abr_slot_data \<Rightarrow> byte" where
  "get_normalized_priority d = (if is_slot_bootable d then priority d else 0)"

definition slot_normalize :: "abr_slot_data \<Rightarrow> abr_slot_data" where
  "slot_normalize d =
     (if 0 < priority d then
        let d1 = (if tries_remaining d = 0 \<and> successful_boot d = 0
                  then set_slot_unbootable d else d);
            d2 = (if 0 < tries_remaining d1 \<and> successful_boot d1 = 1
                  then d1\<lparr> tries_remaining := ABR_MAX_TRIES_REMAINING, successful_boot := 0 \<rparr>
                  else d1)
        in d2\<lparr> priority := min (priority d2) ABR_MAX_PRIORITY,
               tries_remaining := min (tries_remaining d2) ABR_MAX_TRIES_REMAINING \<rparr>
      else set_slot_unbootable d)"

text \<open>The array \<open>slot_data\<close> of length two is a pair.\<close>

record abr_data =
  magic :: "byte list"
  version_major :: byte
  version_minor :: byte
  reserved :: "byte list"
  slots :: "abr_slot_data \<times> abr_slot_data"
  one_shot_flags :: byte
  reserved2 :: "byte list"
  crc :: "32 word"

definition ABR_DATA_SIZE :: nat where "ABR_DATA_SIZE = 32"

fun slot_num_index :: "slot_index \<Rightarrow> nat res" where
  "slot_num_index SlotA = Ok 0"
| "slot_num_index SlotB = Ok 1"
| "slot_num_index SlotR = Panic"

definition slot_data :: "abr_data \<Rightarrow> slot_index \<Rightarrow> abr_slot_data res" where
  "slot_data d i = map_ok (\<lambda>n. if n = 0 then fst (slots d) else snd (slots d)) (slot_num_index i)"

text \<open>Writing through \<open>slot_data_mut\<close>: the slot is replaced by \<open>f\<close> of it.\<close>

definition slot_data_mut ::
    "(abr_slot_data \<Rightarrow> abr_slot_data) \<Rightarrow> slot_index \<Rightarrow> abr_data \<Rightarrow> abr_data res" where
  "slot_data_mut f i d = map_ok (\<lambda>n. d\<lparr> slots :=
       (if n = 0 then (f (fst (slots d)), snd (slots d)) else (fst (slots d), f (snd (slots d)))) \<rparr>)
     (slot_num_index i)"

definition abr_default :: abr_data where
  "abr_default = \<lparr> magic = ABR_MAGIC, version_major = ABR_MAJOR_VERSION,
     version_minor = ABR_MINOR_VERSION, reserved = replicate 2 0,
     slots = (\<lparr> priority = ABR_MAX_PRIORITY, tries_remaining = ABR_MAX_TRIES_REMAINING,
                successful_boot = 0, slot_reserved = 0 \<rparr>,
              \<lparr> priority = ABR_MAX_PRIORITY - 1, tries_remaining = ABR_MAX_TRIES_REMAINING,
                successful_boot = 0, slot_reserved = 0 \<rparr>),
     one_shot_flags = 0, reserved2 = replicate 11 0, crc = 0 \<rparr>"

definition abr_null :: abr_data where
  "abr_null = abr_default\<lparr> magic := replicate 4 0 \<rparr>"

section \<open>Storage backend\<close>

record 's abr_ops =
  read_abr_metadata :: "nat \<Rightarrow> ('s, byte list) io"
  write_abr_metadata :: "byte list \<Rightarrow> ('s, unit) io"

text \<open>The backend \<open>[u8; ABR_DATA_SIZE]\<close>: the metadata in memory.\<close>

definition array_read_abr_metadata :: "nat \<Rightarrow> (byte list, byte list) io" where
  "array_read_abr_metadata n self =
     (ok_or (slice_get 0 n self) (BufferTooSmall (Some n)), self)"

definition array_write_abr_metadata :: "byte list \<Rightarrow> (byte list, unit) io" where
  "array_write_abr_metadata data self =
     (if length data \<le> length self then (Ok (), overwrite 0 data self)
      else (Err (BufferTooSmall (Some (length data))), self))"

definition array_abr_ops :: "byte list abr_ops" where
  "array_abr_ops = \<lparr> read_abr_metadata = array_read_abr_metadata,
                     write_abr_metadata = array_write_abr_metadata \<rparr>"

section \<open>Wire format\<close>

definition abr_parse :: "byte list \<Rightarrow> abr_data" where
  "abr_parse bytes =
     \<lparr> magic = take 4 bytes, version_major = bytes ! 4, version_minor = bytes ! 5,
       reserved = take 2 (drop 6 bytes),
       slots = (slot_deserialize (take 4 (drop 8 bytes)), slot_deserialize (take 4 (drop 12 bytes))),
       one_shot_flags = bytes ! 16, reserved2 = take 11 (drop 17 bytes),
       crc = u32_from_be_bytes (take 4 (drop 28 bytes)) \<rparr>"

definition abr_check :: "byte list \<Rightarrow> abr_data res" where
  "abr_check bytes = (let r = abr_parse bytes in
     if magic r \<noteq> ABR_MAGIC then Err BadMagic
     else if crc r \<noteq> crc32 (take 28 bytes) then Err BadChecksum
     else if ABR_MAJOR_VERSION < version_major r then Err UnsupportedVersion
     else Ok r)"

definition abr_deserialize :: "'s abr_ops \<Rightarrow> ('s, abr_data) io" where
  "abr_deserialize ops =
     st_then (read_abr_metadata ops ABR_DATA_SIZE) (\<lambda>bytes. st_lift (abr_check bytes))"

definition abr_body :: "abr_data \<Rightarrow> byte list" where
  "abr_body d = magic d @ [version_major d, version_minor d] @ reserved d
     @ slot_serialize (fst (slots d)) @ slot_serialize (snd (slots d))
     @ [one_shot_flags d] @ reserved2 d"

text \<open>\<open>serialize\<close> updates the checksum field of the structure it writes out.\<close>

definition abr_serialize :: "abr_data \<Rightarrow> byte list \<times> abr_data" where
  "abr_serialize d = (let d' = d\<lparr> crc := crc32 (abr_body d) \<rparr>
     in (abr_body d' @ u32_to_be_bytes (crc d'), d'))"

section \<open>Slot choice and flags\<close>

definition get_active_slot :: "abr_data \<Rightarrow> slot_index res" where
  "get_active_slot d =
     and_then (slot_data d SlotA) (\<lambda>a. and_then (slot_data d SlotB) (\<lambda>b.
       let priority_a = get_normalized_priority a; priority_b = get_normalized_priority b in
       if priority_a < priority_b then Ok SlotB
       else if 0 < priority_a then Ok SlotA
       else Ok SlotR))"

definition is_slot_active :: "abr_data \<Rightarrow> slot_index \<Rightarrow> bool res" where
  "is_slot_active d i = map_ok (\<lambda>j. j = i) (get_active_slot d)"

definition is_one_shot_recovery :: "abr_data \<Rightarrow> bool" where
  "is_one_shot_recovery d \<longleftrightarrow> one_shot_flags d AND ONE_SHOT_RECOVERY \<noteq> 0"

definition data_set_one_shot_recovery :: "bool \<Rightarrow> abr_data \<Rightarrow> abr_data" where
  "data_set_one_shot_recovery enable d = d\<lparr> one_shot_flags :=
     (if enable then one_shot_flags d OR ONE_SHOT_RECOVERY
      else one_shot_flags d AND NOT ONE_SHOT_RECOVERY) \<rparr>"

definition data_set_one_shot_bootloader :: "bool \<Rightarrow> abr_data \<Rightarrow> abr_data" where
  "data_set_one_shot_bootloader enable d = d\<lparr> one_shot_flags :=
     (if enable then one_shot_flags d OR ONE_SHOT_BOOTLOADER
      else one_shot_flags d AND NOT ONE_SHOT_BOOTLOADER) \<rparr>"

section \<open>Loading and saving\<close>

definition normalize_both :: "abr_data \<Rightarrow> abr_data res" where
  "normalize_both d = and_then (slot_data_mut slot_normalize SlotA d) (slot_data_mut slot_normalize SlotB)"

text \<open>Returns the normalised data and the data as stored (\<open>abr_null\<close> when nothing valid is stored).\<close>

definition load_metadata :: "'s abr_ops \<Rightarrow> ('s, abr_data \<times> abr_data) io" where
  "load_metadata ops s = (case abr_deserialize ops s of
      (Ok v, s') \<Rightarrow> (map_ok (\<lambda>d. (d, v)) (normalize_both v), s')
    | (Panic, s') \<Rightarrow> (Panic, s')
    | (Err e, s') \<Rightarrow>
        (case e of
           Other x \<Rightarrow> (Err (Other x), s')
         | UnsupportedVersion \<Rightarrow> (Err UnsupportedVersion, s')
         | _ \<Rightarrow> (map_ok (\<lambda>d. (d, abr_null)) (normalize_both abr_default), s')))"

text \<open>The structure is returned with the checksum that was written, also when the write fails.\<close>

definition save_metadata :: "'s abr_ops \<Rightarrow> abr_data \<Rightarrow> 's \<Rightarrow> unit res \<times> abr_data \<times> 's" where
  "save_metadata ops d s = (let (bytes, d') = abr_serialize d;
     (r, s') = write_abr_metadata ops bytes s in (r, d', s'))"

definition save_metadata_if_changed ::
    "'s abr_ops \<Rightarrow> abr_data \<Rightarrow> abr_data \<Rightarrow> ('s, unit) io" where
  "save_metadata_if_changed ops d orig s =
     (if d = orig then (Ok (), s) else let (r, d', s') = save_metadata ops d s in (r, s'))"

section \<open>Public operations\<close>

definition take_attempt :: "abr_slot_data \<Rightarrow> abr_slot_data res" where
  "take_attempt d = (if tries_remaining d = 0 then Panic
     else Ok (d\<lparr> tries_remaining := tries_remaining d - 1 \<rparr>))"

text \<open>Clears the success mark of \<open>slot\<close> when it is not the slot being booted.\<close>

definition clear_success_unless :: "slot_index \<Rightarrow> slot_index \<Rightarrow> abr_data \<Rightarrow> abr_data res" where
  "clear_success_unless slot_to_boot slot d =
     and_then (slot_data d slot) (\<lambda>sd.
       if slot \<noteq> slot_to_boot \<and> successful_boot sd = 1
       then slot_data_mut (\<lambda>x. x\<lparr> tries_remaining := ABR_MAX_TRIES_REMAINING,
                                  successful_boot := 0 \<rparr>) slot d
       else Ok d)"

text \<open>The metadata changes of one boot attempt of \<open>slot\<close>.\<close>

definition boot_update :: "slot_index \<Rightarrow> bool \<Rightarrow> abr_data \<Rightarrow> abr_data res" where
  "boot_update slot marked_successful d =
     and_then
       (if slot \<noteq> SlotR \<and> \<not> marked_successful
        then and_then (slot_data d slot) (\<lambda>sd. and_then (take_attempt sd) (\<lambda>sd'.
               slot_data_mut (\<lambda>_. sd') slot d))
        else Ok d)
       (\<lambda>d1. and_then (clear_success_unless slot SlotA d1) (clear_success_unless slot SlotB))"

text \<open>The second half of \<open>get_boot_slot\<close>: choose the slot, update and save the metadata.\<close>

definition boot_active_slot ::
    "'s abr_ops \<Rightarrow> bool \<Rightarrow> abr_data \<Rightarrow> abr_data \<Rightarrow> ('s, slot_index \<times> bool) io" where
  "boot_active_slot ops update_metadata d orig =
     st_then (st_lift (get_active_slot d)) (\<lambda>slot.
     st_then (st_lift (if slot = SlotR then Ok False
                       else map_ok (\<lambda>sd. successful_boot sd = 1) (slot_data d slot))) (\<lambda>marked.
     if update_metadata then
       st_then (st_lift (boot_update slot marked d)) (\<lambda>d1 s.
         case save_metadata_if_changed ops d1 orig s of
           (Panic, s') \<Rightarrow> (Panic, s')
         | (_, s') \<Rightarrow> (Ok (slot, marked), s'))
     else st_lift (Ok (slot, marked))))"

definition get_boot_slot :: "'s abr_ops \<Rightarrow> bool \<Rightarrow> ('s, slot_index \<times> bool) io" where
  "get_boot_slot ops update_metadata s =
     (case load_metadata ops s of
        (Panic, s1) \<Rightarrow> (Panic, s1)
      | (Err e, s1) \<Rightarrow> (Ok (SlotR, False), s1)
      | (Ok (d, orig), s1) \<Rightarrow>
          if is_one_shot_recovery d \<and> update_metadata then
            (case save_metadata ops (data_set_one_shot_recovery False d) s1 of
               (Ok _, d', s2) \<Rightarrow> (Ok (SlotR, False), s2)
             | (Panic, d', s2) \<Rightarrow> (Panic, s2)
             | (Err e, d', s2) \<Rightarrow>
                 boot_active_slot ops update_metadata (data_set_one_shot_recovery True d') orig s2)
          else boot_active_slot ops update_metadata d orig s1)"

definition mark_slot_active :: "'s abr_ops \<Rightarrow> slot_index \<Rightarrow> ('s, unit) io" where
  "mark_slot_active ops slot =
     (if slot = SlotR then st_lift (Err InvalidInput)
      else st_then (load_metadata ops) (\<lambda>(d, orig).
        st_then (st_lift (slot_data_mut (\<lambda>x. x\<lparr> priority := ABR_MAX_PRIORITY,
            tries_remaining := ABR_MAX_TRIES_REMAINING, successful_boot := 0 \<rparr>) slot d)) (\<lambda>d1.
        st_then (st_lift (other slot)) (\<lambda>oth.
        st_then (st_lift (slot_data_mut (\<lambda>x. x\<lparr> priority :=
            min (priority x) (ABR_MAX_PRIORITY - 1) \<rparr>) oth d1)) (\<lambda>d2.
        save_metadata_if_changed ops d2 orig)))))"

definition get_slot_last_marked_active :: "'s abr_ops \<Rightarrow> ('s, slot_index) io" where
  "get_slot_last_marked_active ops =
     st_then (load_metadata ops) (\<lambda>(d, orig).
       st_lift (and_then (slot_data d SlotB) (\<lambda>b. and_then (slot_data d SlotA) (\<lambda>a.
         if priority a < priority b then Ok SlotB else Ok SlotA))))"

definition mark_slot_unbootable :: "'s abr_ops \<Rightarrow> slot_index \<Rightarrow> ('s, unit) io" where
  "mark_slot_unbootable ops slot =
     (if slot = SlotR then st_lift (Err InvalidInput)
      else st_then (load_metadata ops) (\<lambda>(d, orig).
        st_then (st_lift (slot_data_mut set_slot_unbootable slot d)) (\<lambda>d1.
        save_metadata_if_changed ops d1 orig)))"

definition mark_slot_successful :: "'s abr_ops \<Rightarrow> slot_index \<Rightarrow> ('s, unit) io" where
  "mark_slot_successful ops slot =
     (if slot = SlotR then st_lift (Err InvalidInput)
      else st_then (load_metadata ops) (\<lambda>(d, orig).
        st_then (st_lift (slot_data d slot)) (\<lambda>sd.
        if \<not> is_slot_bootable sd then st_lift (Err InvalidInput)
        else
        st_then (st_lift (slot_data_mut (\<lambda>x. x\<lparr> tries_remaining := 0, successful_boot := 1 \<rparr>) slot d))
          (\<lambda>d1.
        st_then (st_lift (other slot)) (\<lambda>oth.
        st_then (st_lift (slot_data d1 oth)) (\<lambda>od.
        st_then (st_lift (if is_slot_bootable od
            then slot_data_mut (\<lambda>x. x\<lparr> tries_remaining := ABR_MAX_TRIES_REMAINING,
                                       successful_boot := 0 \<rparr>) oth d1
            else Ok d1)) (\<lambda>d2.
        save_metadata_if_changed ops d2 orig)))))))"

definition get_slot_info :: "'s abr_ops \<Rightarrow> slot_index \<Rightarrow> ('s, slot_info) io" where
  "get_slot_info ops slot =
     st_then (load_metadata ops) (\<lambda>(d, orig).
       st_lift (if slot = SlotR
         then map_ok (\<lambda>act. \<lparr> state = Successful, is_active = act \<rparr>) (is_slot_active d SlotR)
         else and_then (slot_data d slot) (\<lambda>sd.
           map_ok (\<lambda>act. \<lparr> state = (if successful_boot sd = 1 then Successful
                                     else if is_slot_bootable sd then Bootable (tries_remaining sd)
                                     else Unbootable), is_active = act \<rparr>) (is_slot_active d slot))))"

definition set_one_shot_recovery :: "'s abr_ops \<Rightarrow> bool \<Rightarrow> ('s, unit) io" where
  "set_one_shot_recovery ops enable =
     st_then (load_metadata ops) (\<lambda>(d, orig).
       save_metadata_if_changed ops (data_set_one_shot_recovery enable d) orig)"

definition set_one_shot_bootloader :: "'s abr_ops \<Rightarrow> bool \<Rightarrow> ('s, unit) io" where
  "set_one_shot_bootloader ops enable =
     st_then (load_metadata ops) (\<lambda>(d, orig).
       save_metadata_if_changed ops (data_set_one_shot_bootloader enable d) orig)"

definition get_and_clear_one_shot_flag :: "'s abr_ops \<Rightarrow> ('s, byte) io" where
  "get_and_clear_one_shot_flag ops =
     st_then (load_metadata ops) (\<lambda>(d, orig).
       st_then (save_metadata_if_changed ops (d\<lparr> one_shot_flags := 0 \<rparr>) orig) (\<lambda>_.
         st_lift (Ok (one_shot_flags d))))"

definition get_and_clear_one_shot_bootloader :: "'s abr_ops \<Rightarrow> ('s, bool) io" where
  "get_and_clear_one_shot_bootloader ops =
     st_then (load_metadata ops) (\<lambda>(d, orig).
       st_then (save_metadata_if_changed ops
           (d\<lparr> one_shot_flags := one_shot_flags d AND NOT ONE_SHOT_BOOTLOADER \<rparr>) orig) (\<lambda>_.
         st_lift (Ok (one_shot_flags d AND ONE_SHOT_BOOTLOADER \<noteq> 0))))"

section \<open>C helpers\<close>

text \<open>Byte order conversions of \<open>u32\<close> on the little-endian targets.\<close>

definition AbrBigEndianToHost :: "32 word \<Rightarrow> 32 word" where
  "AbrBigEndianToHost val = u32_from_be_bytes (u32_to_le_bytes val)"

definition AbrHostToBigEndian :: "32 word \<Rightarrow> 32 word" where
  "AbrHostToBigEndian val = u32_from_le_bytes (u32_to_be_bytes val)"

definition AbrIsOneShotRecoveryBootSet :: "byte \<Rightarrow> bool" where
  "AbrIsOneShotRecoveryBootSet flags \<longleftrightarrow> flags AND ONE_SHOT_RECOVERY \<noteq> 0"

definition AbrIsOneShotBootloaderBootSet :: "byte \<Rightarrow> bool" where
  "AbrIsOneShotBootloaderBootSet flags \<longleftrightarrow> flags AND ONE_SHOT_BOOTLOADER \<noteq> 0"

text \<open>The pointer variants: a null pointer (\<open>None\<close>) aborts.\<close>

definition AbrIsOneShotRecoveryBoot :: "abr_data option \<Rightarrow> bool res" where
  "AbrIsOneShotRecoveryBoot p =
     map_ok (\<lambda>d. AbrIsOneShotRecoveryBootSet (one_shot_flags d)) (unwrap_opt p)"

definition AbrIsOneShotBootloaderBoot :: "abr_data option \<Rightarrow> bool res" where
  "AbrIsOneShotBootloaderBoot p =
     map_ok (\<lambda>d. AbrIsOneShotBootloaderBootSet (one_shot_flags d)) (unwrap_opt p)"

definition AbrSetOneShotRecoveryBoot :: "abr_data option \<Rightarrow> bool \<Rightarrow> abr_data res" where
  "AbrSetOneShotRecoveryBoot p enable = map_ok (data_set_one_shot_recovery enable) (unwrap_opt p)"

definition AbrSetOneShotBootloaderBoot :: "abr_data option \<Rightarrow> bool \<Rightarrow> abr_data res" where
  "AbrSetOneShotBootloaderBoot p enable = map_ok (data_set_one_shot_bootloader enable) (unwrap_opt p)"

end
