(* ===== verification/Abr_Spec.thy ===== *)
theory Abr_Spec
  imports Abr
begin

unbundle bit_operations_syntax

text \<open>
  What \<open>libabr\<close> promises. The stored bytes are abstracted to the metadata a caller sees
  (\<open>abr_meta\<close>: validated, normalised, defaults in place of invalid data, checksum forgotten), the
  operations are specified as functions on that metadata, and the locale \<open>abr_storage\<close>, the
  contract of a storage backend, carries the proofs that the operations of \<open>Abr\<close> implement them.
  The locale is interpreted on the backend the library itself provides.
\<close>

section \<open>Normal form\<close>

definition slot_normal :: "abr_slot_data \<Rightarrow> bool" where
  "slot_normal d \<longleftrightarrow> priority d \<le> ABR_MAX_PRIORITY \<and> tries_remaining d \<le> ABR_MAX_TRIES_REMAINING
     \<and> (priority d = 0 \<longrightarrow> tries_remaining d = 0 \<and> successful_boot d = 0)
     \<and> \<not> (0 < tries_remaining d \<and> successful_boot d = 1)"

lemmas abr_const_defs = ABR_MAX_PRIORITY_def ABR_MAX_TRIES_REMAINING_def ABR_MAJOR_VERSION_def
  ABR_MINOR_VERSION_def ABR_MAGIC_def

lemma byte_pos_iff: "0 < (b :: byte) \<longleftrightarrow> b \<noteq> 0"
  by (simp add: word_neq_0_conv)

lemma slot_normalize_is_normal: "slot_normal (slot_normalize d)"
  by (auto simp: slot_normal_def slot_normalize_def set_slot_unbootable_def Let_def
      abr_const_defs min_def byte_pos_iff)

lemma slot_normalize_id:
  assumes "slot_normal d"
  shows "slot_normalize d = d"
  using assms
  by (cases d) (auto simp: slot_normal_def slot_normalize_def set_slot_unbootable_def Let_def min_def
      byte_pos_iff)

lemma slot_normalize_bootable: "is_slot_bootable (slot_normalize d) \<longleftrightarrow> is_slot_bootable d"
  by (auto simp: is_slot_bootable_def slot_normalize_def set_slot_unbootable_def Let_def
      abr_const_defs min_def byte_pos_iff)

definition abr_norm :: "abr_data \<Rightarrow> abr_data" where
  "abr_norm d = d\<lparr> slots := map_prod slot_normalize slot_normalize (slots d), crc := 0 \<rparr>"

text \<open>Well-formed for writing out: field widths, the magic and a supported version.\<close>

definition abr_shape :: "abr_data \<Rightarrow> bool" where
  "abr_shape d \<longleftrightarrow> magic d = ABR_MAGIC \<and> length (reserved d) = 2 \<and> length (reserved2 d) = 11"

definition abr_wf :: "abr_data \<Rightarrow> bool" where
  "abr_wf d \<longleftrightarrow> magic d = ABR_MAGIC \<and> length (reserved d) = 2 \<and> length (reserved2 d) = 11
     \<and> version_major d \<le> ABR_MAJOR_VERSION"

lemma abr_wf_shape: "abr_wf d \<longleftrightarrow> abr_shape d \<and> version_major d \<le> ABR_MAJOR_VERSION"
  by (auto simp: abr_wf_def abr_shape_def)

definition abr_normal :: "abr_data \<Rightarrow> bool" where
  "abr_normal d \<longleftrightarrow> abr_wf d \<and> slot_normal (fst (slots d)) \<and> slot_normal (snd (slots d))"

lemma abr_default_normal: "abr_normal abr_default"
  by (simp add: abr_normal_def abr_wf_def abr_default_def slot_normal_def abr_const_defs)

lemma abr_norm_id:
  assumes "abr_normal d"
  shows "abr_norm d = d\<lparr> crc := 0 \<rparr>"
  using assms by (cases "slots d") (simp add: abr_norm_def abr_normal_def slot_normalize_id)

lemma abr_wf_not_null: "abr_wf d \<Longrightarrow> d \<noteq> abr_null"
proof -
  have "replicate 4 (0 :: byte) = [0, 0, 0, 0]"
    by (simp add: eval_nat_numeral)
  then show "abr_wf d \<Longrightarrow> d \<noteq> abr_null"
    by (auto simp: abr_wf_def abr_null_def ABR_MAGIC_def)
qed

section \<open>Wire format\<close>

lemma abr_body_length: "abr_shape d \<Longrightarrow> length (abr_body d) = 28"
  by (simp add: abr_shape_def abr_body_def slot_serialize_def ABR_MAGIC_def)

lemma abr_parse_body:
  assumes wf: "abr_shape d" and len: "length bs = 4"
  shows "abr_parse (abr_body d @ bs) = d\<lparr> crc := u32_from_be_bytes bs \<rparr>"
  using wf len unfolding abr_shape_def
  by (cases d, cases "slots d")
    (simp add: abr_parse_def abr_body_def slot_serialize_def slot_deserialize_def ABR_MAGIC_def
      nth_append)

lemma abr_body_crc [simp]: "abr_body (d\<lparr> crc := c \<rparr>) = abr_body d"
  by (simp add: abr_body_def)

lemma u32_be_length [simp]: "length (u32_to_be_bytes c) = 4"
  by (simp add: u32_to_be_bytes_def)

lemma abr_serialize_length: "abr_shape d \<Longrightarrow> length (fst (abr_serialize d)) = 32"
  by (simp add: abr_serialize_def Let_def abr_body_length)

lemma abr_check_serialize:
  assumes "abr_shape d"
  shows "abr_check (fst (abr_serialize d)) = (if ABR_MAJOR_VERSION < version_major d
     then Err UnsupportedVersion else Ok (d\<lparr> crc := crc32 (abr_body d) \<rparr>))"
  using assms abr_parse_body [OF assms] abr_body_length [OF assms]
  by (simp add: abr_check_def abr_serialize_def Let_def) (simp add: abr_shape_def)

lemma abr_serialize_check:
  assumes "abr_wf d"
  shows "abr_check (fst (abr_serialize d)) = Ok (d\<lparr> crc := crc32 (abr_body d) \<rparr>)"
    and "length (fst (abr_serialize d)) = 32"
  using assms by (simp_all add: abr_check_serialize abr_serialize_length abr_wf_shape not_less)

lemma abr_check_wf:
  assumes "abr_check bytes = Ok d" "length bytes = 32"
  shows "abr_wf d"
  using assms by (auto simp: abr_check_def abr_wf_def abr_parse_def Let_def split: if_splits)

lemma abr_check_errors:
  "abr_check bytes \<noteq> Panic" "abr_check bytes = Err e \<Longrightarrow> e = BadMagic \<or> e = BadChecksum \<or> e = UnsupportedVersion"
  by (auto simp: abr_check_def Let_def split: if_splits)

section \<open>The metadata a caller sees\<close>

text \<open>\<open>None\<close>: the metadata was written by a newer version and must not be touched.\<close>

definition abr_meta :: "byte list \<Rightarrow> abr_data option" where
  "abr_meta bytes = (case abr_check bytes of
      Ok v \<Rightarrow> Some (abr_norm v)
    | Err e \<Rightarrow> if e = UnsupportedVersion then None else Some abr_default
    | Panic \<Rightarrow> None)"

lemma abr_meta_normal:
  assumes "abr_meta bytes = Some m" "length bytes = 32"
  shows "abr_normal m" "crc m = 0"
proof -
  have "abr_normal m \<and> crc m = 0"
  proof (cases "abr_check bytes")
    case (Ok v)
    then show ?thesis using assms abr_check_wf [OF Ok]
      by (auto simp: abr_meta_def abr_norm_def abr_normal_def abr_wf_def slot_normalize_is_normal)
  next
    case (Err e)
    then show ?thesis using assms abr_default_normal
      by (auto simp: abr_meta_def abr_default_def split: if_splits)
  next
    case Panic
    then show ?thesis by (simp add: abr_check_errors)
  qed
  then show "abr_normal m" "crc m = 0" by auto
qed

lemma abr_meta_serialize:
  assumes "abr_normal d"
  shows "abr_meta (fst (abr_serialize d)) = Some (d\<lparr> crc := 0 \<rparr>)"
  using assms abr_norm_id [of "d\<lparr> crc := c \<rparr>" for c]
  by (simp add: abr_meta_def abr_serialize_check abr_normal_def abr_wf_def)

section \<open>Specification of the operations\<close>

lemma slot_data_simps [simp]:
  "slot_data d SlotA = Ok (fst (slots d))"
  "slot_data d SlotB = Ok (snd (slots d))"
  "slot_data d SlotR = Panic"
  by (simp_all add: slot_data_def)

lemma slot_data_mut_simps [simp]:
  "slot_data_mut f SlotA d = Ok (d\<lparr> slots := apfst f (slots d) \<rparr>)"
  "slot_data_mut f SlotB d = Ok (d\<lparr> slots := apsnd f (slots d) \<rparr>)"
  "slot_data_mut f SlotR d = Panic"
  by (cases "slots d"; simp add: slot_data_mut_def)+

lemma normalize_both_eq:
  "normalize_both d = Ok (d\<lparr> slots := map_prod slot_normalize slot_normalize (slots d) \<rparr>)"
  by (cases "slots d") (simp add: normalize_both_def)

fun upd_slot :: "slot_index \<Rightarrow> (abr_slot_data \<Rightarrow> abr_slot_data) \<Rightarrow> abr_data \<Rightarrow> abr_data" where
  "upd_slot SlotA f d = d\<lparr> slots := apfst f (slots d) \<rparr>"
| "upd_slot SlotB f d = d\<lparr> slots := apsnd f (slots d) \<rparr>"
| "upd_slot SlotR f d = d"

fun the_slot :: "abr_data \<Rightarrow> slot_index \<Rightarrow> abr_slot_data option" where
  "the_slot d SlotA = Some (fst (slots d))"
| "the_slot d SlotB = Some (snd (slots d))"
| "the_slot d SlotR = None"

fun opposite :: "slot_index \<Rightarrow> slot_index" where
  "opposite SlotA = SlotB"
| "opposite SlotB = SlotA"
| "opposite SlotR = SlotR"

definition retry :: "abr_slot_data \<Rightarrow> abr_slot_data" where
  "retry x = x\<lparr> tries_remaining := ABR_MAX_TRIES_REMAINING, successful_boot := 0 \<rparr>"

definition active :: "abr_data \<Rightarrow> slot_index" where
  "active d = (let a = get_normalized_priority (fst (slots d)); b = get_normalized_priority (snd (slots d))
     in if a < b then SlotB else if 0 < a then SlotA else SlotR)"

definition marked_ok :: "abr_data \<Rightarrow> slot_index \<Rightarrow> bool" where
  "marked_ok d i \<longleftrightarrow> (case the_slot d i of None \<Rightarrow> False | Some x \<Rightarrow> successful_boot x = 1)"

definition spec_activate :: "slot_index \<Rightarrow> abr_data \<Rightarrow> abr_data" where
  "spec_activate i d = upd_slot (opposite i)
       (\<lambda>x. x\<lparr> priority := min (priority x) (ABR_MAX_PRIORITY - 1) \<rparr>)
     (upd_slot i (\<lambda>x. x\<lparr> priority := ABR_MAX_PRIORITY, tries_remaining := ABR_MAX_TRIES_REMAINING,
                       successful_boot := 0 \<rparr>) d)"

definition spec_succeed :: "slot_index \<Rightarrow> abr_data \<Rightarrow> abr_data" where
  "spec_succeed i d = upd_slot (opposite i) (\<lambda>x. if is_slot_bootable x then retry x else x)
     (upd_slot i (\<lambda>x. x\<lparr> tries_remaining := 0, successful_boot := 1 \<rparr>) d)"

text \<open>One boot: the slot to boot loses an attempt unless it has succeeded before, and a success mark
  of the slot that is not booted is withdrawn.\<close>

definition spec_attempt :: "abr_data \<Rightarrow> abr_data" where
  "spec_attempt d = (if active d = SlotR then d else
     upd_slot (opposite (active d)) (\<lambda>x. if successful_boot x = 1 then retry x else x)
       (upd_slot (active d) (\<lambda>x. if successful_boot x = 1 then x
          else x\<lparr> tries_remaining := tries_remaining x - 1 \<rparr>) d))"

definition spec_boot :: "abr_data \<Rightarrow> slot_index \<times> bool \<times> abr_data" where
  "spec_boot d = (if is_one_shot_recovery d
     then (SlotR, False, data_set_one_shot_recovery False d)
     else (active d, marked_ok d (active d), spec_attempt d))"

text \<open>The specifications do not look at the checksum.\<close>

lemma spec_crc [simp]:
  "upd_slot i f (d\<lparr> crc := c \<rparr>) = (upd_slot i f d)\<lparr> crc := c \<rparr>"
  "spec_activate i (d\<lparr> crc := c \<rparr>) = (spec_activate i d)\<lparr> crc := c \<rparr>"
  "spec_succeed i (d\<lparr> crc := c \<rparr>) = (spec_succeed i d)\<lparr> crc := c \<rparr>"
  "active (d\<lparr> crc := c \<rparr>) = active d"
  "spec_attempt (d\<lparr> crc := c \<rparr>) = (spec_attempt d)\<lparr> crc := c \<rparr>"
  "data_set_one_shot_recovery b (d\<lparr> crc := c \<rparr>) = (data_set_one_shot_recovery b d)\<lparr> crc := c \<rparr>"
  "data_set_one_shot_bootloader b (d\<lparr> crc := c \<rparr>) = (data_set_one_shot_bootloader b d)\<lparr> crc := c \<rparr>"
proof -
  show upd: "upd_slot i f (d\<lparr> crc := c \<rparr>) = (upd_slot i f d)\<lparr> crc := c \<rparr>" for i f d
    by (cases i) simp_all
  show act: "active (d\<lparr> crc := c \<rparr>) = active d"
    by (simp add: active_def)
  show "spec_activate i (d\<lparr> crc := c \<rparr>) = (spec_activate i d)\<lparr> crc := c \<rparr>"
    by (simp add: spec_activate_def upd)
  show "spec_succeed i (d\<lparr> crc := c \<rparr>) = (spec_succeed i d)\<lparr> crc := c \<rparr>"
    by (simp add: spec_succeed_def upd)
  show "spec_attempt (d\<lparr> crc := c \<rparr>) = (spec_attempt d)\<lparr> crc := c \<rparr>"
    by (simp add: spec_attempt_def act upd)
qed (simp_all add: data_set_one_shot_recovery_def data_set_one_shot_bootloader_def)

lemma crc_spec [simp]:
  "crc (upd_slot i f d) = crc d"
  "crc (spec_activate i d) = crc d"
  "crc (spec_succeed i d) = crc d"
  "crc (spec_attempt d) = crc d"
  "crc (data_set_one_shot_recovery b d) = crc d"
  "crc (data_set_one_shot_bootloader b d) = crc d"
proof -
  show upd: "crc (upd_slot i f d) = crc d" for i f d
    by (cases i) simp_all
  show "crc (spec_activate i d) = crc d" "crc (spec_succeed i d) = crc d"
    "crc (spec_attempt d) = crc d"
    by (simp_all add: spec_activate_def spec_succeed_def spec_attempt_def upd)
qed (simp_all add: data_set_one_shot_recovery_def data_set_one_shot_bootloader_def)

section \<open>The operations on loaded metadata\<close>

lemma get_active_slot_eq: "get_active_slot d = Ok (active d)"
  by (simp add: get_active_slot_def active_def Let_def)

lemma active_bootable:
  "active d = SlotA \<Longrightarrow> is_slot_bootable (fst (slots d))"
  "active d = SlotB \<Longrightarrow> is_slot_bootable (snd (slots d))"
  "active d = SlotR \<longleftrightarrow> \<not> is_slot_bootable (fst (slots d)) \<and> \<not> is_slot_bootable (snd (slots d))"
  by (auto simp: active_def get_normalized_priority_def is_slot_bootable_def Let_def byte_pos_iff
      split: if_splits)

lemma bootable_tries: "is_slot_bootable x \<Longrightarrow> successful_boot x \<noteq> 1 \<Longrightarrow> tries_remaining x \<noteq> 0"
  by (auto simp: is_slot_bootable_def byte_pos_iff)

lemma normal_success_bootable: "slot_normal x \<Longrightarrow> successful_boot x = 1 \<Longrightarrow> is_slot_bootable x"
  by (auto simp: is_slot_bootable_def slot_normal_def byte_pos_iff)

lemma boot_update_eq:
  assumes "abr_normal d"
  shows "boot_update (active d) (marked_ok d (active d)) d = Ok (spec_attempt d)"
proof (cases "active d")
  case SlotA
  then show ?thesis using bootable_tries [OF active_bootable(1) [OF SlotA]]
    by (cases d, cases "slots d")
      (auto simp: boot_update_def marked_ok_def take_attempt_def clear_success_unless_def
        spec_attempt_def retry_def)
next
  case SlotB
  then show ?thesis using bootable_tries [OF active_bootable(2) [OF SlotB]]
    by (cases d, cases "slots d")
      (auto simp: boot_update_def marked_ok_def take_attempt_def clear_success_unless_def
        spec_attempt_def retry_def)
next
  case SlotR
  then show ?thesis using assms normal_success_bootable active_bootable(3) [of d]
    by (auto simp: boot_update_def marked_ok_def clear_success_unless_def
        spec_attempt_def abr_normal_def)
qed

lemma slot_normal_updates:
  "slot_normal x \<Longrightarrow> slot_normal (x\<lparr> priority := ABR_MAX_PRIORITY,
     tries_remaining := ABR_MAX_TRIES_REMAINING, successful_boot := 0 \<rparr>)"
  "slot_normal x \<Longrightarrow> slot_normal (x\<lparr> priority := min (priority x) (ABR_MAX_PRIORITY - 1) \<rparr>)"
  "slot_normal x \<Longrightarrow> is_slot_bootable x \<Longrightarrow> slot_normal (retry x)"
  "slot_normal x \<Longrightarrow> is_slot_bootable x \<Longrightarrow> slot_normal (x\<lparr> tries_remaining := 0, successful_boot := 1 \<rparr>)"
  "slot_normal x \<Longrightarrow> slot_normal (set_slot_unbootable x)"
  "slot_normal x \<Longrightarrow> tries_remaining x \<noteq> 0 \<Longrightarrow>
     slot_normal (x\<lparr> tries_remaining := tries_remaining x - 1 \<rparr>)"
proof -
  show "slot_normal x \<Longrightarrow> tries_remaining x \<noteq> 0 \<Longrightarrow>
     slot_normal (x\<lparr> tries_remaining := tries_remaining x - 1 \<rparr>)"
    by (auto simp: slot_normal_def byte_pos_iff abr_const_defs word_le_nat_alt unat_minus_one)
qed (auto simp: slot_normal_def retry_def set_slot_unbootable_def is_slot_bootable_def abr_const_defs
    min_def byte_pos_iff)

lemma abr_normal_upd_slot:
  assumes "abr_normal d"
    and "\<And>x. the_slot d i = Some x \<Longrightarrow> slot_normal x \<Longrightarrow> slot_normal (f x)"
  shows "abr_normal (upd_slot i f d)"
  using assms by (cases i) (auto simp: abr_normal_def abr_wf_def)

lemma the_slot_upd [simp]:
  "the_slot (upd_slot (opposite i) f d) i = the_slot d i"
  "the_slot (upd_slot i f d) (opposite i) = the_slot d (opposite i)"
  "the_slot (upd_slot i f d) i = map_option f (the_slot d i)"
  by (cases i; simp)+

lemma active_the_slot: "the_slot d (active d) = Some x \<Longrightarrow> is_slot_bootable x"
  using active_bootable [of d] by (cases "active d") auto

lemma spec_attempt_normal:
  assumes "abr_normal d"
  shows "abr_normal (spec_attempt d)"
proof -
  let ?f = "\<lambda>x. if successful_boot x = 1 then x
    else x\<lparr> tries_remaining := tries_remaining x - 1 \<rparr>"
  have "abr_normal (upd_slot (active d) ?f d)"
    using assms
  proof (rule abr_normal_upd_slot)
    fix x assume "the_slot d (active d) = Some x" "slot_normal x"
    then show "slot_normal (?f x)"
      using bootable_tries [OF active_the_slot] by (simp add: slot_normal_updates)
  qed
  moreover have "slot_normal x \<Longrightarrow> slot_normal (if successful_boot x = 1 then retry x else x)" for x
    using slot_normal_updates(3) normal_success_bootable by simp
  ultimately show ?thesis
    using assms unfolding spec_attempt_def by (auto intro: abr_normal_upd_slot)
qed

lemma spec_ops_normal:
  assumes "abr_normal d"
  shows "abr_normal (spec_activate i d)"
    and "abr_normal (upd_slot i set_slot_unbootable d)"
    and "the_slot d i = Some x \<Longrightarrow> is_slot_bootable x \<Longrightarrow> abr_normal (spec_succeed i d)"
    and "abr_normal (d\<lparr> one_shot_flags := w \<rparr>)"
    and "abr_normal (data_set_one_shot_recovery b d)"
    and "abr_normal (data_set_one_shot_bootloader b d)"
proof -
  show "abr_normal (spec_activate i d)"
    unfolding spec_activate_def
    by (intro abr_normal_upd_slot assms slot_normal_updates(1,2))
  show "abr_normal (upd_slot i set_slot_unbootable d)"
    by (intro abr_normal_upd_slot assms slot_normal_updates(5))
  show flags: "abr_normal (d\<lparr> one_shot_flags := w \<rparr>)" for w
    using assms by (simp add: abr_normal_def abr_wf_def)
  show "abr_normal (data_set_one_shot_recovery b d)" "abr_normal (data_set_one_shot_bootloader b d)"
    by (simp_all add: data_set_one_shot_recovery_def data_set_one_shot_bootloader_def flags)
  assume "the_slot d i = Some x" "is_slot_bootable x"
  then show "abr_normal (spec_succeed i d)"
    unfolding spec_succeed_def
    by (intro abr_normal_upd_slot assms) (simp_all add: slot_normal_updates(3,4))
qed

text \<open>The public operations as load, specified update, save.\<close>

lemma operations_eq:
  "i \<noteq> SlotR \<Longrightarrow> mark_slot_active ops i = st_then (load_metadata ops) (\<lambda>(d, orig).
     save_metadata_if_changed ops (spec_activate i d) orig)"
  "i \<noteq> SlotR \<Longrightarrow> mark_slot_unbootable ops i = st_then (load_metadata ops) (\<lambda>(d, orig).
     save_metadata_if_changed ops (upd_slot i set_slot_unbootable d) orig)"
  "mark_slot_successful ops i = (if i = SlotR then st_lift (Err InvalidInput)
     else st_then (load_metadata ops) (\<lambda>(d, orig).
       if is_slot_bootable (the (the_slot d i)) then save_metadata_if_changed ops (spec_succeed i d) orig
       else st_lift (Err InvalidInput)))"
proof -
  show "i \<noteq> SlotR \<Longrightarrow> mark_slot_active ops i = st_then (load_metadata ops) (\<lambda>(d, orig).
     save_metadata_if_changed ops (spec_activate i d) orig)"
    by (cases i) (auto simp: mark_slot_active_def spec_activate_def st_then_def fun_eq_iff
        split: result.split prod.split)
  show "i \<noteq> SlotR \<Longrightarrow> mark_slot_unbootable ops i = st_then (load_metadata ops) (\<lambda>(d, orig).
     save_metadata_if_changed ops (upd_slot i set_slot_unbootable d) orig)"
    by (cases i) (auto simp: mark_slot_unbootable_def st_then_def fun_eq_iff
        split: result.split prod.split)
  show "mark_slot_successful ops i = (if i = SlotR then st_lift (Err InvalidInput)
     else st_then (load_metadata ops) (\<lambda>(d, orig).
       if is_slot_bootable (the (the_slot d i)) then save_metadata_if_changed ops (spec_succeed i d) orig
       else st_lift (Err InvalidInput)))"
    by (cases i) (auto simp: mark_slot_successful_def spec_succeed_def retry_def st_then_def fun_eq_iff
          apfst_def apsnd_def map_prod_def case_prod_unfold
        split: result.split prod.split)
qed

section \<open>Sequences of boots\<close>

text \<open>Boots the device \<open>n\<close> times without ever marking a slot successful.\<close>

fun boot_run :: "'s abr_ops \<Rightarrow> nat \<Rightarrow> 's \<Rightarrow> (slot_index \<times> bool) res list \<times> 's" where
  "boot_run ops 0 s = ([], s)"
| "boot_run ops (Suc n) s = (let (r, s1) = get_boot_slot ops True s; (rs, s2) = boot_run ops n s1
     in (r # rs, s2))"

definition no_success :: "abr_data \<Rightarrow> bool" where
  "no_success d \<longleftrightarrow> successful_boot (fst (slots d)) \<noteq> 1 \<and> successful_boot (snd (slots d)) \<noteq> 1"

definition attempts :: "abr_data \<Rightarrow> nat" where
  "attempts d = unat (tries_remaining (fst (slots d))) + unat (tries_remaining (snd (slots d)))"

lemma unat_byte_pos: "b \<noteq> 0 \<Longrightarrow> 0 < unat (b :: byte)"
  by (simp add: unat_gt_0)

lemma slot_normal_tries:
  assumes "slot_normal x" "successful_boot x \<noteq> 1"
  shows "is_slot_bootable x \<longleftrightarrow> tries_remaining x \<noteq> 0" "unat (tries_remaining x) \<le> 7"
  using assms
  by (auto simp: slot_normal_def is_slot_bootable_def byte_pos_iff abr_const_defs word_le_nat_alt)

lemma attempts_active:
  assumes "abr_normal d" "no_success d"
  shows "active d = SlotR \<longleftrightarrow> attempts d = 0" "attempts d \<le> 14"
  using assms active_bootable(3) [of d] slot_normal_tries [of "fst (slots d)"]
    slot_normal_tries [of "snd (slots d)"]
  by (auto simp: attempts_def abr_normal_def no_success_def unat_eq_zero)

lemma spec_attempt_attempts:
  assumes "abr_normal d" "no_success d"
  shows "attempts (spec_attempt d) = attempts d - 1" "no_success (spec_attempt d)"
    "one_shot_flags (spec_attempt d) = one_shot_flags d"
proof -
  consider "active d = SlotA" "tries_remaining (fst (slots d)) \<noteq> 0"
    | "active d = SlotB" "tries_remaining (snd (slots d)) \<noteq> 0"
    | "active d = SlotR" "attempts d = 0"
    using assms attempts_active(1) active_bootable(1,2) [of d] bootable_tries
    by (cases "active d") (auto simp: no_success_def)
  note cases = this
  show "attempts (spec_attempt d) = attempts d - 1"
    using assms
    by (cases rule: cases)
      (auto simp: spec_attempt_def attempts_def no_success_def unat_minus_one dest: unat_byte_pos)
  show "no_success (spec_attempt d)" "one_shot_flags (spec_attempt d) = one_shot_flags d"
    using assms
    by (cases rule: cases; auto simp: spec_attempt_def no_success_def)+
qed

lemma replicate_bool_Cons:
  "(a = 0) # replicate (min n (a - 1)) False @ replicate (n - (a - 1)) True
     = replicate (min (Suc n) a) False @ replicate (Suc n - a) True"
  by (cases a) (auto simp: replicate_append_same)

end
