(* ===== verification/Abr_Storage.thy ===== *)
theory Abr_Storage
  imports Abr_Spec
begin

unbundle bit_operations_syntax

text \<open>
  The contract of an A/B/R storage backend, the proof that the operations of \<open>libabr\<close> implement
  their specification on any such backend, and the properties of the library on the backend it
  provides.
\<close>

section \<open>Backend contract\<close>

locale abr_storage =
  fixes ops :: "'s abr_ops" and content :: "'s \<Rightarrow> byte list" and invar :: "'s \<Rightarrow> bool"
  assumes content_length: "invar s \<Longrightarrow> length (content s) = ABR_DATA_SIZE"
    and read_law: "invar s \<Longrightarrow> read_abr_metadata ops ABR_DATA_SIZE s = (Ok (content s), s)"
    and write_law: "invar s \<Longrightarrow> length bytes = ABR_DATA_SIZE \<Longrightarrow>
      \<exists>s'. write_abr_metadata ops bytes s = (Ok (), s') \<and> invar s' \<and> content s' = bytes"
begin

lemma load_unsupported:
  assumes "invar s" "abr_meta (content s) = None"
  shows "load_metadata ops s = (Err UnsupportedVersion, s)"
proof -
  have "abr_check (content s) = Err UnsupportedVersion"
    using assms(2) abr_check_errors(1)
    by (cases "abr_check (content s)") (simp_all add: abr_meta_def split: if_splits)
  then show ?thesis
    using assms(1) by (simp add: load_metadata_def abr_deserialize_def read_law)
qed

text \<open>What \<open>load_metadata\<close> hands on: the data, and the stored data it is compared with on saving.\<close>

lemma load_ok:
  assumes "invar s" "abr_meta (content s) = Some m"
  obtains c orig where "load_metadata ops s = (Ok (m\<lparr> crc := c \<rparr>, orig), s)"
    and "orig = abr_null \<or> abr_check (content s) = Ok orig"
proof (cases "abr_check (content s)")
  case (Ok v)
  then have "load_metadata ops s = (Ok (m\<lparr> crc := crc v \<rparr>, v), s)"
    using assms
    by (auto simp: load_metadata_def abr_deserialize_def read_law abr_meta_def normalize_both_eq
        abr_norm_def)
  then show thesis using Ok that by blast
next
  case (Err e)
  then have "load_metadata ops s = (Ok (m\<lparr> crc := 0 \<rparr>, abr_null), s)"
    using assms abr_check_errors(2) [OF Err] abr_norm_id [OF abr_default_normal]
    by (auto simp: load_metadata_def abr_deserialize_def read_law abr_meta_def normalize_both_eq
        abr_norm_def abr_default_def split: if_splits)
  then show thesis using that by blast
next
  case Panic
  then show thesis by (simp add: abr_check_errors)
qed

lemma save_metadata_ok:
  assumes "invar s" "abr_normal d"
  obtains d' s' where "save_metadata ops d s = (Ok (), d', s')" "invar s'"
    "abr_meta (content s') = Some (d\<lparr> crc := 0 \<rparr>)"
proof -
  have "length (fst (abr_serialize d)) = ABR_DATA_SIZE"
    using assms(2) by (simp add: abr_serialize_check ABR_DATA_SIZE_def abr_normal_def)
  then obtain s' where "write_abr_metadata ops (fst (abr_serialize d)) s = (Ok (), s')" "invar s'"
      "content s' = fst (abr_serialize d)"
    using write_law [OF assms(1)] by blast
  then show thesis
    using that [of "snd (abr_serialize d)" s'] assms(2)
    by (simp add: save_metadata_def abr_meta_serialize case_prod_unfold)
qed

lemma save_if_changed_ok:
  assumes "invar s" "abr_normal d" "orig = abr_null \<or> abr_check (content s) = Ok orig"
  obtains s' where "save_metadata_if_changed ops d orig s = (Ok (), s')" "invar s'"
    "abr_meta (content s') = Some (d\<lparr> crc := 0 \<rparr>)"
proof (cases "d = orig")
  case True
  then have "abr_check (content s) = Ok d"
    using assms abr_wf_not_null [of d] by (auto simp: abr_normal_def)
  then show thesis
    using that [of s] True assms abr_norm_id [OF assms(2)]
    by (simp add: save_metadata_if_changed_def abr_meta_def)
next
  case False
  then show thesis
    using that save_metadata_ok [OF assms(1,2)]
    by (metis (no_types, lifting) save_metadata_if_changed_def case_prod_conv)
qed

text \<open>Every operation that loads, updates and saves implements its update of the metadata.\<close>

lemma update_refines:
  assumes "invar s" "abr_meta (content s) = Some m" "abr_normal (f m)"
    and crc: "\<And>c. f (m\<lparr> crc := c \<rparr>) = (f m)\<lparr> crc := c \<rparr>" "crc (f m) = 0"
  obtains c orig s' where "load_metadata ops s = (Ok (m\<lparr> crc := c \<rparr>, orig), s)"
    "save_metadata_if_changed ops (f (m\<lparr> crc := c \<rparr>)) orig s = (Ok (), s')"
    "invar s'" "abr_meta (content s') = Some (f m)"
proof -
  obtain c orig where l: "load_metadata ops s = (Ok (m\<lparr> crc := c \<rparr>, orig), s)"
      "orig = abr_null \<or> abr_check (content s) = Ok orig"
    using load_ok assms(1,2) by metis
  have "abr_normal ((f m)\<lparr> crc := c \<rparr>)"
    using assms(3) by (simp add: abr_normal_def abr_wf_def)
  then obtain s' where "save_metadata_if_changed ops ((f m)\<lparr> crc := c \<rparr>) orig s = (Ok (), s')"
      "invar s'" "abr_meta (content s') = Some ((f m)\<lparr> crc := c, crc := 0 \<rparr>)"
    using save_if_changed_ok [OF assms(1) _ l(2)] by metis
  moreover have "(f m)\<lparr> crc := c, crc := 0 \<rparr> = f m"
    using crc(2) by simp
  ultimately show thesis using that l(1) crc(1) by metis
qed

text \<open>The operations that change the metadata.\<close>

lemma mark_slot_active_refines:
  assumes "invar s" "abr_meta (content s) = Some m" "i \<noteq> SlotR"
  shows "\<exists>s'. mark_slot_active ops i s = (Ok (), s') \<and> invar s'
    \<and> abr_meta (content s') = Some (spec_activate i m)"
proof -
  note m = abr_meta_normal [OF assms(2) content_length [OF assms(1), unfolded ABR_DATA_SIZE_def]]
  obtain c orig s' where "load_metadata ops s = (Ok (m\<lparr> crc := c \<rparr>, orig), s)"
      "save_metadata_if_changed ops (spec_activate i (m\<lparr> crc := c \<rparr>)) orig s = (Ok (), s')"
      "invar s'" "abr_meta (content s') = Some (spec_activate i m)"
    by (rule update_refines [OF assms(1,2), of "spec_activate i"]) (simp_all add: m spec_ops_normal)
  then show ?thesis
    using assms(3) by (simp add: operations_eq)
qed

lemma mark_slot_unbootable_refines:
  assumes "invar s" "abr_meta (content s) = Some m" "i \<noteq> SlotR"
  shows "\<exists>s'. mark_slot_unbootable ops i s = (Ok (), s') \<and> invar s'
    \<and> abr_meta (content s') = Some (upd_slot i set_slot_unbootable m)"
proof -
  note m = abr_meta_normal [OF assms(2) content_length [OF assms(1), unfolded ABR_DATA_SIZE_def]]
  obtain c orig s' where "load_metadata ops s = (Ok (m\<lparr> crc := c \<rparr>, orig), s)"
      "save_metadata_if_changed ops (upd_slot i set_slot_unbootable (m\<lparr> crc := c \<rparr>)) orig s = (Ok (), s')"
      "invar s'" "abr_meta (content s') = Some (upd_slot i set_slot_unbootable m)"
    by (rule update_refines [OF assms(1,2), of "upd_slot i set_slot_unbootable"]) (simp_all add: m spec_ops_normal)
  then show ?thesis
    using assms(3) by (simp add: operations_eq)
qed

lemma set_one_shot_recovery_refines:
  assumes "invar s" "abr_meta (content s) = Some m"
  shows "\<exists>s'. set_one_shot_recovery ops b s = (Ok (), s') \<and> invar s'
    \<and> abr_meta (content s') = Some (data_set_one_shot_recovery b m)"
proof -
  note m = abr_meta_normal [OF assms(2) content_length [OF assms(1), unfolded ABR_DATA_SIZE_def]]
  obtain c orig s' where "load_metadata ops s = (Ok (m\<lparr> crc := c \<rparr>, orig), s)"
      "save_metadata_if_changed ops (data_set_one_shot_recovery b (m\<lparr> crc := c \<rparr>)) orig s = (Ok (), s')"
      "invar s'" "abr_meta (content s') = Some (data_set_one_shot_recovery b m)"
    by (rule update_refines [OF assms(1,2), of "data_set_one_shot_recovery b"]) (simp_all add: m spec_ops_normal)
  then show ?thesis
    by (simp add: set_one_shot_recovery_def)
qed

lemma set_one_shot_bootloader_refines:
  assumes "invar s" "abr_meta (content s) = Some m"
  shows "\<exists>s'. set_one_shot_bootloader ops b s = (Ok (), s') \<and> invar s'
    \<and> abr_meta (content s') = Some (data_set_one_shot_bootloader b m)"
proof -
  note m = abr_meta_normal [OF assms(2) content_length [OF assms(1), unfolded ABR_DATA_SIZE_def]]
  obtain c orig s' where "load_metadata ops s = (Ok (m\<lparr> crc := c \<rparr>, orig), s)"
      "save_metadata_if_changed ops (data_set_one_shot_bootloader b (m\<lparr> crc := c \<rparr>)) orig s = (Ok (), s')"
      "invar s'" "abr_meta (content s') = Some (data_set_one_shot_bootloader b m)"
    by (rule update_refines [OF assms(1,2), of "data_set_one_shot_bootloader b"]) (simp_all add: m spec_ops_normal)
  then show ?thesis
    by (simp add: set_one_shot_bootloader_def)
qed

lemma get_and_clear_flag_refines:
  assumes "invar s" "abr_meta (content s) = Some m"
  shows "\<exists>s'. get_and_clear_one_shot_flag ops s = (Ok (one_shot_flags m), s') \<and> invar s'
    \<and> abr_meta (content s') = Some (m\<lparr> one_shot_flags := 0 \<rparr>)"
proof -
  note m = abr_meta_normal [OF assms(2) content_length [OF assms(1), unfolded ABR_DATA_SIZE_def]]
  obtain c orig s' where "load_metadata ops s = (Ok (m\<lparr> crc := c \<rparr>, orig), s)"
      "save_metadata_if_changed ops (m\<lparr> crc := c, one_shot_flags := 0 \<rparr>) orig s = (Ok (), s')"
      "invar s'" "abr_meta (content s') = Some (m\<lparr> one_shot_flags := 0 \<rparr>)"
    by (rule update_refines [OF assms(1,2), of "\<lambda>d. d\<lparr> one_shot_flags := 0 \<rparr>"]) (simp_all add: m spec_ops_normal)
  then show ?thesis
    by (simp add: get_and_clear_one_shot_flag_def)
qed

lemma mark_slot_successful_refines:
  assumes "invar s" "abr_meta (content s) = Some m" "the_slot m i = Some x"
  shows "if is_slot_bootable x
    then \<exists>s'. mark_slot_successful ops i s = (Ok (), s') \<and> invar s'
           \<and> abr_meta (content s') = Some (spec_succeed i m)
    else mark_slot_successful ops i s = (Err InvalidInput, s)"
proof (cases "is_slot_bootable x")
  case True
  note m = abr_meta_normal [OF assms(2) content_length [OF assms(1), unfolded ABR_DATA_SIZE_def]]
  have i: "i \<noteq> SlotR" using assms(3) by auto
  obtain c orig s' where "load_metadata ops s = (Ok (m\<lparr> crc := c \<rparr>, orig), s)"
      "save_metadata_if_changed ops (spec_succeed i (m\<lparr> crc := c \<rparr>)) orig s = (Ok (), s')"
      "invar s'" "abr_meta (content s') = Some (spec_succeed i m)"
    by (rule update_refines [OF assms(1,2), of "spec_succeed i"]) (simp_all add: m spec_ops_normal(3) [OF m(1) assms(3) True])
  moreover have "is_slot_bootable (the (the_slot (m\<lparr> crc := c \<rparr>) i))" for c
    using assms(3) True by (cases i) simp_all
  ultimately show ?thesis
    using i True by (simp add: operations_eq(3))
next
  case False
  obtain c orig where "load_metadata ops s = (Ok (m\<lparr> crc := c \<rparr>, orig), s)"
    using load_ok assms(1,2) by metis
  then show ?thesis
    using assms(3) False by (cases i) (simp_all add: operations_eq(3))
qed

lemma get_and_clear_bootloader_refines:
  assumes "invar s" "abr_meta (content s) = Some m"
  shows "\<exists>s'. get_and_clear_one_shot_bootloader ops s
      = (Ok (one_shot_flags m AND ONE_SHOT_BOOTLOADER \<noteq> 0), s')
    \<and> invar s' \<and> abr_meta (content s') = Some (data_set_one_shot_bootloader False m)"
proof -
  note m = abr_meta_normal [OF assms(2) content_length [OF assms(1), unfolded ABR_DATA_SIZE_def]]
  obtain c orig s' where "load_metadata ops s = (Ok (m\<lparr> crc := c \<rparr>, orig), s)"
      "save_metadata_if_changed ops (data_set_one_shot_bootloader False (m\<lparr> crc := c \<rparr>)) orig s = (Ok (), s')"
      "invar s'" "abr_meta (content s') = Some (data_set_one_shot_bootloader False m)"
    by (rule update_refines [OF assms(1,2), of "data_set_one_shot_bootloader False"])
      (simp_all add: m spec_ops_normal)
  then show ?thesis
    unfolding get_and_clear_one_shot_bootloader_def data_set_one_shot_bootloader_def by simp
qed

lemma get_boot_slot_refines:
  assumes "invar s" "abr_meta (content s) = Some m" "spec_boot m = (i, b, m')"
  shows "\<exists>s'. get_boot_slot ops True s = (Ok (i, b), s') \<and> invar s' \<and> abr_meta (content s') = Some m'"
proof (cases "is_one_shot_recovery m")
  case True
  note m = abr_meta_normal [OF assms(2) content_length [OF assms(1), unfolded ABR_DATA_SIZE_def]]
  obtain c orig where l: "load_metadata ops s = (Ok (m\<lparr> crc := c \<rparr>, orig), s)"
    using load_ok assms(1,2) by metis
  let ?d = "data_set_one_shot_recovery False m"
  have "abr_normal (?d\<lparr> crc := c \<rparr>)"
    using spec_ops_normal(5) [OF m(1)] by (simp add: abr_normal_def abr_wf_def)
  then obtain d' s' where "save_metadata ops (?d\<lparr> crc := c \<rparr>) s = (Ok (), d', s')" "invar s'"
      "abr_meta (content s') = Some (?d\<lparr> crc := c, crc := 0 \<rparr>)"
    using save_metadata_ok [OF assms(1)] by metis
  moreover have "?d\<lparr> crc := c, crc := 0 \<rparr> = ?d"
    using m(2) by (simp add: data_set_one_shot_recovery_def)
  ultimately have "get_boot_slot ops True s = (Ok (SlotR, False), s') \<and> invar s'
      \<and> abr_meta (content s') = Some ?d"
    using True l by (simp add: get_boot_slot_def is_one_shot_recovery_def)
  then show ?thesis
    using True assms(3) by (auto simp: spec_boot_def)
next
  case False
  note m = abr_meta_normal [OF assms(2) content_length [OF assms(1), unfolded ABR_DATA_SIZE_def]]
  obtain c orig s' where s': "load_metadata ops s = (Ok (m\<lparr> crc := c \<rparr>, orig), s)"
      "save_metadata_if_changed ops (spec_attempt (m\<lparr> crc := c \<rparr>)) orig s = (Ok (), s')"
      "invar s'" "abr_meta (content s') = Some (spec_attempt m)"
    by (rule update_refines [OF assms(1,2), of "spec_attempt"])
      (simp_all add: m spec_attempt_normal)
  have mk: "marked_ok (m\<lparr> crc := c \<rparr>) j = marked_ok m j" for j
    by (cases j) (simp_all add: marked_ok_def)
  have "abr_normal (m\<lparr> crc := c \<rparr>)"
    using m(1) by (simp add: abr_normal_def abr_wf_def)
  from boot_update_eq [OF this]
  have upd: "boot_update (active m) (marked_ok m (active m)) (m\<lparr> crc := c \<rparr>)
      = Ok (spec_attempt (m\<lparr> crc := c \<rparr>))"
    by (simp only: mk spec_crc)
  have "st_lift (if active m = SlotR then Ok False
      else map_ok (\<lambda>sd. successful_boot sd = 1) (slot_data (m\<lparr> crc := c \<rparr>) (active m))) s
      = (Ok (marked_ok m (active m)), s)"
    by (cases "active m") (simp_all add: marked_ok_def)
  then have "boot_active_slot ops True (m\<lparr> crc := c \<rparr>) orig s = (Ok (active m, marked_ok m (active m)), s')"
    using s'(2) upd by (simp add: boot_active_slot_def get_active_slot_eq)
  then have "get_boot_slot ops True s = (Ok (active m, marked_ok m (active m)), s')"
    using False s'(1) by (simp add: get_boot_slot_def is_one_shot_recovery_def)
  then show ?thesis
    using False s'(3,4) assms(3) by (auto simp: spec_boot_def)
qed

text \<open>Metadata of a newer version is never written, and only recovery is booted.\<close>

lemma unsupported_untouched:
  assumes "invar s" "abr_meta (content s) = None"
  shows "get_boot_slot ops b s = (Ok (SlotR, False), s)"
    "i \<noteq> SlotR \<Longrightarrow> mark_slot_active ops i s = (Err UnsupportedVersion, s)"
    "i \<noteq> SlotR \<Longrightarrow> mark_slot_unbootable ops i s = (Err UnsupportedVersion, s)"
    "i \<noteq> SlotR \<Longrightarrow> mark_slot_successful ops i s = (Err UnsupportedVersion, s)"
    "set_one_shot_recovery ops b s = (Err UnsupportedVersion, s)"
    "set_one_shot_bootloader ops b s = (Err UnsupportedVersion, s)"
    "get_and_clear_one_shot_flag ops s = (Err UnsupportedVersion, s)"
  using load_unsupported [OF assms]
  by (simp_all add: get_boot_slot_def operations_eq set_one_shot_recovery_def
      set_one_shot_bootloader_def get_and_clear_one_shot_flag_def)

lemma boot_run_exhausts:
  assumes "invar s" "abr_meta (content s) = Some m" "no_success m" "\<not> is_one_shot_recovery m"
  shows "map (\<lambda>r. r = Ok (SlotR, False)) (fst (boot_run ops n s))
    = replicate (min n (attempts m)) False @ replicate (n - attempts m) True"
  using assms
proof (induction n arbitrary: s m)
  case 0
  then show ?case by simp
next
  case (Suc n)
  note m = abr_meta_normal [OF Suc.prems(2) content_length [OF Suc.prems(1), unfolded ABR_DATA_SIZE_def]]
  have "spec_boot m = (active m, marked_ok m (active m), spec_attempt m)"
    using Suc.prems(4) by (simp add: spec_boot_def)
  then obtain s' where s': "get_boot_slot ops True s = (Ok (active m, marked_ok m (active m)), s')"
      "invar s'" "abr_meta (content s') = Some (spec_attempt m)"
    using get_boot_slot_refines Suc.prems(1,2) by blast
  note att = spec_attempt_attempts [OF m(1) Suc.prems(3)]
  have "marked_ok m (active m) = False"
    using Suc.prems(3) by (cases "active m") (auto simp: marked_ok_def no_success_def)
  then have "map (\<lambda>r. r = Ok (SlotR, False)) (fst (boot_run ops (Suc n) s))
    = (attempts m = 0) # replicate (min n (attempts m - 1)) False @ replicate (n - (attempts m - 1)) True"
    using s' Suc.IH [OF s'(2,3) att(2)] Suc.prems(4) att(1,3) attempts_active(1) [OF m(1) Suc.prems(3)]
    by (simp add: case_prod_unfold is_one_shot_recovery_def Let_def)
  then show ?case by (simp only: replicate_bool_Cons)
qed

end

section \<open>The in-memory backend\<close>

interpretation array_abr: abr_storage array_abr_ops "\<lambda>s. s" "\<lambda>s. length s = ABR_DATA_SIZE"
  by unfold_locales
    (auto simp: array_abr_ops_def array_read_abr_metadata_def array_write_abr_metadata_def slice_get_def
      overwrite_def)

lemmas array_length = ABR_DATA_SIZE_def


text \<open>A concrete store for the witnesses: the default metadata written out.\<close>

definition fresh_store :: "byte list" where
  "fresh_store = fst (abr_serialize abr_default)"

lemma fresh_store_props:
  "length fresh_store = ABR_DATA_SIZE" "abr_meta fresh_store = Some abr_default"
  using abr_default_normal abr_serialize_check(2) [of abr_default] abr_meta_serialize [of abr_default]
  by (simp_all add: fresh_store_def abr_normal_def ABR_DATA_SIZE_def abr_default_def)

section \<open>Properties of the library\<close>

text \<open>
  C29. Round trip of the metadata: what \<open>serialize\<close> writes for well-formed metadata is exactly 32 bytes
  and is accepted by \<open>deserialize\<close>, which returns the metadata with the checksum that was written.
\<close>

theorem abr_metadata_roundtrip:
  assumes "abr_wf d"
  shows "length (fst (abr_serialize d)) = ABR_DATA_SIZE
    \<and> abr_check (fst (abr_serialize d)) = Ok (snd (abr_serialize d))
    \<and> abr_deserialize array_abr_ops (fst (abr_serialize d))
        = (Ok (snd (abr_serialize d)), fst (abr_serialize d))"
proof -
  have c: "abr_check (fst (abr_serialize d)) = Ok (snd (abr_serialize d))"
    using assms by (simp only: abr_serialize_check(1)) (simp add: abr_serialize_def abr_body_def)
  have l: "length (fst (abr_serialize d)) = ABR_DATA_SIZE"
    using assms by (simp add: abr_serialize_check ABR_DATA_SIZE_def)
  show ?thesis
    using c l array_abr.read_law [OF l] by (simp add: abr_deserialize_def)
qed

theorem abr_metadata_roundtrip_witness:
  "abr_wf abr_default
    \<and> abr_check (fst (abr_serialize abr_default)) = Ok (snd (abr_serialize abr_default))"
proof -
  have "abr_wf abr_default" using abr_default_normal by (simp add: abr_normal_def)
  then show ?thesis using abr_metadata_roundtrip [of abr_default] by simp
qed

text \<open>
  Normalisation brings slot data into the range the rest of the library relies on (priority at most
  15, at most 7 attempts, attempts and success never both set, nothing set at priority 0), is
  idempotent, and neither makes a bootable slot unbootable nor the other way round.
\<close>

theorem slot_normalize_canonical:
  "slot_normal (slot_normalize d) \<and> slot_normalize (slot_normalize d) = slot_normalize d
     \<and> (is_slot_bootable (slot_normalize d) \<longleftrightarrow> is_slot_bootable d)"
  by (simp add: slot_normalize_is_normal slot_normalize_id slot_normalize_bootable)

text \<open>
  C1. Refinement of the boot decision: on any stored bytes whose version is supported (including blank
  or corrupt ones, which count as the defaults) \<open>get_boot_slot\<close> returns the slot and success flag of
  the specification and leaves exactly the specified metadata in storage.
\<close>

theorem get_boot_slot_implements_spec:
  assumes "length s = ABR_DATA_SIZE" "abr_meta s = Some m" "spec_boot m = (i, b, m')"
  shows "\<exists>s'. get_boot_slot array_abr_ops True s = (Ok (i, b), s') \<and> length s' = ABR_DATA_SIZE
    \<and> abr_meta s' = Some m'"
  using array_abr.get_boot_slot_refines [OF assms] by blast

theorem get_boot_slot_implements_spec_witness:
  "\<exists>s'. get_boot_slot array_abr_ops True fresh_store = (Ok (SlotA, False), s')
    \<and> abr_meta s' = Some (spec_attempt abr_default)"
proof -
  have "spec_boot abr_default = (SlotA, False, spec_attempt abr_default)"
    by (simp add: spec_boot_def is_one_shot_recovery_def active_def marked_ok_def abr_default_def
        get_normalized_priority_def is_slot_bootable_def abr_const_defs Let_def)
  then show ?thesis
    using get_boot_slot_implements_spec [OF fresh_store_props] by blast
qed

















text \<open>
  C30. A one-shot boot to recovery happens once: after \<open>set_one_shot_recovery(true)\<close> the next boot is
  recovery, spends no attempt of A or B, and the boot after it is the one that was due before.
\<close>

theorem one_shot_recovery_is_one_shot:
  assumes "length s = ABR_DATA_SIZE" "abr_meta s = Some m" "\<not> is_one_shot_recovery m"
  shows "\<exists>s1 s2 s3. set_one_shot_recovery array_abr_ops True s = (Ok (), s1)
    \<and> get_boot_slot array_abr_ops True s1 = (Ok (SlotR, False), s2)
    \<and> get_boot_slot array_abr_ops True s2 = (Ok (active m, marked_ok m (active m)), s3)
    \<and> abr_meta s2 = abr_meta s \<and> abr_meta s3 = Some (spec_attempt m)"
proof -
  let ?m1 = "data_set_one_shot_recovery True m"
  obtain s1 where s1: "set_one_shot_recovery array_abr_ops True s = (Ok (), s1)"
      "length s1 = ABR_DATA_SIZE" "abr_meta s1 = Some ?m1"
    using array_abr.set_one_shot_recovery_refines [OF assms(1,2)] by blast
  have bits: "(f OR ONE_SHOT_RECOVERY) AND ONE_SHOT_RECOVERY \<noteq> 0"
    "f AND ONE_SHOT_RECOVERY = 0 \<Longrightarrow> (f OR ONE_SHOT_RECOVERY) AND NOT ONE_SHOT_RECOVERY = f" for f
  proof -
    have "bit ((f OR ONE_SHOT_RECOVERY) AND ONE_SHOT_RECOVERY) 0"
      by (simp add: ONE_SHOT_RECOVERY_def bit_simps)
    then show "(f OR ONE_SHOT_RECOVERY) AND ONE_SHOT_RECOVERY \<noteq> 0" by auto
    show "f AND ONE_SHOT_RECOVERY = 0 \<Longrightarrow> (f OR ONE_SHOT_RECOVERY) AND NOT ONE_SHOT_RECOVERY = f"
      by (auto simp: bit_eq_iff bit_simps)
  qed
  have "spec_boot ?m1 = (SlotR, False, m)"
    using assms(3) bits
    by (simp add: spec_boot_def is_one_shot_recovery_def data_set_one_shot_recovery_def)
  then obtain s2 where s2: "get_boot_slot array_abr_ops True s1 = (Ok (SlotR, False), s2)"
      "length s2 = ABR_DATA_SIZE" "abr_meta s2 = Some m"
    using array_abr.get_boot_slot_refines [OF s1(2,3)] by blast
  have "spec_boot m = (active m, marked_ok m (active m), spec_attempt m)"
    using assms(3) by (simp add: spec_boot_def)
  then obtain s3 where "get_boot_slot array_abr_ops True s2 = (Ok (active m, marked_ok m (active m)), s3)"
      "abr_meta s3 = Some (spec_attempt m)"
    using array_abr.get_boot_slot_refines [OF s2(2,3)] by blast
  then show ?thesis using s1(1) s2(1,3) assms(2) by auto
qed

theorem one_shot_recovery_is_one_shot_witness:
  "\<exists>s1 s2. set_one_shot_recovery array_abr_ops True fresh_store = (Ok (), s1)
    \<and> get_boot_slot array_abr_ops True s1 = (Ok (SlotR, False), s2)"
  using one_shot_recovery_is_one_shot [OF fresh_store_props]
  by (auto simp: is_one_shot_recovery_def abr_default_def)

end
