(* ===== verification/Utils.thy ===== *)
theory Utils
  imports Safe_Math
begin

unbundle bit_operations_syntax

text \<open>
  \<open>libutils\<close>: finding an aligned part of a buffer, and the fixed-size formatted byte buffer. A slice
  is given by its address and length where only those matter; a sub-slice that extends to the end is
  given by its start offset.
\<close>

section \<open>Alignment\<close>

text \<open>The start offset of the largest aligned sub-slice of the \<open>len\<close> bytes at \<open>addr\<close>.\<close>

definition aligned_subslice :: "nat \<Rightarrow> nat \<Rightarrow> nat \<Rightarrow> nat res" where
  "aligned_subslice addr len alignment =
     and_then (sn_try (sn_sub (sn_round_up (sn addr) (sn alignment)) (sn addr))) (\<lambda>aligned_offset.
       if aligned_offset \<le> len then Ok aligned_offset
       else Err (BufferTooSmall (Some aligned_offset)))"

definition aligned_offset :: "nat \<Rightarrow> nat \<Rightarrow> nat res" where
  "aligned_offset addr alignment =
     sn_try (sn_sub (sn_round_up (sn addr) (sn alignment)) (sn addr))"

section \<open>Formatted bytes\<close>

record formatted_bytes =
  fmt_buf :: "byte list"
  fmt_size :: nat

definition formatted_new :: "byte list \<Rightarrow> formatted_bytes" where
  "formatted_new buf = \<lparr> fmt_buf = buf, fmt_size = 0 \<rparr>"

text \<open>Appends what fits; aborts only if the size were beyond the buffer. Returns the contents.\<close>

definition formatted_append :: "byte list \<Rightarrow> (formatted_bytes, byte list) io" where
  "formatted_append bytes self =
     (case slice_get (fmt_size self) (length (fmt_buf self)) (fmt_buf self) of
        None \<Rightarrow> (Panic, self)
      | Some buf \<Rightarrow>
          let to_write = min (length buf) (length bytes);
              self' = \<lparr> fmt_buf = overwrite (fmt_size self) (take to_write bytes) (fmt_buf self),
                        fmt_size = fmt_size self + to_write \<rparr>
          in (slice_index 0 (fmt_size self') (fmt_buf self'), self'))"

text \<open>Well-formed UTF-8 as \<open>core::str::from_utf8\<close> checks it (no surrogates, no overlong forms).\<close>

definition utf8_cont :: "byte \<Rightarrow> bool" where
  "utf8_cont b \<longleftrightarrow> 0x80 \<le> b \<and> b \<le> 0xBF"

fun utf8_valid :: "byte list \<Rightarrow> bool" where
  "utf8_valid [] \<longleftrightarrow> True"
| "utf8_valid (b0 # rest) \<longleftrightarrow>
     (if b0 < 0x80 then utf8_valid rest
      else if 0xC2 \<le> b0 \<and> b0 \<le> 0xDF then
        (case rest of b1 # r \<Rightarrow> utf8_cont b1 \<and> utf8_valid r | [] \<Rightarrow> False)
      else if 0xE0 \<le> b0 \<and> b0 \<le> 0xEF then
        (case rest of b1 # b2 # r \<Rightarrow> utf8_cont b1 \<and> utf8_cont b2
             \<and> (b0 = 0xE0 \<longrightarrow> 0xA0 \<le> b1) \<and> (b0 = 0xED \<longrightarrow> b1 \<le> 0x9F) \<and> utf8_valid r
         | _ \<Rightarrow> False)
      else if 0xF0 \<le> b0 \<and> b0 \<le> 0xF4 then
        (case rest of b1 # b2 # b3 # r \<Rightarrow> utf8_cont b1 \<and> utf8_cont b2 \<and> utf8_cont b3
             \<and> (b0 = 0xF0 \<longrightarrow> 0x90 \<le> b1) \<and> (b0 = 0xF4 \<longrightarrow> b1 \<le> 0x8F) \<and> utf8_valid r
         | _ \<Rightarrow> False)
      else False)"

definition formatted_to_str :: "formatted_bytes \<Rightarrow> byte list res" where
  "formatted_to_str self = map_ok (\<lambda>bs. if utf8_valid bs then bs else [])
     (slice_index 0 (fmt_size self) (fmt_buf self))"

section \<open>Lemmas\<close>

lemma sn_round_up_sub:
  "sn_sub (sn_round_up (sn addr) (sn al)) (sn addr) =
     (if al = 0 \<or> U64 \<le> addr + al then Inl () else Inr ((addr + al - 1) div al * al - addr))"
proof (cases "al = 0")
  case False
  then have "addr \<le> addr + al - 1 - (addr + al - 1) mod al"
    using round_up_multiple(2) [of al addr] by simp
  then show ?thesis using False by (simp add: round_up_Inr minus_mod_eq_div_mult)
qed (simp add: round_up_Inr)

text \<open>The number of bytes up to the next aligned address.\<close>

definition align_gap :: "nat \<Rightarrow> nat \<Rightarrow> nat" where
  "align_gap addr al = (addr + al - 1) div al * al - addr"

lemma align_gap_props:
  assumes "0 < al"
  shows "align_gap addr al < al" "(addr + align_gap addr al) mod al = 0"
proof -
  define r where "r = (addr + al - 1) div al * al"
  have r: "al dvd r" "addr \<le> r" "r < addr + al"
    using round_up_multiple [OF assms, of addr] by (simp_all add: r_def minus_mod_eq_div_mult)
  have g: "align_gap addr al = r - addr" by (simp add: align_gap_def r_def)
  show "align_gap addr al < al" using r by (simp add: g)
  show "(addr + align_gap addr al) mod al = 0" using r by (simp add: g)
qed

lemma mod_zero_diff:
  fixes a b n :: nat
  assumes "a mod n = 0" "b mod n = 0" "a \<le> b" "b < a + n"
  shows "b = a"
proof -
  have "n dvd b - a" using assms(1,2) by (simp add: dvd_diff_nat dvd_eq_mod_eq_0 [symmetric])
  then show ?thesis using assms(3,4) by (auto dest: dvd_imp_le)
qed

lemma align_gap_unique:
  assumes "0 < al" "g < al" "(addr + g) mod al = 0"
  shows "align_gap addr al = g"
  using mod_zero_diff [of "addr + g" al "addr + align_gap addr al"]
    mod_zero_diff [of "addr + align_gap addr al" al "addr + g"]
    align_gap_props [OF assms(1), of addr] assms(2,3)
  by (cases "g \<le> align_gap addr al") auto

lemma align_gap_zero [simp]: "0 < al \<Longrightarrow> addr mod al = 0 \<Longrightarrow> align_gap addr al = 0"
  by (rule align_gap_unique) auto

lemma align_gap_zero_iff: "0 < al \<Longrightarrow> align_gap addr al = 0 \<longleftrightarrow> addr mod al = 0"
  using align_gap_props(2) [of al addr] by auto

lemma aligned_offset_eq:
  "aligned_offset addr al =
     (if al = 0 \<or> U64 \<le> addr + al then Err ArithmeticOverflow else Ok (align_gap addr al))"
  by (simp only: aligned_offset_def sn_round_up_sub) (simp add: align_gap_def)

lemma aligned_subslice_eq:
  "aligned_subslice addr len al =
     (if al = 0 \<or> U64 \<le> addr + al then Err ArithmeticOverflow
      else if align_gap addr al \<le> len then Ok (align_gap addr al)
      else Err (BufferTooSmall (Some (align_gap addr al))))"
  by (simp only: aligned_subslice_def sn_round_up_sub) (simp add: align_gap_def)

lemma formatted_append_contents:
  assumes "fmt_size f \<le> length (fmt_buf f)"
  shows "formatted_append bytes f = (Ok (take (length (fmt_buf f)) (take (fmt_size f) (fmt_buf f) @ bytes)),
     snd (formatted_append bytes f))"
    and "fmt_size (snd (formatted_append bytes f)) \<le> length (fmt_buf (snd (formatted_append bytes f)))"
    and "length (fmt_buf (snd (formatted_append bytes f))) = length (fmt_buf f)"
  using assms by (auto simp: formatted_append_def Let_def overwrite_def min_def)

end
