(* ===== verification/Block_Io.thy ===== *)
theory Block_Io
  imports Utils
begin

text \<open>
  The block device interface of \<open>libstorage\<close>: the trait \<open>BlockIo\<close> as a record of operations, the range
  and alignment checks, and the state the access algorithms work on (device, caller's buffer, scratch
  buffer), with the combinators that borrow a part of a buffer for a call. The contract of a device is
  the locale \<open>block_device\<close>.
\<close>

section \<open>Devices\<close>

record block_info =
  block_size :: nat
  num_blocks :: nat
  alignment :: nat

definition total_size :: "block_info \<Rightarrow> nat res" where
  "total_size self = sn_try (sn_mul (sn (block_size self)) (sn (num_blocks self)))"

text \<open>
  \<open>read_blocks\<close> takes the block offset and the buffer, by address and contents, and returns the new
  contents of the buffer. No implementation of \<open>write_blocks\<close> changes the buffer it is given.
\<close>

record 's block_io =
  io_info :: "'s \<Rightarrow> block_info"
  read_blocks :: "nat \<Rightarrow> nat \<Rightarrow> byte list \<Rightarrow> 's \<Rightarrow> unit res \<times> byte list \<times> 's"
  write_blocks :: "nat \<Rightarrow> nat \<Rightarrow> byte list \<Rightarrow> ('s, unit) io"

section \<open>Checks\<close>

definition is_aligned :: "unit safe_num \<Rightarrow> unit safe_num \<Rightarrow> bool res" where
  "is_aligned v al = map_ok (\<lambda>r. r = 0) (sn_try (sn_rem v al))"

definition is_buffer_aligned :: "nat \<Rightarrow> nat \<Rightarrow> bool res" where
  "is_buffer_aligned addr al = is_aligned (sn addr) (sn al)"

text \<open>The range check of an access of \<open>len\<close> bytes at \<open>addr\<close>; the offset in blocks.\<close>

definition check_range :: "block_info \<Rightarrow> nat \<Rightarrow> nat \<Rightarrow> nat \<Rightarrow> unit safe_num res" where
  "check_range info offset addr len =
     and_then (assert_try (is_aligned (sn offset) (sn (block_size info)))) (\<lambda>_.
     and_then (assert_try (is_aligned (sn len) (sn (block_size info)))) (\<lambda>_.
     and_then (assert_try (is_buffer_aligned addr (alignment info))) (\<lambda>_.
       let blk_offset = sn_div (sn offset) (sn (block_size info));
           blk_count = sn_div (sn len) (sn (block_size info))
       in and_then (sn_try (sn_add blk_offset blk_count)) (\<lambda>end_blk.
            if end_blk \<le> num_blocks info then Ok blk_offset else Err (BadIndex end_blk)))))"

definition scratch_size :: "block_info \<Rightarrow> nat res" where
  "scratch_size info =
     (let block_alignment = (if block_size info = 1 then 0 else block_size info)
      in sn_try (sn_add (sn_mul (sn_sub (sn (alignment info)) (sn 1)) (sn 2)) (sn block_alignment)))"

section \<open>Access state\<close>

record 's rw =
  dev :: 's
  buf :: "byte list"
  scr :: "byte list"

text \<open>A computation that only looks at the state.\<close>

definition st_gets :: "('s \<Rightarrow> ('e, 'a) result) \<Rightarrow> ('s, 'e, 'a) stateful" where
  "st_gets f s = (f s, s)"

text \<open>A pure update of the caller's or the scratch buffer.\<close>

definition upd_buf :: "('s rw \<Rightarrow> byte list res) \<Rightarrow> ('s rw, unit) io" where
  "upd_buf f st = (case f st of
      Ok b \<Rightarrow> (Ok (), st\<lparr> buf := b \<rparr>) | Err e \<Rightarrow> (Err e, st) | Panic \<Rightarrow> (Panic, st))"

definition upd_scr :: "('s rw \<Rightarrow> byte list res) \<Rightarrow> ('s rw, unit) io" where
  "upd_scr f st = (case f st of
      Ok b \<Rightarrow> (Ok (), st\<lparr> scr := b \<rparr>) | Err e \<Rightarrow> (Err e, st) | Panic \<Rightarrow> (Panic, st))"

text \<open>
  Lending \<open>buf[a..b]\<close> to a call as its buffer: \<open>get_mut(a..b)?\<close> reports an error out of range,
  \<open>&mut buf[a..b]\<close> aborts.
\<close>

definition lend_buf :: "unit res \<Rightarrow> nat \<Rightarrow> nat \<Rightarrow> ('s rw, 'a) io \<Rightarrow> ('s rw, 'a) io" where
  "lend_buf bad a b m st = (case slice_get a b (buf st) of
      None \<Rightarrow> (case bad of Err e \<Rightarrow> (Err e, st) | _ \<Rightarrow> (Panic, st))
    | Some sub \<Rightarrow> let (r, st') = m (st\<lparr> buf := sub \<rparr>)
        in (r, st'\<lparr> buf := overwrite a (buf st') (buf st) \<rparr>))"

abbreviation get_mut_buf :: "nat \<Rightarrow> nat \<Rightarrow> ('s rw, 'a) io \<Rightarrow> ('s rw, 'a) io" where
  "get_mut_buf \<equiv> lend_buf (Err (BufferTooSmall None))"

abbreviation index_buf :: "nat \<Rightarrow> nat \<Rightarrow> ('s rw, 'a) io \<Rightarrow> ('s rw, 'a) io" where
  "index_buf \<equiv> lend_buf Panic"

text \<open>Lending \<open>&mut scratch[a..b]\<close> to a call as its buffer.\<close>

definition scr_as_buf :: "nat \<Rightarrow> nat \<Rightarrow> ('s rw, 'a) io \<Rightarrow> ('s rw, 'a) io" where
  "scr_as_buf a b m st = (case slice_get a b (scr st) of
      None \<Rightarrow> (Panic, st)
    | Some sub \<Rightarrow> let (r, st') = m (st\<lparr> buf := sub, scr := [] \<rparr>)
        in (r, st'\<lparr> buf := buf st, scr := overwrite a (buf st') (scr st) \<rparr>))"

text \<open>
  Lending two disjoint parts of the scratch buffer: the part \<open>[a, a + n)\<close> as the scratch of a call on
  the caller's buffer, and also \<open>[c, c + k)\<close> as its buffer.
\<close>

definition scr_as_scr :: "nat \<Rightarrow> nat \<Rightarrow> ('s rw, 'a) io \<Rightarrow> ('s rw, 'a) io" where
  "scr_as_scr a n m st = (case slice_get a (a + n) (scr st) of
      None \<Rightarrow> (Panic, st)
    | Some sub \<Rightarrow> let (r, st') = m (st\<lparr> scr := sub \<rparr>)
        in (r, st'\<lparr> scr := overwrite a (scr st') (scr st) \<rparr>))"

definition scr_as_both :: "nat \<Rightarrow> nat \<Rightarrow> nat \<Rightarrow> nat \<Rightarrow> ('s rw, 'a) io \<Rightarrow> ('s rw, 'a) io" where
  "scr_as_both c k a n m st =
     (case (slice_get c (c + k) (scr st), slice_get a (a + n) (scr st)) of
        (Some b, Some sub) \<Rightarrow> let (r, st') = m (st\<lparr> buf := b, scr := sub \<rparr>)
          in (r, st'\<lparr> buf := buf st,
                     scr := overwrite a (scr st') (overwrite c (buf st') (scr st)) \<rparr>)
      | _ \<Rightarrow> (Panic, st))"

section \<open>Weakest preconditions\<close>

text \<open>
  \<open>run m s Q\<close>: running \<open>m\<close> from \<open>s\<close> ends in an outcome and a state that satisfy \<open>Q\<close>. The rules in
  \<open>run_simps\<close> compute it through the combinators; \<open>run_thenI\<close> puts in the specification of a call.
\<close>

named_theorems run_simps \<open>weakest preconditions of the combinators\<close>

definition run :: "('s, 'e, 'a) stateful \<Rightarrow> 's \<Rightarrow> (('e, 'a) result \<Rightarrow> 's \<Rightarrow> bool) \<Rightarrow> bool" where
  "run m s Q = (case m s of (r, s') \<Rightarrow> Q r s')"

lemma runE:
  assumes "run m s Q"
  obtains r s' where "m s = (r, s')" "Q r s'"
  using assms by (auto simp: run_def split: prod.splits)

lemma runI: "m s = (r, s') \<Longrightarrow> Q r s' \<Longrightarrow> run m s Q"
  by (simp add: run_def)

lemma run_mono: "run m s P \<Longrightarrow> (\<And>r s'. P r s' \<Longrightarrow> Q r s') \<Longrightarrow> run m s Q"
  by (auto simp: run_def split: prod.splits)

lemma run_thenI:
  assumes "run m s P" "\<And>v s'. P (Ok v) s' \<Longrightarrow> run (k v) s' Q"
    "\<And>e s'. P (Err e) s' \<Longrightarrow> Q (Err e) s'" "\<And>s'. P Panic s' \<Longrightarrow> Q Panic s'"
  shows "run (st_then m k) s Q"
proof -
  obtain r s' where "m s = (r, s')" "P r s'" using assms(1) by (rule runE)
  then show ?thesis
    using assms(2) [of _ s'] assms(3,4) by (cases r) (simp_all add: run_def)
qed

lemma run_liftI: "r = Ok v \<Longrightarrow> run (k v) s Q \<Longrightarrow> run (st_then (st_lift r) k) s Q"
  by (simp add: run_def)

lemma run_getsI: "f s = Ok v \<Longrightarrow> run (k v) s Q \<Longrightarrow> run (st_then (st_gets f) k) s Q"
  by (simp add: run_def st_gets_def)

lemma run_lift [run_simps]: "run (st_lift r) s Q = Q r s"
  by (simp add: run_def st_lift_def)

lemma run_gets [run_simps]: "run (st_gets f) s Q = Q (f s) s"
  by (simp add: run_def st_gets_def)

lemma run_then_lift [run_simps]:
  "run (st_then (st_lift r) k) s Q =
     (case r of Ok v \<Rightarrow> run (k v) s Q | Err e \<Rightarrow> Q (Err e) s | Panic \<Rightarrow> Q Panic s)"
  by (simp add: run_def st_then_def st_lift_def split: result.split)

lemma run_then_gets [run_simps]:
  "run (st_then (st_gets f) k) s Q =
     (case f s of Ok v \<Rightarrow> run (k v) s Q | Err e \<Rightarrow> Q (Err e) s | Panic \<Rightarrow> Q Panic s)"
  by (simp add: run_def st_then_def st_gets_def split: result.split)

lemma run_upd_buf [run_simps]:
  "run (upd_buf f) s Q =
     (case f s of Ok b \<Rightarrow> Q (Ok ()) (s\<lparr> buf := b \<rparr>) | Err e \<Rightarrow> Q (Err e) s | Panic \<Rightarrow> Q Panic s)"
  by (simp add: run_def upd_buf_def split: result.split)

lemma run_then_upd_buf [run_simps]:
  "run (st_then (upd_buf f) k) s Q =
     (case f s of Ok b \<Rightarrow> run (k ()) (s\<lparr> buf := b \<rparr>) Q | Err e \<Rightarrow> Q (Err e) s | Panic \<Rightarrow> Q Panic s)"
  by (simp add: run_def upd_buf_def st_then_def split: result.split)

lemma run_upd_scr [run_simps]:
  "run (upd_scr f) s Q =
     (case f s of Ok b \<Rightarrow> Q (Ok ()) (s\<lparr> scr := b \<rparr>) | Err e \<Rightarrow> Q (Err e) s | Panic \<Rightarrow> Q Panic s)"
  by (simp add: run_def upd_scr_def split: result.split)

lemma run_then_upd_scr [run_simps]:
  "run (st_then (upd_scr f) k) s Q =
     (case f s of Ok b \<Rightarrow> run (k ()) (s\<lparr> scr := b \<rparr>) Q | Err e \<Rightarrow> Q (Err e) s | Panic \<Rightarrow> Q Panic s)"
  by (simp add: run_def upd_scr_def st_then_def split: result.split)

lemma run_lend_buf [run_simps]:
  "a \<le> b \<Longrightarrow> b \<le> length (buf s) \<Longrightarrow> run (lend_buf bad a b m) s Q =
     run m (s\<lparr> buf := take (b - a) (drop a (buf s)) \<rparr>)
       (\<lambda>r s'. Q r (s'\<lparr> buf := overwrite a (buf s') (buf s) \<rparr>))"
  by (simp add: run_def lend_buf_def split: prod.split)

lemma run_scr_as_buf [run_simps]:
  "a \<le> b \<Longrightarrow> b \<le> length (scr s) \<Longrightarrow> run (scr_as_buf a b m) s Q =
     run m (s\<lparr> buf := take (b - a) (drop a (scr s)), scr := [] \<rparr>)
       (\<lambda>r s'. Q r (s'\<lparr> buf := buf s, scr := overwrite a (buf s') (scr s) \<rparr>))"
  by (simp add: run_def scr_as_buf_def split: prod.split)

lemma run_scr_as_scr [run_simps]:
  "a + n \<le> length (scr s) \<Longrightarrow> run (scr_as_scr a n m) s Q =
     run m (s\<lparr> scr := take n (drop a (scr s)) \<rparr>)
       (\<lambda>r s'. Q r (s'\<lparr> scr := overwrite a (scr s') (scr s) \<rparr>))"
  by (simp add: run_def scr_as_scr_def split: prod.split)

lemma run_scr_as_both [run_simps]:
  "a + n \<le> length (scr s) \<Longrightarrow> c + k \<le> length (scr s) \<Longrightarrow> run (scr_as_both c k a n m) s Q =
     run m (s\<lparr> buf := take k (drop c (scr s)), scr := take n (drop a (scr s)) \<rparr>)
       (\<lambda>r s'. Q r (s'\<lparr> buf := buf s, scr := overwrite a (scr s') (overwrite c (buf s') (scr s)) \<rparr>))"
  by (simp add: run_def scr_as_both_def split: prod.split)

end
