(* ===== verification/Storage_Algorithm.thy ===== *)
theory Storage_Algorithm
  imports Block_Io
begin

text \<open>
  \<open>libstorage/src/algorithm.rs\<close>: reads and writes of arbitrary ranges and buffers, reduced to block
  accesses with aligned buffers. The address of the caller's buffer is \<open>p\<close>, that of the scratch buffer
  \<open>sp\<close>; both buffers and the device are the state.
\<close>

definition get_info :: "'s block_io \<Rightarrow> ('s rw, block_info) io" where
  "get_info io = st_gets (\<lambda>st. Ok (io_info io (dev st)))"

section \<open>Reading\<close>

definition read_aligned_all :: "'s block_io \<Rightarrow> nat \<Rightarrow> nat \<Rightarrow> ('s rw, unit) io" where
  "read_aligned_all io offset p =
     st_then (st_gets (\<lambda>st. and_then
         (check_range (io_info io (dev st)) offset p (length (buf st))) sn_try)) (\<lambda>blk_offset st.
       let (r, b, d) = read_blocks io blk_offset p (buf st) (dev st)
       in (r, st\<lparr> dev := d, buf := b \<rparr>))"

text \<open>The last \<open>k\<close> bytes of a read, less than a block, by way of the scratch buffer.\<close>

definition read_tail_block ::
    "'s block_io \<Rightarrow> nat \<Rightarrow> nat \<Rightarrow> nat \<Rightarrow> nat \<Rightarrow> nat \<Rightarrow> ('s rw, unit) io" where
  "read_tail_block io bs offset aligned_read k sp =
     st_then (st_gets (\<lambda>st. slice_index 0 bs (scr st))) (\<lambda>_.
     st_then (st_lift (sn_try (sn_add (sn offset) (sn aligned_read)))) (\<lambda>aligned_offset.
     st_then (scr_as_buf 0 bs (read_aligned_all io aligned_offset sp)) (\<lambda>_.
     upd_buf (\<lambda>st. and_then (slice_index 0 k (scr st)) (\<lambda>src.
       clone_into aligned_read (length (buf st)) src (buf st))))))"

definition read_aligned_offset_and_buffer ::
    "'s block_io \<Rightarrow> nat \<Rightarrow> nat \<Rightarrow> nat \<Rightarrow> ('s rw, unit) io" where
  "read_aligned_offset_and_buffer io offset p sp =
     st_then (get_info io) (\<lambda>info. let bs = block_size info in
     st_then (st_gets (\<lambda>st.
       and_then (assert_try (is_aligned (sn offset) (sn bs))) (\<lambda>_.
       and_then (assert_try (is_buffer_aligned p (alignment info))) (\<lambda>_.
         sn_try (sn_round_down (sn (length (buf st))) (sn bs)))))) (\<lambda>aligned_read.
     st_then (if 0 < aligned_read
              then get_mut_buf 0 aligned_read (read_aligned_all io offset p)
              else st_lift (Ok ())) (\<lambda>_.
     st_then (st_gets (\<lambda>st. ok_or (slice_get aligned_read (length (buf st)) (buf st))
                                  (BufferTooSmall None))) (\<lambda>unaligned.
     if unaligned = [] then st_lift (Ok ())
     else read_tail_block io bs offset aligned_read (length unaligned) sp))))"

text \<open>The block boundary after an unaligned offset, or the end of the access if that comes first.\<close>

definition aligned_start_of :: "nat \<Rightarrow> nat \<Rightarrow> nat \<Rightarrow> nat res" where
  "aligned_start_of offset bs len =
     and_then (sn_try (sn_round_up (sn offset) (sn bs))) (\<lambda>a.
     and_then (sn_try (sn_add (sn offset) (sn len))) (\<lambda>b. Ok (min a b)))"

text \<open>
  The part of an unaligned read that starts at the block boundary \<open>aligned_start\<close>, \<open>rel\<close> bytes into
  the buffer: directly if the address there is aligned, else to the start of the buffer and moved.
\<close>

definition read_from_block_boundary ::
    "'s block_io \<Rightarrow> nat \<Rightarrow> nat \<Rightarrow> nat \<Rightarrow> nat \<Rightarrow> nat \<Rightarrow> ('s rw, unit) io" where
  "read_from_block_boundary io al rel aligned_start p sp =
     st_then (st_gets (\<lambda>st. Ok (length (buf st)))) (\<lambda>len.
      if rel < len then
        st_then (st_lift (is_buffer_aligned (p + rel) al)) (\<lambda>direct.
        if direct then
          get_mut_buf rel len
            (read_aligned_offset_and_buffer io aligned_start (p + rel) sp)
        else
          st_then (st_lift (sn_try (sn_sub (sn len) (sn rel)))) (\<lambda>read_len.
          st_then (get_mut_buf 0 read_len (read_aligned_offset_and_buffer io aligned_start p sp)) (\<lambda>_.
          upd_buf (\<lambda>st. copy_within 0 read_len rel (buf st)))))
      else st_lift (Ok ()))"

text \<open>The first \<open>rel\<close> bytes of a read that starts inside a block, by way of the scratch buffer.\<close>

definition read_head_block :: "'s block_io \<Rightarrow> nat \<Rightarrow> nat \<Rightarrow> nat \<Rightarrow> nat \<Rightarrow> ('s rw, unit) io" where
  "read_head_block io bs offset rel sp =
     st_then (st_gets (\<lambda>st. slice_index 0 bs (scr st))) (\<lambda>_.
     st_then (st_lift (sn_try (sn_round_down (sn offset) (sn bs)))) (\<lambda>round_down_offset.
     st_then (scr_as_buf 0 bs (read_aligned_all io round_down_offset sp)) (\<lambda>_.
     st_then (st_gets (\<lambda>st. ok_or (slice_get 0 rel (buf st)) (BufferTooSmall None))) (\<lambda>unaligned.
     st_then (st_lift (sn_try (sn_sub (sn offset) (sn round_down_offset)))) (\<lambda>a.
     st_then (st_lift (sn_try (sn_add (sn a) (sn (length unaligned))))) (\<lambda>b.
     upd_buf (\<lambda>st. and_then (slice_index a b (scr st)) (\<lambda>src.
       clone_into 0 rel src (buf st)))))))))"

definition read_aligned_buffer :: "'s block_io \<Rightarrow> nat \<Rightarrow> nat \<Rightarrow> nat \<Rightarrow> ('s rw, unit) io" where
  "read_aligned_buffer io offset p sp =
     st_then (get_info io) (\<lambda>info. let bs = block_size info; al = alignment info in
     st_then (st_lift (assert_try (is_buffer_aligned p al))) (\<lambda>_.
     st_then (st_lift (is_aligned (sn offset) (sn bs))) (\<lambda>aligned.
     if aligned then read_aligned_offset_and_buffer io offset p sp
     else
       st_then (st_gets (\<lambda>st. aligned_start_of offset bs (length (buf st)))) (\<lambda>aligned_start.
       st_then (st_lift (sn_try (sn_sub (sn aligned_start) (sn offset)))) (\<lambda>rel.
       st_then (read_from_block_boundary io al rel aligned_start p sp) (\<lambda>_.
       read_head_block io bs offset rel sp))))))"

text \<open>
  Splits the scratch buffer of \<open>len\<close> bytes at \<open>sp\<close>: the offsets of the part for buffer misalignment
  (of \<open>alignment - 1\<close> bytes) and of the aligned part for partial blocks, and the size of the latter.
\<close>

definition split_scratch :: "block_info \<Rightarrow> nat \<Rightarrow> nat \<Rightarrow> (nat \<times> nat \<times> nat \<times> nat) res" where
  "split_scratch info sp len =
     and_then (aligned_subslice sp len (alignment info)) (\<lambda>a.
     and_then (sn_try (sn_sub (sn (alignment info)) (sn 1))) (\<lambda>mid.
     if len - a < mid then Panic
     else
       and_then (aligned_subslice (sp + a + mid) (len - a - mid) (alignment info)) (\<lambda>b.
       let size = (if block_size info = 1 then 0 else block_size info) in
       if len - a - mid - b < size then Panic
       else Ok (a, mid, a + mid + b, size))))"

definition read_async :: "'s block_io \<Rightarrow> nat \<Rightarrow> nat \<Rightarrow> nat \<Rightarrow> ('s rw, unit) io" where
  "read_async io offset p sp =
     st_then (get_info io) (\<lambda>info. let al = alignment info in
     st_then (st_gets (\<lambda>st. split_scratch info sp (length (scr st))))
       (\<lambda>(c, k, a, n).
     st_then (st_lift (is_buffer_aligned p al)) (\<lambda>aligned.
     if aligned then scr_as_scr a n (read_aligned_buffer io offset p (sp + a))
     else
       st_then (st_gets (\<lambda>st. map_ok (\<lambda>g. min g (length (buf st)))
           (sn_try (sn_sub (sn_round_up (sn p) (sn al)) (sn p))))) (\<lambda>unaligned_read.
       st_then (st_lift (if unaligned_read \<le> k then Ok () else Panic)) (\<lambda>_.
       st_then (scr_as_both c unaligned_read a n (read_aligned_buffer io offset (sp + c) (sp + a))) (\<lambda>_.
       st_then (upd_buf (\<lambda>st.
         if unaligned_read \<le> length (buf st)
         then clone_into 0 unaligned_read (take unaligned_read (drop c (scr st))) (buf st)
         else Err (BufferTooSmall None))) (\<lambda>_.
       st_then (st_gets (\<lambda>st. Ok (length (buf st)))) (\<lambda>len.
       if unaligned_read = len then st_lift (Ok ())
       else
         st_then (st_lift (sn_try (sn_add (sn offset) (sn unaligned_read)))) (\<lambda>offset'.
         get_mut_buf unaligned_read len
           (scr_as_scr a n (read_aligned_buffer io offset' (p + unaligned_read) (sp + a))))))))))))"

section \<open>Writing\<close>

definition write_aligned_all :: "'s block_io \<Rightarrow> nat \<Rightarrow> nat \<Rightarrow> ('s rw, unit) io" where
  "write_aligned_all io offset p =
     st_then (st_gets (\<lambda>st. and_then
         (check_range (io_info io (dev st)) offset p (length (buf st))) sn_try)) (\<lambda>blk_offset st.
       let (r, d) = write_blocks io blk_offset p (buf st) (dev st) in (r, st\<lparr> dev := d \<rparr>))"

text \<open>Read-modify-write of the last block, of which only the first bytes are written.\<close>

definition write_tail_block ::
    "'s block_io \<Rightarrow> nat \<Rightarrow> nat \<Rightarrow> nat \<Rightarrow> byte list \<Rightarrow> nat \<Rightarrow> ('s rw, unit) io" where
  "write_tail_block io bs offset aligned_write unaligned sp =
     st_then (st_lift (sn_try (sn_add (sn offset) (sn aligned_write)))) (\<lambda>unaligned_start.
     st_then (st_gets (\<lambda>st. slice_index 0 bs (scr st))) (\<lambda>_.
     st_then (scr_as_buf 0 bs (read_aligned_all io unaligned_start sp)) (\<lambda>_.
     st_then (upd_scr (\<lambda>st. and_then (slice_index 0 bs (scr st)) (\<lambda>blk.
       map_ok (\<lambda>blk'. overwrite 0 blk' (scr st)) (clone_into 0 (length unaligned) unaligned blk)))) (\<lambda>_.
     scr_as_buf 0 bs (write_aligned_all io unaligned_start sp)))))"

definition write_aligned_offset_and_buffer ::
    "'s block_io \<Rightarrow> nat \<Rightarrow> nat \<Rightarrow> nat \<Rightarrow> ('s rw, unit) io" where
  "write_aligned_offset_and_buffer io offset p sp =
     st_then (get_info io) (\<lambda>info. let bs = block_size info in
     st_then (st_gets (\<lambda>st.
       and_then (assert_try (is_aligned (sn offset) (sn bs))) (\<lambda>_.
       and_then (assert_try (is_buffer_aligned p (alignment info))) (\<lambda>_.
         sn_try (sn_round_down (sn (length (buf st))) (sn bs)))))) (\<lambda>aligned_write.
     st_then (if 0 < aligned_write
              then index_buf 0 aligned_write (write_aligned_all io offset p)
              else st_lift (Ok ())) (\<lambda>_.
     st_then (st_gets (\<lambda>st. slice_index aligned_write (length (buf st)) (buf st))) (\<lambda>unaligned.
     if length unaligned = 0 then st_lift (Ok ())
     else write_tail_block io bs offset aligned_write unaligned sp))))"

text \<open>Rotations of the caller's buffer by \<open>sz\<close> bytes through the scratch buffer.\<close>

definition rotate_left :: "nat \<Rightarrow> ('s rw, unit) io" where
  "rotate_left sz =
     st_then (upd_scr (\<lambda>st. and_then (slice_index 0 sz (buf st)) (\<lambda>src.
       clone_into 0 sz src (scr st)))) (\<lambda>_.
     st_then (upd_buf (\<lambda>st. copy_within sz (length (buf st)) 0 (buf st))) (\<lambda>_.
     st_then (st_gets (\<lambda>st. psub (length (buf st)) sz)) (\<lambda>off.
     upd_buf (\<lambda>st. and_then (slice_index 0 sz (scr st)) (\<lambda>src.
       clone_into off (length (buf st)) src (buf st))))))"

definition rotate_right :: "nat \<Rightarrow> ('s rw, unit) io" where
  "rotate_right sz =
     st_then (st_gets (\<lambda>st. psub (length (buf st)) sz)) (\<lambda>off.
     st_then (upd_scr (\<lambda>st. and_then (slice_index off (length (buf st)) (buf st)) (\<lambda>src.
       clone_into 0 sz src (scr st)))) (\<lambda>_.
     st_then (upd_buf (\<lambda>st. copy_within 0 off sz (buf st))) (\<lambda>_.
     upd_buf (\<lambda>st. and_then (slice_index 0 sz (scr st)) (\<lambda>src. clone_into 0 sz src (buf st))))))"

text \<open>
  The part of an unaligned write that starts at the block boundary \<open>aligned_start\<close>, \<open>rel\<close> bytes into
  the buffer: directly if the address there is aligned, else with the buffer rotated around the call.
\<close>

definition write_from_block_boundary ::
    "'s block_io \<Rightarrow> nat \<Rightarrow> nat \<Rightarrow> nat \<Rightarrow> nat \<Rightarrow> nat \<Rightarrow> ('s rw, unit) io" where
  "write_from_block_boundary io al rel aligned_start p sp =
     st_then (st_gets (\<lambda>st. Ok (length (buf st)))) (\<lambda>len.
      if rel < len then
        st_then (st_lift (is_buffer_aligned (p + rel) al)) (\<lambda>direct.
        if direct then
          index_buf rel len
            (write_aligned_offset_and_buffer io aligned_start (p + rel) sp)
        else
          st_then (st_lift (sn_try (sn_sub (sn len) (sn rel)))) (\<lambda>write_len.
          st_then (rotate_left rel) (\<lambda>_ st1.
            case index_buf 0 write_len (write_aligned_offset_and_buffer io aligned_start p sp) st1 of
              (Panic, st2) \<Rightarrow> (Panic, st2)
            | (res, st2) \<Rightarrow> st_then (rotate_right rel) (\<lambda>_. st_lift res) st2)))
      else st_lift (Ok ()))"

text \<open>Read-modify-write of the first block of a write that starts inside a block.\<close>

definition write_head_block :: "'s block_io \<Rightarrow> nat \<Rightarrow> nat \<Rightarrow> nat \<Rightarrow> nat \<Rightarrow> ('s rw, unit) io" where
  "write_head_block io bs offset rel sp =
     st_then (st_gets (\<lambda>st. slice_index 0 bs (scr st))) (\<lambda>_.
     st_then (st_lift (sn_try (sn_round_down (sn offset) (sn bs)))) (\<lambda>round_down_offset.
     st_then (scr_as_buf 0 bs (read_aligned_all io round_down_offset sp)) (\<lambda>_.
     st_then (st_lift (sn_try (sn_sub (sn offset) (sn round_down_offset)))) (\<lambda>a.
     st_then (st_lift (sn_try (sn_add (sn a) (sn rel)))) (\<lambda>b.
     st_then (upd_scr (\<lambda>st. and_then (slice_index 0 bs (scr st)) (\<lambda>blk.
       and_then (slice_index 0 rel (buf st)) (\<lambda>src.
       map_ok (\<lambda>blk'. overwrite 0 blk' (scr st)) (clone_into a b src blk))))) (\<lambda>_.
     scr_as_buf 0 bs (write_aligned_all io round_down_offset sp)))))))"

definition write_aligned_buffer :: "'s block_io \<Rightarrow> nat \<Rightarrow> nat \<Rightarrow> nat \<Rightarrow> ('s rw, unit) io" where
  "write_aligned_buffer io offset p sp =
     st_then (get_info io) (\<lambda>info. let bs = block_size info; al = alignment info in
     st_then (st_lift (assert_try (is_buffer_aligned p al))) (\<lambda>_.
     st_then (st_lift (is_aligned (sn offset) (sn bs))) (\<lambda>aligned.
     if aligned then write_aligned_offset_and_buffer io offset p sp
     else
       st_then (st_gets (\<lambda>st. aligned_start_of offset bs (length (buf st)))) (\<lambda>aligned_start.
       st_then (st_lift (sn_try (sn_sub (sn aligned_start) (sn offset)))) (\<lambda>rel.
       st_then (write_from_block_boundary io al rel aligned_start p sp) (\<lambda>_.
       write_head_block io bs offset rel sp))))))"

definition write_async :: "'s block_io \<Rightarrow> nat \<Rightarrow> nat \<Rightarrow> nat \<Rightarrow> ('s rw, unit) io" where
  "write_async io offset p sp =
     st_then (get_info io) (\<lambda>info. let al = alignment info in
     st_then (st_gets (\<lambda>st. split_scratch info sp (length (scr st))))
       (\<lambda>(c, k, a, n).
     st_then (st_lift (is_buffer_aligned p al)) (\<lambda>aligned.
     if aligned then scr_as_scr a n (write_aligned_buffer io offset p (sp + a))
     else
       st_then (st_gets (\<lambda>st. map_ok (\<lambda>g. min g (length (buf st)))
           (sn_try (sn_sub (sn_round_up (sn p) (sn al)) (sn p))))) (\<lambda>unaligned_write.
       st_then (st_lift (if unaligned_write \<le> k then Ok () else Panic)) (\<lambda>_.
       st_then (upd_scr (\<lambda>st. and_then (slice_index 0 unaligned_write (buf st)) (\<lambda>src.
         clone_into c (c + unaligned_write) src (scr st)))) (\<lambda>_.
       st_then (scr_as_both c unaligned_write a n (write_aligned_buffer io offset (sp + c) (sp + a))) (\<lambda>_.
       st_then (st_gets (\<lambda>st. Ok (length (buf st)))) (\<lambda>len.
       if unaligned_write = len then st_lift (Ok ())
       else
         st_then (st_lift (sn_try (sn_add (sn offset) (sn unaligned_write)))) (\<lambda>offset'.
         index_buf unaligned_write len
           (scr_as_scr a n (write_aligned_buffer io offset' (p + unaligned_write) (sp + a))))))))))))"

end
