(* ===== verification/Storage_Correct.thy ===== *)
theory Storage_Correct
  imports Storage_Algorithm
begin

text \<open>
  Correctness of the access algorithms of \<open>libstorage\<close> on any block device that keeps the contract
  \<open>block_device\<close>: what a read returns, what a write leaves on the device, and that a failing device
  never leads to a change outside the range that was to be written. The contract covers devices that
  fail: a failed write may leave any mixture of old and new bytes in the range. The additional
  assumption \<open>reliable\<close> gives total correctness.
\<close>

section \<open>Arithmetic of ranges\<close>

lemma is_aligned_eq [simp]: "0 < al \<Longrightarrow> is_aligned (Inr v) (Inr al) = Ok (v mod al = 0)"
  by (simp add: is_aligned_def)

lemma is_buffer_aligned_eq [simp]: "0 < al \<Longrightarrow> is_buffer_aligned v al = Ok (v mod al = 0)"
  by (simp add: is_buffer_aligned_def)

lemma div_add_le_iff:
  fixes a b n bs :: nat
  assumes "0 < bs" "bs dvd a" "bs dvd b"
  shows "a div bs + b div bs \<le> n \<longleftrightarrow> a + b \<le> n * bs"
proof -
  have "a + b = (a div bs + b div bs) * bs" using assms by (simp add: distrib_right)
  then show ?thesis using assms(1) by simp
qed

lemma check_range_eq:
  assumes "0 < block_size info" "0 < alignment info" "block_size info dvd offset"
    "block_size info dvd len" "addr mod alignment info = 0"
    "num_blocks info * block_size info < U64"
  shows "check_range info offset addr len =
    (if offset + len \<le> num_blocks info * block_size info then Ok (sn (offset div block_size info))
     else if offset div block_size info + len div block_size info < U64
     then Err (BadIndex (offset div block_size info + len div block_size info))
     else Err ArithmeticOverflow)"
proof -
  note eq = div_add_le_iff [OF assms(1,3,4), of "num_blocks info"]
  have "num_blocks info < U64"
    using assms(1,6) by (metis le_less_trans mult.right_neutral mult_le_mono2 Suc_leI One_nat_def)
  then show ?thesis
    using assms(1-5) eq by (auto simp: check_range_def Let_def dvd_eq_mod_eq_0)
qed

lemma st_then_assoc: "st_then (st_then m k) h = st_then m (\<lambda>v. st_then (k v) h)"
  by (auto simp: fun_eq_iff st_then_def split: prod.split result.split)

lemma clone_into_tail:
  "n + length src = length b \<Longrightarrow> m = length b \<Longrightarrow> clone_into n m src b = Ok (take n b @ src)"
  by (auto simp: clone_into_def overwrite_def)

lemma clone_into_head:
  "length src = n \<Longrightarrow> n \<le> length b \<Longrightarrow> clone_into 0 n src b = Ok (src @ drop n b)"
  by (auto simp: clone_into_def overwrite_def)

lemma overwrite_two:
  assumes "length y = u" "b + u \<le> a" "a + length x \<le> length s"
  shows "take u (drop b (overwrite a x (overwrite b y s))) = y"
    "length (overwrite a x (overwrite b y s)) = length s"
proof -
  have l: "length (overwrite b y s) = length s" using assms by simp
  then show "length (overwrite a x (overwrite b y s)) = length s" using assms by simp
  have "take u (drop b (overwrite a x (overwrite b y s))) = drop b (take (u + b) (overwrite a x (overwrite b y s)))"
    by (simp add: take_drop)
  also have "take (u + b) (overwrite a x (overwrite b y s)) = take (u + b) (overwrite b y s)"
    using assms l by (intro take_overwrite_before) auto
  also have "drop b \<dots> = take u (drop b (overwrite b y s))" by (simp add: take_drop)
  also have "\<dots> = y" using assms take_drop_overwrite_same [of b y s] by simp
  finally show "take u (drop b (overwrite a x (overwrite b y s))) = y" .
qed

section \<open>Torn writes\<close>

text \<open>
  \<open>torn c off data c'\<close>: \<open>c'\<close> is \<open>c\<close> with some of the bytes of \<open>data\<close> stored at offset \<open>off\<close>.
\<close>

definition torn :: "byte list \<Rightarrow> nat \<Rightarrow> byte list \<Rightarrow> byte list \<Rightarrow> bool" where
  "torn c off data c' \<longleftrightarrow> length c' = length c
     \<and> (\<forall>i < length c. c' ! i = c ! i \<or> off \<le> i \<and> i < off + length data \<and> c' ! i = data ! (i - off))"

lemma torn_refl [simp]: "torn c off data c"
  by (simp add: torn_def)

lemma torn_length: "torn c off data c' \<Longrightarrow> length c' = length c"
  by (simp add: torn_def)

lemma torn_overwrite: "off + length data \<le> length c \<Longrightarrow> torn c off data (overwrite off data c)"
  by (auto simp: torn_def nth_overwrite)

lemma torn_outside:
  "torn c off data c' \<Longrightarrow> i < off \<or> off + length data \<le> i \<Longrightarrow> i < length c \<Longrightarrow> c' ! i = c ! i"
  by (auto simp: torn_def)

lemma torn_nth:
  "torn c off data c' \<Longrightarrow> i < length c \<Longrightarrow>
     c' ! i = c ! i \<or> off \<le> i \<and> i < off + length data \<and> c' ! i = data ! (i - off)"
  by (auto simp: torn_def)

lemma tornI:
  "length c' = length c \<Longrightarrow> (\<And>i. i < length c \<Longrightarrow> c' ! i \<noteq> c ! i \<Longrightarrow>
     off \<le> i \<and> i < off + length data \<and> c' ! i = data ! (i - off)) \<Longrightarrow> torn c off data c'"
  by (auto simp: torn_def)

lemma torn_append:
  assumes "torn c off xs c1" "torn c1 (off + length xs) ys c2"
  shows "torn c off (xs @ ys) c2"
proof (rule tornI)
  show "length c2 = length c" using assms by (simp add: torn_def)
  fix i assume i: "i < length c" "c2 ! i \<noteq> c ! i"
  then show "off \<le> i \<and> i < off + length (xs @ ys) \<and> c2 ! i = (xs @ ys) ! (i - off)"
    using torn_nth [OF assms(1), of i] torn_nth [OF assms(2), of i] torn_length [OF assms(1)]
    by (auto simp: nth_append)
qed

lemma torn_append_rev:
  assumes "torn c (off + length xs) ys c1" "torn c1 off xs c2"
  shows "torn c off (xs @ ys) c2"
proof (rule tornI)
  show "length c2 = length c" using assms by (simp add: torn_def)
  fix i assume i: "i < length c" "c2 ! i \<noteq> c ! i"
  then show "off \<le> i \<and> i < off + length (xs @ ys) \<and> c2 ! i = (xs @ ys) ! (i - off)"
    using torn_nth [OF assms(1), of i] torn_nth [OF assms(2), of i] torn_length [OF assms(1)]
    by (auto simp: nth_append)
qed

text \<open>Writing back a block that was read and changed in a part changes only that part.\<close>

lemma torn_block:
  assumes t: "torn c start (overwrite rel data (take n (drop start c))) c'"
    and len: "rel + length data \<le> n" "start + n \<le> length c"
  shows "torn c (start + rel) data c'"
proof -
  have "c' ! i = c ! i \<or> start + rel \<le> i \<and> i < start + rel + length data \<and> c' ! i = data ! (i - (start + rel))"
    if i: "i < length c" for i
  proof -
    have "c' ! i = c ! i \<or> start \<le> i \<and> i < start + n
        \<and> c' ! i = overwrite rel data (take n (drop start c)) ! (i - start)"
      using t i len by (auto simp: torn_def)
    then show ?thesis
      using i len by (auto simp: nth_overwrite split: if_splits)
  qed
  then show ?thesis using t by (simp add: torn_def)
qed

section \<open>Device contract\<close>

text \<open>Block size and alignment are positive, and the device ends more than a block below \<open>2\<^sup>6\<^sup>4\<close>.\<close>

definition geometry :: "block_info \<Rightarrow> bool" where
  "geometry info \<longleftrightarrow> 0 < block_size info \<and> 0 < alignment info
     \<and> num_blocks info * block_size info + block_size info < U64"

lemma geometryD:
  assumes "geometry info"
  shows "0 < block_size info" "0 < alignment info"
    "num_blocks info * block_size info + block_size info < U64" "num_blocks info * block_size info < U64"
  using assms by (auto simp: geometry_def)

text \<open>The scratch buffer of \<open>len\<close> bytes at \<open>sp\<close> is large enough to be split.\<close>

definition scratch_fits :: "block_info \<Rightarrow> nat \<Rightarrow> nat \<Rightarrow> bool" where
  "scratch_fits info sp len \<longleftrightarrow> sp + len + alignment info < U64
     \<and> (if alignment info = 1 then 0 else align_gap sp (alignment info) + alignment info)
       + (if block_size info = 1 then 0 else block_size info) \<le> len"

locale block_device =
  fixes io :: "'s block_io" and info :: block_info and content :: "'s \<Rightarrow> byte list"
    and invar :: "'s \<Rightarrow> bool" and reliable :: bool
  assumes info_law: "invar s \<Longrightarrow> io_info io s = info"
    and geometry_law: "invar s \<Longrightarrow> geometry info"
    and content_length: "invar s \<Longrightarrow> length (content s) = num_blocks info * block_size info"
    and read_law: "invar s \<Longrightarrow> p mod alignment info = 0 \<Longrightarrow> block_size info dvd length b \<Longrightarrow>
      blk * block_size info + length b \<le> num_blocks info * block_size info \<Longrightarrow>
      \<exists>r b' s'. read_blocks io blk p b s = (r, b', s') \<and> r \<noteq> Panic \<and> invar s'
        \<and> content s' = content s \<and> length b' = length b
        \<and> (r = Ok () \<longrightarrow> b' = take (length b) (drop (blk * block_size info) (content s)))
        \<and> (reliable \<longrightarrow> r = Ok ())"
    and write_law: "invar s \<Longrightarrow> p mod alignment info = 0 \<Longrightarrow> block_size info dvd length b \<Longrightarrow>
      blk * block_size info + length b \<le> num_blocks info * block_size info \<Longrightarrow>
      \<exists>r s'. write_blocks io blk p b s = (r, s') \<and> r \<noteq> Panic \<and> invar s'
        \<and> torn (content s) (blk * block_size info) b (content s')
        \<and> (r = Ok () \<longrightarrow> content s' = overwrite (blk * block_size info) b (content s))
        \<and> (reliable \<longrightarrow> r = Ok ())"
begin

abbreviation bs :: nat where "bs \<equiv> block_size info"
abbreviation al :: nat where "al \<equiv> alignment info"
abbreviation total :: nat where "total \<equiv> num_blocks info * block_size info"

text \<open>The device holds \<open>c\<close>, and the scratch buffer has \<open>m\<close> bytes.\<close>

definition good :: "byte list \<Rightarrow> nat \<Rightarrow> 's rw \<Rightarrow> bool" where
  "good c m st \<longleftrightarrow> invar (dev st) \<and> content (dev st) = c \<and> length (scr st) = m"

lemma good_info: "good c m st \<Longrightarrow> io_info io (dev st) = info"
  by (simp add: good_def info_law)

lemma good_geometry: "good c m st \<Longrightarrow> geometry info"
  by (auto simp: good_def geometry_law)

lemmas bs_pos = geometryD(1) [OF good_geometry]
lemmas al_pos = geometryD(2) [OF good_geometry]
lemmas total_fits = geometryD(3) [OF good_geometry]
lemmas total_less = geometryD(4) [OF good_geometry]

lemma good_length: "good c m st \<Longrightarrow> length c = total"
  by (auto simp: good_def content_length)

lemma good_upd [simp]:
  "good c m (st\<lparr> buf := b \<rparr>) = good c m st"
  "good c m (st\<lparr> scr := x \<rparr>) \<longleftrightarrow> good c (length (scr st)) st \<and> length x = m"
  by (auto simp: good_def)

text \<open>What a read of \<open>n\<close> bytes at \<open>off\<close> promises about its outcome and the buffer.\<close>

definition rd :: "byte list \<Rightarrow> nat \<Rightarrow> nat \<Rightarrow> unit res \<Rightarrow> byte list \<Rightarrow> bool" where
  "rd c off n r b \<longleftrightarrow> r \<noteq> Panic \<and> length b = n
     \<and> (r = Ok () \<longrightarrow> b = take n (drop off c) \<and> (n = 0 \<or> off + n \<le> total))
     \<and> (reliable \<and> off + n \<le> total \<longrightarrow> r = Ok ())"

lemma rd_Panic [simp]: "\<not> rd c off n Panic b"
  by (simp add: rd_def)

lemma rd_Err [simp]: "rd c off n (Err e) b \<longleftrightarrow> length b = n \<and> \<not> (reliable \<and> off + n \<le> total)"
  by (auto simp: rd_def)

lemma rd_Ok: "rd c off n (Ok u) b \<longleftrightarrow> length b = n \<and> b = take n (drop off c) \<and> (n = 0 \<or> off + n \<le> total)"
  by (auto simp: rd_def)

lemma read_aligned_all_run:
  assumes g: "good c m st" and n: "length (buf st) = n" and p: "p mod al = 0"
    and d: "bs dvd off" "bs dvd n"
  shows "run (read_aligned_all io off p) st (\<lambda>r st'. good c m st' \<and> rd c off n r (buf st')
    \<and> scr st' = scr st \<and> (r = Ok () \<longrightarrow> off + n \<le> total))"
proof -
  note ck = check_range_eq [OF bs_pos [OF g] al_pos [OF g] d p total_less [OF g]]
  show ?thesis
  proof (cases "off + n \<le> total")
    case True
    have blk: "off div bs * bs = off" using d(1) by simp
    obtain r b' s' where "read_blocks io (off div bs) p (buf st) (dev st) = (r, b', s')" "r \<noteq> Panic"
        "invar s'" "content s' = content (dev st)" "length b' = length (buf st)"
        "r = Ok () \<longrightarrow> b' = take (length (buf st)) (drop off (content (dev st)))" "reliable \<longrightarrow> r = Ok ()"
      using read_law [of "dev st" p "buf st" "off div bs"] g n p d True unfolding blk good_def by blast
    then show ?thesis
      using g True n ck by (simp add: read_aligned_all_def run_simps good_info) (auto simp: run_def good_def rd_def)
  next
    case False
    then show ?thesis
      using g n ck by (auto simp: read_aligned_all_def run_simps good_info)
  qed
qed

text \<open>The scratch a call needs for partial blocks.\<close>

definition scr_ok :: "nat \<Rightarrow> nat \<Rightarrow> bool" where
  "scr_ok sp m \<longleftrightarrow> sp mod al = 0 \<and> (bs \<noteq> 1 \<longrightarrow> bs \<le> m)"

lemma scr_read_run:
  assumes "good c m st" "sp mod al = 0" "bs dvd off" "bs \<le> m"
  shows "run (scr_as_buf 0 bs (read_aligned_all io off sp)) st (\<lambda>r st'. good c m st' \<and> buf st' = buf st
    \<and> r \<noteq> Panic
    \<and> (r = Ok () \<longrightarrow> off + bs \<le> total \<and> take bs (scr st') = take bs (drop off c))
    \<and> (reliable \<and> off + bs \<le> total \<longrightarrow> r = Ok ()))"
proof -
  have m: "length (scr st) = m" using assms(1) by (simp add: good_def)
  have "run (read_aligned_all io off sp) (st\<lparr> buf := take bs (scr st), scr := [] \<rparr>)
      (\<lambda>r st'. good c 0 st' \<and> rd c off bs r (buf st') \<and> scr st' = [] \<and> (r = Ok () \<longrightarrow> off + bs \<le> total))"
    using read_aligned_all_run [of c 0 "st\<lparr> buf := take bs (scr st), scr := [] \<rparr>" bs sp off] assms m
    by (simp add: good_def)
  then show ?thesis
    using assms(4) m unfolding run_scr_as_buf [OF le0 assms(4) [folded m]]
    by (auto elim!: run_mono simp: good_def rd_def overwrite_def)
qed

lemma take_drop_append: "take n (drop off c) @ take k (drop (off + n) c) = take (n + k) (drop off c)"
  by (metis take_add drop_drop add.commute)

lemma block_in_range:
  assumes "bs dvd off" "off < total"
  shows "off + bs \<le> total"
proof -
  obtain k where k: "off = bs * k" using assms(1) by (auto elim: dvdE)
  then have "k < num_blocks info" using assms(2) by (simp add: mult.commute)
  then have "bs * (k + 1) \<le> bs * num_blocks info" by (simp only: mult_le_mono2 Suc_leI add.commute[of k])
  then show ?thesis using k by (simp add: algebra_simps)
qed

lemma read_whole_blocks_run:
  assumes "good c m st" "length (buf st) = len" "p mod al = 0" "bs dvd off" "bs dvd n" "n \<le> len"
  shows "run (if 0 < n then get_mut_buf 0 n (read_aligned_all io off p) else st_lift (Ok ())) st
    (\<lambda>r st'. good c m st' \<and> r \<noteq> Panic \<and> length (buf st') = len
      \<and> (r = Ok () \<longrightarrow> take n (buf st') = take n (drop off c) \<and> (0 < n \<longrightarrow> off + n \<le> total))
      \<and> (reliable \<and> off + n \<le> total \<longrightarrow> r = Ok ()))"
proof (cases "0 < n")
  case True
  have "run (read_aligned_all io off p) (st\<lparr> buf := take n (buf st) \<rparr>)
      (\<lambda>r st'. good c m st' \<and> rd c off n r (buf st') \<and> scr st' = scr st \<and> (r = Ok () \<longrightarrow> off + n \<le> total))"
    using read_aligned_all_run [of c m "st\<lparr> buf := take n (buf st) \<rparr>" n p off] assms by simp
  then show ?thesis
    using assms(2,6) True by (auto elim!: run_mono simp: run_simps rd_def overwrite_def)
next
  case False
  then show ?thesis using assms(1,2) by (simp add: run_simps)
qed

lemma good_scr: "good c m st \<Longrightarrow> length (scr st) = m"
  by (simp add: good_def)

lemma block_part:
  assumes "take n (b :: byte list) = take n (drop o1 c)" "a + k \<le> n" "o1 + n \<le> length c" "n \<le> length b"
  shows "slice_index a (a + k) b = (Ok (take k (drop (o1 + a) c)) :: byte list res)"
    and "length (take k (drop (o1 + a) c)) = k"
proof -
  have k: "min k (n - a) = k" using assms(2) by simp
  have "take k (drop a b) = take k (drop a (take n b))" by (simp add: drop_take k)
  also have "\<dots> = take k (drop a (take n (drop o1 c)))" by (simp only: assms(1))
  also have "\<dots> = take k (drop (o1 + a) c)" by (simp add: drop_take k add.commute [of a])
  finally have eq: "take k (drop a b) = take k (drop (o1 + a) c)" .
  have "slice_index a (a + k) b = (Ok (take k (drop a b)) :: byte list res)"
    using assms(2,4) by simp
  then show "slice_index a (a + k) b = (Ok (take k (drop (o1 + a) c)) :: byte list res)"
    by (simp only: eq)
  show "length (take k (drop (o1 + a) c)) = k" using assms(2,3) by simp
qed

lemma read_tail_block_run:
  assumes g: "good c m st" and len: "length (buf st) = n + k" and k: "0 < k" "k < bs"
    and scr: "sp mod al = 0" "bs \<le> m" and off: "bs dvd off + n" "off + n < U64"
    and pre: "take n (buf st) = take n (drop off c)"
  shows "run (read_tail_block io bs off n k sp) st (\<lambda>r st'. good c m st' \<and> rd c off (n + k) r (buf st'))"
  unfolding read_tail_block_def
proof (rule run_getsI, simp add: good_scr [OF g] scr(2), rule run_liftI, simp add: off(2),
    rule run_thenI [OF scr_read_run [OF g scr(1) off(1) scr(2)]], goal_cases)
  case (1 u st1)
  then have st1: "good c m st1" "buf st1 = buf st" "off + n + bs \<le> total"
    "take bs (scr st1) = take bs (drop (off + n) c)" by auto
  note part = block_part [OF st1(4), of 0 k, unfolded add_0 add_0_right]
  have p: "slice_index 0 k (scr st1) = (Ok (take k (drop (off + n) c)) :: byte list res)"
    "length (take k (drop (off + n) c)) = k"
    using part k(2) st1(3) scr(2) good_scr [OF st1(1)] good_length [OF g] by simp_all
  have "clone_into n (length (buf st)) (take k (drop (off + n) c)) (buf st)
      = (Ok (take (n + k) (drop off c)) :: byte list res)"
    using clone_into_tail [of n "take k (drop (off + n) c)" "buf st"] p(2) len pre
    by (simp add: take_drop_append)
  moreover have "length (take (n + k) (drop off c)) = n + k"
    using st1(3) k(2) good_length [OF g] by simp
  ultimately show ?case using p(1) st1(1-3) k(2) by (simp add: run_simps rd_Ok)
next
  case (2 e st1)
  then show ?case using block_in_range [OF off(1)] k(1) len by auto
qed simp

lemma read_aligned_offset_and_buffer_run:
  assumes g: "good c m st" and len: "length (buf st) = len" and p: "p mod al = 0"
    and off: "bs dvd off" "off < U64" and scr: "scr_ok sp m"
  shows "run (read_aligned_offset_and_buffer io off p sp) st (\<lambda>r st'. good c m st' \<and> rd c off len r (buf st'))"
proof -
  define n where "n = len - len mod bs"
  define k where "k = len mod bs"
  have n: "bs dvd n" "n \<le> len" "n + k = len" "k < bs"
    using bs_pos [OF g] by (simp_all add: n_def k_def dvd_minus_mod)
  have down: "sn_round_down (Inr len) (Inr bs) = Inr n"
    using bs_pos [OF g] by (simp add: round_down_Inr n_def)
  have off0: "off mod bs = 0" using off(1) by simp
  show ?thesis
    unfolding read_aligned_offset_and_buffer_def get_info_def Let_def
  proof (rule run_getsI [where v = info], simp add: good_info [OF g], rule run_getsI [where v = n],
      use off0 p len bs_pos [OF g] al_pos [OF g] in \<open>simp add: down\<close>,
      rule run_thenI [OF read_whole_blocks_run [OF g len p off(1) n(1,2)]], goal_cases)
    case (1 u st1)
    then have st1: "good c m st1" "length (buf st1) = len" "take n (buf st1) = take n (drop off c)"
      "0 < n \<longrightarrow> off + n \<le> total" by auto
    have add: "off + n < U64"
      using st1(4) off(2) total_less [OF g] by (cases "0 < n") auto
    show ?case
    proof (rule run_getsI [where v = "drop n (buf st1)"], use st1(2) n(2) in simp, cases "k = 0")
      case True
      then have "len = n" using n(3) by simp
      then show "run (if drop n (buf st1) = [] then st_lift (Ok ())
          else read_tail_block io bs off n (length (drop n (buf st1))) sp) st1
          (\<lambda>r st'. good c m st' \<and> rd c off len r (buf st'))"
        using st1 by (auto simp: run_simps rd_Ok)
    next
      case False
      then have "sp mod al = 0" "bs \<le> m" using scr n(4) by (auto simp: scr_ok_def)
      moreover have "length (drop n (buf st1)) = k" "drop n (buf st1) \<noteq> []"
        using st1(2) n False by auto
      ultimately show "run (if drop n (buf st1) = [] then st_lift (Ok ())
          else read_tail_block io bs off n (length (drop n (buf st1))) sp) st1
          (\<lambda>r st'. good c m st' \<and> rd c off len r (buf st'))"
        using read_tail_block_run [of c m st1 n k sp off] st1 n off(1) add False
        by (simp del: length_drop)
    qed
  next
    case (2 e st1)
    then show ?case using n by auto
  qed simp
qed

lemma read_from_block_boundary_run:
  assumes g: "good c m st" and len: "length (buf st) = len" and p: "p mod al = 0" and scr: "scr_ok sp m"
    and rel: "rel \<le> len" "rel < len \<longrightarrow> bs dvd off + rel" and off: "off + rel < U64"
  shows "run (read_from_block_boundary io al rel (off + rel) p sp) st (\<lambda>r st'. good c m st'
    \<and> r \<noteq> Panic \<and> length (buf st') = len
    \<and> (r = Ok () \<longrightarrow> drop rel (buf st') = take (len - rel) (drop (off + rel) c) \<and> (rel < len \<longrightarrow> off + len \<le> total))
    \<and> (reliable \<and> off + len \<le> total \<longrightarrow> r = Ok ()))"
proof (cases "rel < len")
  case False
  then show ?thesis using rel(1) g len by (simp add: read_from_block_boundary_def run_simps)
next
  case True
  note ev = read_from_block_boundary_def run_simps True len al_pos [OF g] rel(1)
  show ?thesis
  proof (cases "(p + rel) mod al = 0")
    case direct: True
    have "run (read_aligned_offset_and_buffer io (off + rel) (p + rel) sp) (st\<lparr> buf := drop rel (buf st) \<rparr>)
        (\<lambda>r st'. good c m st' \<and> rd c (off + rel) (len - rel) r (buf st'))"
      using read_aligned_offset_and_buffer_run [OF _ _ direct mp [OF rel(2) True] off scr] g len by simp
    then show ?thesis
      using direct True by (auto elim!: run_mono simp: ev rd_def overwrite_def)
  next
    case moved: False
    let ?Q = "\<lambda>r st'. good c m st' \<and> r \<noteq> Panic \<and> length (buf st') = len
      \<and> (r = Ok () \<longrightarrow> drop rel (buf st') = take (len - rel) (drop (off + rel) c) \<and> (rel < len \<longrightarrow> off + len \<le> total))
      \<and> (reliable \<and> off + len \<le> total \<longrightarrow> r = Ok ())"
    let ?P = "\<lambda>r st'. good c m st' \<and> rd c (off + rel) (len - rel) r (take (len - rel) (buf st')) \<and> length (buf st') = len"
    have "run (read_aligned_offset_and_buffer io (off + rel) p sp) (st\<lparr> buf := take (len - rel) (buf st) \<rparr>)
        (\<lambda>r st'. good c m st' \<and> rd c (off + rel) (len - rel) r (buf st'))"
      using read_aligned_offset_and_buffer_run [OF _ _ p mp [OF rel(2) True] off scr] g len by simp
    then have "run (get_mut_buf 0 (len - rel) (read_aligned_offset_and_buffer io (off + rel) p sp)) st ?P"
      using len by (auto elim!: run_mono simp: run_simps rd_def overwrite_def)
    then have "run (st_then (get_mut_buf 0 (len - rel) (read_aligned_offset_and_buffer io (off + rel) p sp))
        (\<lambda>_. upd_buf (\<lambda>st. copy_within 0 (len - rel) rel (buf st)))) st ?Q"
    proof (rule run_thenI, goal_cases)
      case (1 u st1)
      then have "drop rel (overwrite rel (take (len - rel) (buf st1)) (buf st1)) = take (len - rel) (buf st1)"
        using rel(1) by (simp add: overwrite_def)
      then show ?case
        using 1 True by (auto simp: run_simps copy_within_def rd_Ok)
    qed (use rel(1) in auto)
    then show ?thesis using moved by (simp add: ev)
  qed
qed

lemma read_head_block_run:
  assumes g: "good c m st" and len: "length (buf st) = len" and scr: "sp mod al = 0" "bs \<le> m"
    and a: "off mod bs = a" and rel: "a + rel \<le> bs" "rel \<le> len" "0 < a" and sn: "off < U64"
    and suf: "drop rel (buf st) = take (len - rel) (drop (off + rel) c)"
    and fit: "rel < len \<Longrightarrow> off + len \<le> total"
  shows "run (read_head_block io bs off rel sp) st (\<lambda>r st'. good c m st' \<and> rd c off len r (buf st'))"
proof -
  have o: "a \<le> off" "bs dvd off - a" using a by (auto simp: dvd_minus_mod)
  have down: "sn_round_down (Inr off) (Inr bs) = Inr (off - a)"
    using bs_pos [OF g] a by (simp add: round_down_Inr)
  have bnd: "a + rel < U64" using rel(1) total_fits [OF g] by linarith
  show ?thesis
    unfolding read_head_block_def
  proof (rule run_getsI, simp add: good_scr [OF g] scr(2), rule run_liftI, simp add: down,
      rule run_thenI [OF scr_read_run [OF g scr(1) o(2) scr(2)]], goal_cases)
    case (1 u st1)
    then have st1: "good c m st1" "buf st1 = buf st" "off - a + bs \<le> total"
      "take bs (scr st1) = take bs (drop (off - a) c)" by auto
    note part = block_part [OF st1(4) rel(1)]
    have p: "slice_index a (a + rel) (scr st1) = (Ok (take rel (drop off c)) :: byte list res)"
      "length (take rel (drop off c)) = rel"
      using part scr(2) st1(3) good_scr [OF st1(1)] good_length [OF g] o(1) by simp_all
    have "clone_into 0 rel (take rel (drop off c)) (buf st) = (Ok (take len (drop off c)) :: byte list res)"
      using clone_into_head [OF p(2), of "buf st"] suf len rel(2) take_drop_append [of rel off c "len - rel"] by simp
    moreover have "off + len \<le> total"
      using fit st1(3) rel o(1) by (cases "rel < len") auto
    moreover from this have "length (take len (drop off c)) = len"
      using good_length [OF g] by simp
    moreover have "length (take rel (buf st)) = rel" using rel(2) len by simp
    ultimately show ?case
      using p(1) st1(1,2) rel(2) len bnd o(1) by (simp add: run_simps rd_Ok del: length_take)
  next
    case (2 e st1)
    have "off - a < total" if "off + len \<le> total" using that rel(3) o(1) by linarith
    then show ?case using 2 block_in_range [OF o(2)] len by auto
  qed simp
qed

lemma round_up_gap:
  assumes geo: "geometry info"
  shows "off + bs < U64 \<Longrightarrow> sn_round_up (Inr off) (Inr bs) = Inr (off + align_gap off bs)"
  using round_up_multiple(2) [OF geometryD(1) [OF geo], of off] geometryD(1) [OF geo]
  by (simp add: round_up_Inr align_gap_def minus_mod_eq_div_mult)

lemma round_up_overflow:
  assumes geo: "geometry info"
  shows "U64 \<le> off + bs \<Longrightarrow> sn_round_up (Inr off) (Inr bs) = Inl ()"
  using geometryD(1) [OF geo] by (simp add: round_up_Inr)

lemma gap_unaligned:
  assumes geo: "geometry info"
  shows "off mod bs \<noteq> 0 \<Longrightarrow> align_gap off bs = bs - off mod bs"
proof (rule align_gap_unique [OF geometryD(1) [OF geo]])
  assume "off mod bs \<noteq> 0"
  then show "bs - off mod bs < bs" using geometryD(1) [OF geo] by simp
  have "off + (bs - off mod bs) = off div bs * bs + bs"
    using geometryD(1) [OF geo] mod_less_divisor [OF geometryD(1) [OF geo], of off] div_mult_mod_eq [of off bs] by linarith
  then show "(off + (bs - off mod bs)) mod bs = 0" by simp
qed

text \<open>
  The head of an access that starts inside a block: \<open>rel\<close> bytes up to the block boundary, or the whole
  access. Both directions compute it in the same way.
\<close>

definition head :: "nat \<Rightarrow> nat \<Rightarrow> nat" where
  "head off len = min (bs - off mod bs) len"

lemma head_props:
  assumes geo: "geometry info" and un: "off mod bs \<noteq> 0"
  shows "off mod bs + head off len \<le> bs" "head off len \<le> len" "0 < off mod bs"
    "head off len < len \<longrightarrow> bs dvd off + head off len" "bs \<noteq> 1"
    "off + bs < U64 \<Longrightarrow> min (off + align_gap off bs) (off + len) = off + head off len"
proof -
  have lt: "off mod bs < bs" using geometryD(1) [OF geo] by simp
  then show "off mod bs + head off len \<le> bs" "head off len \<le> len" "0 < off mod bs"
    using un by (auto simp: head_def)
  show "bs \<noteq> 1" using un by auto
  show "min (off + align_gap off bs) (off + len) = off + head off len"
    using gap_unaligned [OF geo un] by (simp add: head_def min_add_distrib_right)
  have "bs dvd off + align_gap off bs"
    using align_gap_props(2) [OF geometryD(1) [OF geo], of off] by (simp add: mod_eq_0_iff_dvd)
  then show "head off len < len \<longrightarrow> bs dvd off + head off len"
    using gap_unaligned [OF geo un] by (auto simp: head_def min_def split: if_splits)
qed

lemma aligned_start_eq:
  assumes geo: "geometry info" and un: "off mod bs \<noteq> 0"
  shows "aligned_start_of off bs len =
     (if off + bs < U64 \<and> off + len < U64 then Ok (off + head off len) else Err ArithmeticOverflow)"
  using head_props(6) [OF geo un]
  by (cases "off + bs < U64") (auto simp: aligned_start_of_def round_up_gap [OF geo] round_up_overflow [OF geo] not_less)

lemma read_aligned_buffer_run:
  assumes g: "good c m st" and len: "length (buf st) = len" and p: "p mod al = 0"
    and scr: "scr_ok sp m" and off: "off < U64"
  shows "run (read_aligned_buffer io off p sp) st (\<lambda>r st'. good c m st' \<and> rd c off len r (buf st'))"
proof (cases "off mod bs = 0")
  case True
  then have "bs dvd off" by (simp add: mod_eq_0_iff_dvd)
  from read_aligned_offset_and_buffer_run [OF g len p this off scr] True show ?thesis
    using p by (simp add: read_aligned_buffer_def get_info_def run_simps good_info [OF g] bs_pos [OF g]
        al_pos [OF g] Let_def)
next
  case un: False
  note h = head_props [OF good_geometry [OF g] un]
  note ev = read_aligned_buffer_def get_info_def good_info [OF g] bs_pos [OF g] al_pos [OF g] p un
    aligned_start_eq [OF good_geometry [OF g] un] len Let_def
  show ?thesis
  proof (cases "off + bs < U64 \<and> off + len < U64")
    case False
    then have "\<not> off + len \<le> total" using total_fits [OF g] total_less [OF g] by auto
    then show ?thesis using g len False by (auto simp: ev run_simps)
  next
    case fits: True
    have scr': "sp mod al = 0" "bs \<le> m" using scr h(5) by (auto simp: scr_ok_def)
    have "off + head off len < U64" using h(2) fits by (meson add_le_cancel_left le_less_trans)
    note mid = read_from_block_boundary_run [OF g len p scr h(2,4) this]
    have "run (st_then (read_from_block_boundary io al (head off len) (off + head off len) p sp)
        (\<lambda>_. read_head_block io bs off (head off len) sp)) st (\<lambda>r st'. good c m st' \<and> rd c off len r (buf st'))"
    proof (rule run_thenI [OF mid], goal_cases)
      case (1 u st1)
      then show ?case
        using read_head_block_run [OF _ _ scr' refl h(1,2,3) off, of c st1 len] by auto
    qed auto
    then show ?thesis using fits by (simp add: ev run_simps)
  qed
qed

lemma split_scratch_ok:
  assumes geo: "geometry info" and fits: "scratch_fits info sp len"
  obtains c a n where "split_scratch info sp len = Ok (c, al - 1, a, n)"
    "(sp + c) mod al = 0" "scr_ok (sp + a) n" "c + (al - 1) \<le> a" "a + n \<le> len"
proof (cases "al = 1")
  case True
  then have "split_scratch info sp len = Ok (0, al - 1, 0, if bs = 1 then 0 else bs)"
    using fits by (auto simp: split_scratch_def scratch_fits_def aligned_subslice_eq)
  then show ?thesis using that fits True by (auto simp: scratch_fits_def scr_ok_def)
next
  case False
  let ?d = "align_gap sp al" and ?n = "if bs = 1 then 0 else bs"
  note d = align_gap_props [OF geometryD(2) [OF geo], of sp]
  have one: "align_gap (sp + ?d + (al - 1)) al = 1"
  proof (rule align_gap_unique [OF geometryD(2) [OF geo]])
    show "1 < al" using False geometryD(2) [OF geo] by linarith
    have "sp + ?d + (al - 1) + 1 = (sp + ?d) + al" using geometryD(2) [OF geo] by simp
    then show "(sp + ?d + (al - 1) + 1) mod al = 0" using d(2) by simp
  qed
  have fit: "?d + al + ?n \<le> len" "sp + len + al < U64" using fits False by (auto simp: scratch_fits_def)
  have "aligned_subslice (sp + ?d + (al - 1)) (len - ?d - (al - 1)) al = Ok 1"
    using fit one geometryD(2) [OF geo] by (auto simp: aligned_subslice_eq)
  moreover have "aligned_subslice sp len al = Ok ?d" using fit geometryD(2) [OF geo] by (auto simp: aligned_subslice_eq)
  ultimately have "split_scratch info sp len = Ok (?d, al - 1, ?d + (al - 1) + 1, ?n)"
    using fit geometryD(2) [OF geo] by (auto simp: split_scratch_def Let_def)
  moreover have "(sp + (?d + (al - 1) + 1)) mod al = 0"
  proof -
    have "sp + (?d + (al - 1) + 1) = (sp + ?d) + al" using geometryD(2) [OF geo] by simp
    then show ?thesis by (simp only: mod_add_self2 d(2))
  qed
  ultimately show ?thesis using that [of ?d "?d + (al - 1) + 1" ?n] d(2) fit geometryD(2) [OF geo]
    by (auto simp: scr_ok_def)
qed

lemma run_scr_scr:
  assumes g: "good c m st" and fit: "a + n \<le> m"
    and body: "\<And>st'. good c n st' \<Longrightarrow> buf st' = buf st \<Longrightarrow> dev st' = dev st \<Longrightarrow>
      run x st' (\<lambda>r st''. good c' n st'' \<and> Q r (buf st''))"
  shows "run (scr_as_scr a n x) st (\<lambda>r st'. good c' m st' \<and> Q r (buf st')
      \<and> take a (scr st') = take a (scr st))"
proof -
  let ?st = "st\<lparr> scr := take n (drop a (scr st)) \<rparr>"
  have m: "length (scr st) = m" using g by (simp add: good_def)
  have "run x ?st (\<lambda>r st''. good c' n st'' \<and> Q r (buf st''))"
    using g fit m by (intro body) (auto simp: good_def)
  then show ?thesis
    using fit m by (auto elim!: run_mono simp: run_simps good_def)
qed

text \<open>The first bytes of an access whose buffer is not aligned, by way of the scratch buffer.\<close>

lemma read_async_head_run:
  assumes g: "good c m st" and len: "length (buf st) = len" and u: "u \<le> len" "b + u \<le> a" "a + n \<le> m"
    and al: "(sp + b) mod al = 0" "scr_ok (sp + a) n" and off: "off < U64"
  shows "run (st_then (scr_as_both b u a n (read_aligned_buffer io off (sp + b) (sp + a))) (\<lambda>_.
      upd_buf (\<lambda>st. if u \<le> length (buf st) then clone_into 0 u (take u (drop b (scr st))) (buf st)
                   else Err (BufferTooSmall None)))) st
    (\<lambda>r st'. good c m st' \<and> r \<noteq> Panic \<and> length (buf st') = len
      \<and> (r = Ok () \<longrightarrow> take u (buf st') = take u (drop off c) \<and> (u = 0 \<or> off + u \<le> total))
      \<and> (reliable \<and> off + u \<le> total \<longrightarrow> r = Ok ()))"
proof -
  have m: "length (scr st) = m" using g by (simp add: good_def)
  have "run (read_aligned_buffer io off (sp + b) (sp + a))
      (st\<lparr> buf := take u (drop b (scr st)), scr := take n (drop a (scr st)) \<rparr>)
      (\<lambda>r st'. good c n st' \<and> rd c off u r (buf st'))"
    using read_aligned_buffer_run [OF _ _ al off, of c "st\<lparr> buf := take u (drop b (scr st)),
      scr := take n (drop a (scr st)) \<rparr>" u] g u m by (simp add: good_def)
  then have "run (scr_as_both b u a n (read_aligned_buffer io off (sp + b) (sp + a))) st
      (\<lambda>r st'. good c m st' \<and> buf st' = buf st \<and> rd c off u r (take u (drop b (scr st'))))"
    unfolding run_scr_as_both [OF u(3) [folded m] le_trans [OF u(2) le_trans [OF le_add1 u(3) [folded m]]]]
  proof (rule run_mono, goal_cases)
    case (1 r st')
    then have "length (buf st') = u" "length (scr st') = n" by (auto simp: rd_def good_def)
    then show ?case
      using 1 u m overwrite_two [of "buf st'" u b a "scr st'" "scr st"] by (simp add: good_def)
  qed
  then show ?thesis
  proof (rule run_thenI, goal_cases)
    case (1 v st')
    then have "length (take u (drop b (scr st'))) = u" "u \<le> length (buf st')"
      "take u (drop b (scr st')) = take u (drop off c)" "u = 0 \<or> off + u \<le> total"
      using u(1) len unfolding rd_Ok by metis+
    then show ?case
      using 1 len by (simp add: run_simps overwrite_def del: length_take)
  qed (use len in auto)
qed

lemma read_async_run:
  assumes g: "good c m st" and len: "length (buf st) = len" and off: "off < U64"
    and scr: "scratch_fits info sp m" and p: "p + len < U64" "p + al < U64"
  shows "run (read_async io off p sp) st (\<lambda>r st'. good c m st' \<and> rd c off len r (buf st'))"
proof -
  obtain b a n where sp: "split_scratch info sp m = Ok (b, al - 1, a, n)"
      "(sp + b) mod al = 0" "scr_ok (sp + a) n" "b + (al - 1) \<le> a" "a + n \<le> m"
    using split_scratch_ok [OF good_geometry [OF g] scr] by blast
  note ev = read_async_def get_info_def run_simps good_info [OF g] good_scr [OF g] sp(1) al_pos [OF g]
    Let_def len
  show ?thesis
  proof (cases "p mod al = 0")
    case True
    have "run (scr_as_scr a n (read_aligned_buffer io off p (sp + a))) st
        (\<lambda>r st'. good c m st' \<and> rd c off len r (buf st') \<and> take a (scr st') = take a (scr st))"
      using read_aligned_buffer_run [OF _ _ True sp(3) off] len
      by (intro run_scr_scr [OF g sp(5)]) auto
    then show ?thesis using True by (auto simp: ev elim!: run_mono)
  next
    case False
    define u where "u = min (align_gap p al) len"
    have u: "u \<le> len" "u \<le> al - 1" "b + u \<le> a" "u \<noteq> len \<longrightarrow> (p + u) mod al = 0"
      using align_gap_props [OF al_pos [OF g], of p] sp(4) by (auto simp: u_def min_def)
    have gap: "sn_try (sn_sub (sn_round_up (Inr p) (Inr al)) (Inr p)) = Ok (align_gap p al)"
      using sn_round_up_sub [of p al] p(2) al_pos [OF g] by (simp add: align_gap_def)
    let ?tail = "st_then (st_gets (\<lambda>st. Ok (length (buf st)))) (\<lambda>len.
       if u = len then st_lift (Ok ())
       else st_then (st_lift (sn_try (sn_add (sn off) (sn u)))) (\<lambda>offset'.
         get_mut_buf u len (scr_as_scr a n (read_aligned_buffer io offset' (p + u) (sp + a)))))"
    let ?head = "st_then (scr_as_both b u a n (read_aligned_buffer io off (sp + b) (sp + a))) (\<lambda>_.
      upd_buf (\<lambda>st. if u \<le> length (buf st) then clone_into 0 u (take u (drop b (scr st))) (buf st)
                   else Err (BufferTooSmall None)))"
    have "run (st_then ?head (\<lambda>_. ?tail)) st (\<lambda>r st'. good c m st' \<and> rd c off len r (buf st'))"
    proof (rule run_thenI [OF read_async_head_run [OF g len u(1,3) sp(5,2,3) off]], goal_cases)
      case (1 v st1)
      then have st1: "good c m st1" "length (buf st1) = len" "take u (buf st1) = take u (drop off c)"
        "u = 0 \<or> off + u \<le> total" by auto
      show ?case
      proof (cases "u = len")
        case True
        then show ?thesis using st1 by (simp add: run_simps rd_Ok)
      next
        case short: False
        have u0: "u \<noteq> 0" using short False u align_gap_zero_iff [OF al_pos [OF g], of p] by (auto simp: u_def)
        then have off2: "off + u < U64" "off + u \<le> total" using st1(4) total_less [OF g] by auto
        let ?st = "st1\<lparr> buf := drop u (buf st1) \<rparr>"
        have "run (scr_as_scr a n (read_aligned_buffer io (off + u) (p + u) (sp + a))) ?st
            (\<lambda>r st'. good c m st' \<and> rd c (off + u) (len - u) r (buf st') \<and> take a (scr st') = take a (scr ?st))"
          using read_aligned_buffer_run [OF _ _ mp [OF u(4) short] sp(3) off2(1)] st1
          by (intro run_scr_scr [of c m ?st a n]) (auto simp: sp(5))
        then show ?thesis
          using short off2 st1 u(1) good_length [OF g]
          by (auto elim!: run_mono simp: run_simps rd_def overwrite_def take_drop_append)
      qed
    qed (use u in auto)
    then show ?thesis using False gap u(2)
      by (simp add: ev st_then_assoc u_def [symmetric])
  qed
qed

end

end
