(* ===== verification/Storage_Write.thy ===== *)
theory Storage_Write
  imports Storage_Correct
begin

text \<open>
  Correctness of writes of arbitrary ranges: the bytes of the range are stored, the caller's buffer is
  as before (it is rotated in between), and no byte outside the range changes, whatever fails.
\<close>

context block_device
begin

text \<open>What a write of \<open>d\<close> at \<open>off\<close> promises about its outcome and the device.\<close>

definition wr :: "byte list \<Rightarrow> nat \<Rightarrow> byte list \<Rightarrow> unit res \<Rightarrow> byte list \<Rightarrow> bool" where
  "wr c off d r c' \<longleftrightarrow> r \<noteq> Panic \<and> torn c off d c'
     \<and> (r = Ok () \<longrightarrow> c' = overwrite off d c \<and> (d = [] \<or> off + length d \<le> total))
     \<and> (reliable \<and> off + length d \<le> total \<longrightarrow> r = Ok ())"

text \<open>A state after a write: the scratch buffer has \<open>m\<close> bytes and the caller's buffer is \<open>b\<close>.\<close>

definition wrote :: "byte list \<Rightarrow> nat \<Rightarrow> byte list \<Rightarrow> nat \<Rightarrow> byte list \<Rightarrow> unit res \<Rightarrow> 's rw \<Rightarrow> bool" where
  "wrote c off d m b r st \<longleftrightarrow> invar (dev st) \<and> length (scr st) = m \<and> buf st = b \<and> wr c off d r (content (dev st))"

lemma wr_Panic [simp]: "\<not> wr c off d Panic c'"
  by (simp add: wr_def)

lemma wr_Nil: "wr c off [] (Ok ()) c"
  by (simp add: wr_def)

lemma write_aligned_all_run:
  assumes g: "good c m st" and n: "length (buf st) = n" and p: "p mod al = 0"
    and d: "bs dvd off" "bs dvd n"
  shows "run (write_aligned_all io off p) st (\<lambda>r st'. wrote c off (buf st) m (buf st) r st'
    \<and> scr st' = scr st \<and> (r = Ok () \<longrightarrow> off + n \<le> total))"
proof -
  note ck = check_range_eq [OF bs_pos [OF g] al_pos [OF g] d p total_less [OF g]]
  show ?thesis
  proof (cases "off + n \<le> total")
    case True
    have blk: "off div bs * bs = off" using d(1) by simp
    obtain r s' where "write_blocks io (off div bs) p (buf st) (dev st) = (r, s')" "r \<noteq> Panic"
        "invar s'" "torn (content (dev st)) off (buf st) (content s')"
        "r = Ok () \<longrightarrow> content s' = overwrite off (buf st) (content (dev st))" "reliable \<longrightarrow> r = Ok ()"
      using write_law [of "dev st" p "buf st" "off div bs"] g n p d True unfolding blk good_def by blast
    then show ?thesis
      using g True n ck
      by (simp add: write_aligned_all_def run_simps good_info) (auto simp: run_def good_def wr_def wrote_def)
  next
    case False
    then show ?thesis
      using g n ck by (auto simp: write_aligned_all_def run_simps good_info good_def wrote_def wr_def)
  qed
qed

text \<open>Writing back the block at \<open>o1\<close> that was read into the scratch buffer and changed at \<open>a\<close>.\<close>

lemma write_back_run:
  assumes g: "good c m st" and scr: "sp mod al = 0" "bs \<le> m" and o1: "bs dvd o1" "o1 + bs \<le> total"
    and blk: "take bs (scr st) = overwrite a x (take bs (drop o1 c))" and a: "a + length x \<le> bs"
  shows "run (scr_as_buf 0 bs (write_aligned_all io o1 sp)) st (wrote c (o1 + a) x m (buf st))"
proof -
  let ?st = "st\<lparr> buf := take bs (scr st), scr := [] \<rparr>"
  have m: "length (scr st) = m" using g by (simp add: good_def)
  have lc: "length c = total" using good_length [OF g] .
  have "run (write_aligned_all io o1 sp) ?st (\<lambda>r st'. wrote c o1 (buf ?st) 0 (buf ?st) r st'
      \<and> scr st' = [] \<and> (r = Ok () \<longrightarrow> o1 + bs \<le> total))"
    using write_aligned_all_run [of c 0 ?st bs sp o1] g scr o1 m by (simp add: good_def)
  then show ?thesis
    unfolding run_scr_as_buf [OF le0 scr(2) [folded m]]
  proof (simp, elim run_mono, goal_cases)
    case (1 r st')
    have "torn c (o1 + a) x (content (dev st'))"
      using 1 torn_block [OF _ a] o1(2) lc by (simp add: wrote_def wr_def blk)
    moreover have "content (dev st') = overwrite (o1 + a) x c" if "r = Ok ()"
      using 1 that o1(2) lc a overwrite_nested [of a x "take bs (drop o1 c)" o1 c]
      by (simp add: wrote_def wr_def blk)
    moreover have "reliable \<longrightarrow> r = Ok ()" using 1 o1(2) scr(2) m by (simp add: wrote_def wr_def)
    ultimately show ?case
      using 1 m scr(2) a o1(2) by (auto simp: wrote_def wr_def overwrite_def)
  qed
qed

text \<open>Composing writes of adjacent parts, in either order.\<close>

lemma wr_length: "wr c off d r c' \<Longrightarrow> length c' = length c"
  by (auto simp: wr_def torn_length)

lemma overwrite_append2:
  "off + length x + length y \<le> length c \<or> y = [] \<Longrightarrow>
   overwrite (off + length x) y (overwrite off x c) = overwrite off (x @ y) c"
  by (auto simp: overwrite_append)

lemma overwrite_append2_rev:
  "off + length x + length y \<le> length c \<or> y = [] \<Longrightarrow>
   overwrite off x (overwrite (off + length x) y c) = overwrite off (x @ y) c"
  by (auto simp: overwrite_append_rev)

lemma wr_append:
  assumes "wr c off x (Ok ()) c1" "wr c1 (off + length x) y r c2" "length c = total"
  shows "wr c off (x @ y) r c2"
  using assms overwrite_append2 [of off x y c] torn_append [of c off x c1 y c2]
  by (auto simp: wr_def add.assoc)

lemma wr_append_rev:
  assumes "wr c (off + length x) y (Ok ()) c1" "wr c1 off x r c2" "length c = total"
  shows "wr c off (x @ y) r c2"
  using assms overwrite_append2_rev [of off x y c] torn_append_rev [of c off x y c1 c2]
  by (auto simp: wr_def add.assoc)

lemma wr_fail:
  assumes "wr c off x (Err e) c1"
  shows "wr c off (x @ y) (Err e) c1"
  using assms torn_append [of c off x c1 y c1] by (auto simp: wr_def)

lemma wr_fail_rev:
  assumes "wr c (off + length x) y (Err e) c1"
  shows "wr c off (x @ y) (Err e) c1"
  using assms torn_append_rev [of c off x y c1 c1] by (auto simp: wr_def add.assoc)

lemma write_whole_blocks_run:
  assumes g: "good c m st" and d: "buf st = d" and p: "p mod al = 0" and n: "bs dvd off" "bs dvd n" "n \<le> length d"
  shows "run (if 0 < n then index_buf 0 n (write_aligned_all io off p) else st_lift (Ok ())) st
    (wrote c off (take n d) m d)"
proof (cases "0 < n")
  case True
  let ?st = "st\<lparr> buf := take n d \<rparr>"
  have "run (write_aligned_all io off p) ?st (\<lambda>r st'. wrote c off (take n d) m (take n d) r st'
      \<and> scr st' = scr ?st \<and> (r = Ok () \<longrightarrow> off + n \<le> total))"
    using write_aligned_all_run [of c m ?st n p off] g p n by simp
  then show ?thesis
    using d n(3) True by (auto elim!: run_mono simp: run_simps wrote_def overwrite_def)
next
  case False
  then show ?thesis using g d by (simp add: run_simps wrote_def good_def wr_Nil)
qed

lemma good_wrote: "wrote c off d m b r st \<Longrightarrow> good (content (dev st)) m st"
  by (simp add: wrote_def good_def)

lemma write_tail_block_run:
  assumes g: "good c m st" and x: "x \<noteq> []" "length x < bs" and scr: "sp mod al = 0" "bs \<le> m"
    and off: "bs dvd off + n"
  shows "run (write_tail_block io bs off n x sp) st (wrote c (off + n) x m (buf st))"
proof (cases "off + n < U64")
  case False
  then have "\<not> off + n + length x \<le> total" using total_less [OF g] by auto
  then show ?thesis
    using False g by (auto simp: write_tail_block_def run_simps wrote_def good_def wr_def)
next
  case True
  show ?thesis
    unfolding write_tail_block_def
  proof (rule run_liftI, simp add: True, rule run_getsI, simp add: good_scr [OF g] scr(2),
      rule run_thenI [OF scr_read_run [OF g scr(1) off scr(2)]], goal_cases)
    case (1 u st1)
    then have st1: "good c m st1" "buf st1 = buf st" "off + n + bs \<le> total"
      "take bs (scr st1) = take bs (drop (off + n) c)" by auto
    have m: "length (scr st1) = m" using good_scr [OF st1(1)] .
    let ?blk = "overwrite 0 x (take bs (drop (off + n) c))"
    have l: "length ?blk = bs" using x(2) st1(3) good_length [OF g] by simp
    have cl: "clone_into 0 (length x) x (take bs (scr st1)) = (Ok ?blk :: byte list res)"
      using x(2) st1(3,4) good_length [OF g] by (simp add: clone_into_def)
    let ?st2 = "st1\<lparr> scr := overwrite 0 ?blk (scr st1) \<rparr>"
    have "run (scr_as_buf 0 bs (write_aligned_all io (off + n) sp)) ?st2 (wrote c (off + n + 0) x m (buf ?st2))"
    proof (rule write_back_run [OF _ scr off st1(3)])
      show "good c m ?st2" using st1(1) l m scr(2) by (simp add: good_def)
      show "take bs (scr ?st2) = ?blk" using l by (simp add: overwrite_def [of 0 ?blk])
    qed (use x(2) in simp)
    then show ?case using cl m scr(2) st1(2) by (simp add: run_simps)
  next
    case (2 e st1)
    then have "\<not> (reliable \<and> off + n + length x \<le> total)"
      using block_in_range [OF off] x(1) by (cases x) auto
    then show ?case using 2 by (auto simp: wrote_def good_def wr_def)
  qed (simp add: wrote_def)
qed

lemma write_aligned_offset_and_buffer_run:
  assumes g: "good c m st" and d: "buf st = d" and p: "p mod al = 0"
    and off: "bs dvd off" and scr: "scr_ok sp m"
  shows "run (write_aligned_offset_and_buffer io off p sp) st (wrote c off d m d)"
proof -
  define n where "n = length d - length d mod bs"
  have n: "bs dvd n" "n \<le> length d" "length (drop n d) < bs" "drop n d = [] \<longleftrightarrow> n = length d"
    using bs_pos [OF g] by (auto simp: n_def dvd_minus_mod)
  have down: "sn_round_down (Inr (length d)) (Inr bs) = Inr n"
    using bs_pos [OF g] by (simp add: round_down_Inr n_def)
  have off0: "off mod bs = 0" using off(1) by simp
  show ?thesis
    unfolding write_aligned_offset_and_buffer_def get_info_def Let_def
  proof (rule run_getsI [where v = info], simp add: good_info [OF g], rule run_getsI [where v = n],
      use off0 p d bs_pos [OF g] al_pos [OF g] in \<open>simp add: down\<close>,
      rule run_thenI [OF write_whole_blocks_run [OF g d p off n(1,2)]], goal_cases)
    case (1 u st1)
    then have b: "buf st1 = d" and w: "wr c off (take n d) (Ok ()) (content (dev st1))"
      by (auto simp: wrote_def)
    show ?case
    proof (rule run_getsI [where v = "drop n d"], use b n(2) in simp, cases "drop n d = []")
      case True
      then show "run (if length (drop n d) = 0 then st_lift (Ok ()) else write_tail_block io bs off n (drop n d) sp)
          st1 (wrote c off d m d)"
        using 1 n(4) by (simp add: run_simps)
    next
      case False
      then have "sp mod al = 0" "bs \<le> m" using scr n(3) by (auto simp: scr_ok_def)
      note tail = write_tail_block_run [OF good_wrote [OF 1] False n(3) this, of off n]
      have "bs dvd off + n" using off n(1) by simp
      from tail [OF this] show "run (if length (drop n d) = 0 then st_lift (Ok ())
          else write_tail_block io bs off n (drop n d) sp) st1 (wrote c off d m d)"
        using False wr_append [OF w, of "drop n d"] good_length [OF g] n(2) b
        by (auto elim!: run_mono simp: wrote_def)
    qed
  next
    case (2 e st1)
    then show ?case using wr_fail [of c off "take n d" e _ "drop n d"] by (simp add: wrote_def)
  qed (simp add: wrote_def)
qed

text \<open>The rotations are inverse to each other.\<close>

lemma rotate_left_eq:
  assumes "sz \<le> length (buf st)" "sz \<le> length (scr st)"
  shows "\<exists>x. rotate_left sz st = (Ok (), st\<lparr> scr := x, buf := drop sz (buf st) @ take sz (buf st) \<rparr>)
    \<and> length x = length (scr st)"
proof -
  have "overwrite (length (buf st) - sz) (take sz (buf st)) (overwrite 0 (drop sz (buf st)) (buf st))
      = drop sz (buf st) @ take sz (buf st)"
    using assms by (simp add: overwrite_def)
  then show ?thesis
    using assms by (intro exI [of _ "take sz (buf st) @ drop sz (scr st)"])
      (auto simp: rotate_left_def st_then_def st_gets_def upd_scr_def upd_buf_def
        copy_within_def clone_into_def overwrite_def [of 0 "take sz (buf st)"])
qed

lemma rotate_right_eq:
  assumes "buf st = y @ x" "length x = sz" "sz \<le> length (scr st)"
  shows "\<exists>s. rotate_right sz st = (Ok (), st\<lparr> scr := s, buf := x @ y \<rparr>) \<and> length s = length (scr st)"
proof -
  have "overwrite 0 x (overwrite sz y (y @ x)) = x @ y"
    using assms(2) by (simp add: overwrite_def)
  then show ?thesis
    using assms by (intro exI [of _ "x @ drop sz (scr st)"])
      (auto simp: rotate_right_def st_then_def st_gets_def upd_scr_def upd_buf_def
        copy_within_def clone_into_def overwrite_def [of 0 x "scr st"])
qed

lemma write_from_block_boundary_run:
  assumes g: "good c m st" and d: "buf st = d" and p: "p mod al = 0" and scr: "scr_ok sp m"
    and rel: "rel \<le> length d" "rel < length d \<longrightarrow> bs dvd off + rel" "rel \<le> m"
  shows "run (write_from_block_boundary io al rel (off + rel) p sp) st (wrote c (off + rel) (drop rel d) m d)"
proof (cases "rel < length d")
  case False
  then show ?thesis
    using rel(1) g d by (simp add: write_from_block_boundary_def run_simps wrote_def good_def wr_Nil)
next
  case True
  note dvd = mp [OF rel(2) True]
  note ev = write_from_block_boundary_def run_simps True d al_pos [OF g]
  show ?thesis
  proof (cases "(p + rel) mod al = 0")
    case direct: True
    have "run (write_aligned_offset_and_buffer io (off + rel) (p + rel) sp) (st\<lparr> buf := drop rel d \<rparr>)
        (wrote c (off + rel) (drop rel d) m (drop rel d))"
      using write_aligned_offset_and_buffer_run [OF _ _ direct dvd scr] g by simp
    then show ?thesis
      using direct rel(1) by (auto elim!: run_mono simp: ev wrote_def overwrite_def)
  next
    case moved: False
    let ?m = "write_aligned_offset_and_buffer io (off + rel) p sp"
    have m: "length (scr st) = m" using g by (simp add: good_def)
    obtain x where rl: "rotate_left rel st = (Ok (), st\<lparr> scr := x, buf := drop rel d @ take rel d \<rparr>)"
        "length x = m"
      using rotate_left_eq [of rel st] d rel m by auto
    let ?st1 = "st\<lparr> scr := x, buf := drop rel d @ take rel d \<rparr>"
    have "run ?m (?st1\<lparr> buf := drop rel d \<rparr>) (wrote c (off + rel) (drop rel d) m (drop rel d))"
      using write_aligned_offset_and_buffer_run [of c m "?st1\<lparr> buf := drop rel d \<rparr>" "drop rel d", OF _ _ p dvd scr]
        g rl(2) by (simp add: good_def)
    then have "run (index_buf 0 (length d - rel) ?m) ?st1 (wrote c (off + rel) (drop rel d) m (drop rel d @ take rel d))"
      by (auto elim!: run_mono simp: run_simps wrote_def overwrite_def)
    then obtain r st2 where st2: "index_buf 0 (length d - rel) ?m ?st1 = (r, st2)"
        "wrote c (off + rel) (drop rel d) m (drop rel d @ take rel d) r st2"
      by (rule runE)
    obtain y where rr: "rotate_right rel st2 = (Ok (), st2\<lparr> scr := y, buf := take rel d @ drop rel d \<rparr>)"
        "length y = m"
      using rotate_right_eq [of st2 "drop rel d" "take rel d" rel] st2(2) rel by (auto simp: wrote_def)
    have "write_from_block_boundary io al rel (off + rel) p sp st = (r, st2\<lparr> scr := y, buf := d \<rparr>)"
      using moved rl(1) st2 rr(1) True d al_pos [OF g] rel(1)
      by (cases r) (simp_all add: write_from_block_boundary_def st_gets_def wrote_def)
    then show ?thesis
      using st2(2) rr(2) by (auto simp: run_def wrote_def)
  qed
qed

lemma write_head_block_run:
  assumes g: "good c m st" and d: "buf st = d" and scr: "sp mod al = 0" "bs \<le> m"
    and a: "off mod bs = a" and rel: "a + rel \<le> bs" "rel \<le> length d" "0 < a"
  shows "run (write_head_block io bs off rel sp) st (wrote c off (take rel d) m d)"
proof -
  have o: "a \<le> off" "bs dvd off - a" using a by (auto simp: dvd_minus_mod)
  have down: "sn_round_down (Inr off) (Inr bs) = Inr (off - a)"
    using bs_pos [OF g] a by (simp add: round_down_Inr)
  have bnd: "a + rel < U64" using rel(1) total_fits [OF g] by linarith
  have lx: "length (take rel d) = rel" using rel(2) by simp
  show ?thesis
    unfolding write_head_block_def
  proof (rule run_getsI, simp add: good_scr [OF g] scr(2), rule run_liftI, simp add: down,
      rule run_thenI [OF scr_read_run [OF g scr(1) o(2) scr(2)]], goal_cases)
    case (1 u st1)
    then have st1: "good c m st1" "buf st1 = d" "off - a + bs \<le> total"
      "take bs (scr st1) = take bs (drop (off - a) c)" by (auto simp: d)
    have m: "length (scr st1) = m" using good_scr [OF st1(1)] .
    let ?blk = "overwrite a (take rel d) (take bs (drop (off - a) c))"
    have l: "length ?blk = bs" using rel lx st1(3) good_length [OF g] by simp
    have cl: "clone_into a (a + rel) (take rel d) (take bs (scr st1)) = (Ok ?blk :: byte list res)"
      using rel lx st1(3,4) good_length [OF g] by (simp add: clone_into_def)
    let ?st2 = "st1\<lparr> scr := overwrite 0 ?blk (scr st1) \<rparr>"
    have "run (scr_as_buf 0 bs (write_aligned_all io (off - a) sp)) ?st2
        (wrote c (off - a + a) (take rel d) m (buf ?st2))"
    proof (rule write_back_run [OF _ scr o(2) st1(3)])
      show "good c m ?st2" using st1(1) l m scr(2) by (simp add: good_def)
      show "take bs (scr ?st2) = ?blk" using l by (simp add: overwrite_def [of 0 ?blk])
    qed (use rel lx in simp)
    then show ?case using cl m scr(2) st1(2) rel bnd o(1) by (simp add: run_simps)
  next
    case (2 e st1)
    have "off - a < total" if "off + rel \<le> total" using that rel(3) o(1) by linarith
    then have "\<not> (reliable \<and> off + length (take rel d) \<le> total)"
      using 2 block_in_range [OF o(2)] lx by auto
    then show ?case using 2 d by (auto simp: wrote_def good_def wr_def)
  qed (simp add: wrote_def)
qed

lemma write_aligned_buffer_run:
  assumes g: "good c m st" and d: "buf st = d" and p: "p mod al = 0"
    and scr: "scr_ok sp m" and off: "off < U64"
  shows "run (write_aligned_buffer io off p sp) st (wrote c off d m d)"
proof (cases "off mod bs = 0")
  case True
  then have "bs dvd off" by (simp add: mod_eq_0_iff_dvd)
  from write_aligned_offset_and_buffer_run [OF g d p this scr] True show ?thesis
    using p by (simp add: write_aligned_buffer_def get_info_def run_simps good_info [OF g] bs_pos [OF g]
        al_pos [OF g] Let_def)
next
  case un: False
  let ?h = "head off (length d)"
  note h = head_props(1,2,4) [OF good_geometry [OF g] un, of "length d"] head_props(3,5) [OF good_geometry [OF g] un]
  note ev = write_aligned_buffer_def get_info_def good_info [OF g] bs_pos [OF g] al_pos [OF g] p un
    aligned_start_eq [OF good_geometry [OF g] un] d Let_def
  show ?thesis
  proof (cases "off + bs < U64 \<and> off + length d < U64")
    case False
    then have "\<not> off + length d \<le> total" using total_fits [OF g] total_less [OF g] by auto
    then show ?thesis using g d False by (auto simp: ev run_simps wrote_def good_def wr_def)
  next
    case fits: True
    have scr': "sp mod al = 0" "bs \<le> m" using scr h(5) by (auto simp: scr_ok_def)
    have "?h \<le> m" using h(1) scr'(2) by linarith
    note mid = write_from_block_boundary_run [OF g d p scr h(2,3) this]
    have "run (st_then (write_from_block_boundary io al ?h (off + ?h) p sp)
        (\<lambda>_. write_head_block io bs off ?h sp)) st (wrote c off d m d)"
    proof (rule run_thenI [OF mid], goal_cases)
      case (1 u st1)
      then have b: "buf st1 = d" and w: "wr c (off + ?h) (drop ?h d) (Ok ()) (content (dev st1))"
        by (auto simp: wrote_def)
      have "run (write_head_block io bs off ?h sp) st1 (wrote (content (dev st1)) off (take ?h d) m d)"
        using write_head_block_run [OF good_wrote [OF 1] b scr' refl h(1,2,4)] .
      then show ?case
        using w wr_append_rev [of c off "take ?h d" "drop ?h d" "content (dev st1)"] h(2) good_length [OF g]
        by (auto elim!: run_mono simp: wrote_def)
    next
      case (2 e st1)
      then show ?case
        using wr_fail_rev [of c off "take ?h d" "drop ?h d"] h(2) by (auto simp: wrote_def)
    qed (simp add: wrote_def)
    then show ?thesis using fits by (simp add: ev run_simps)
  qed
qed

lemma write_async_head_run:
  assumes g: "good c m st" and d: "buf st = d" and u: "u \<le> length d" "b + u \<le> a" "a + n \<le> m"
    and al: "(sp + b) mod al = 0" "scr_ok (sp + a) n" and off: "off < U64"
  shows "run (st_then (upd_scr (\<lambda>st. and_then (slice_index 0 u (buf st)) (\<lambda>src.
         clone_into b (b + u) src (scr st)))) (\<lambda>_.
       scr_as_both b u a n (write_aligned_buffer io off (sp + b) (sp + a)))) st (wrote c off (take u d) m d)"
proof -
  have m: "length (scr st) = m" using g by (simp add: good_def)
  let ?s = "overwrite b (take u d) (scr st)"
  have s: "length ?s = m" "take u (drop b ?s) = take u d"
    using u m take_drop_overwrite_same [of b "take u d" "scr st"] by simp_all
  let ?st = "st\<lparr> scr := ?s \<rparr>"
  let ?st1 = "?st\<lparr> buf := take u d, scr := take n (drop a ?s) \<rparr>"
  have "run (write_aligned_buffer io off (sp + b) (sp + a)) ?st1 (wrote c off (take u d) n (take u d))"
    using write_aligned_buffer_run [of c n ?st1 "take u d", OF _ _ al off] g u s by (simp add: good_def)
  then have "run (scr_as_both b u a n (write_aligned_buffer io off (sp + b) (sp + a))) ?st (wrote c off (take u d) m d)"
    using u s m d overwrite_two(2) [of "take u d" u b a _ ?s]
    by (auto elim!: run_mono simp: run_simps wrote_def)
  moreover have "clone_into b (b + u) (take u d) (scr st) = (Ok ?s :: byte list res)"
    using u m by (simp add: clone_into_def)
  ultimately show ?thesis using u(1) d by (simp add: run_simps)
qed

lemma run_scr_wrote:
  assumes g: "good c m st" and fit: "a + n \<le> m"
    and body: "\<And>st'. good c n st' \<Longrightarrow> buf st' = buf st \<Longrightarrow> run x st' (wrote c off d n (buf st))"
  shows "run (scr_as_scr a n x) st (wrote c off d m (buf st))"
proof -
  let ?st = "st\<lparr> scr := take n (drop a (scr st)) \<rparr>"
  have m: "length (scr st) = m" using g by (simp add: good_def)
  have "run x ?st (wrote c off d n (buf st))"
    using g fit m by (intro body) (auto simp: good_def)
  then show ?thesis
    using fit m by (auto elim!: run_mono simp: run_simps wrote_def)
qed

lemma write_async_run:
  assumes g: "good c m st" and d: "buf st = d" and off: "off < U64"
    and scr: "scratch_fits info sp m" and p: "p + length d < U64" "p + al < U64"
  shows "run (write_async io off p sp) st (wrote c off d m d)"
proof -
  obtain b a n where sp: "split_scratch info sp m = Ok (b, al - 1, a, n)"
      "(sp + b) mod al = 0" "scr_ok (sp + a) n" "b + (al - 1) \<le> a" "a + n \<le> m"
    using split_scratch_ok [OF good_geometry [OF g] scr] by blast
  note ev = write_async_def get_info_def good_info [OF g] good_scr [OF g] sp(1) al_pos [OF g]
    Let_def d
  show ?thesis
  proof (cases "p mod al = 0")
    case True
    have "run (scr_as_scr a n (write_aligned_buffer io off p (sp + a))) st (wrote c off d m (buf st))"
      using write_aligned_buffer_run [OF _ _ True sp(3) off] d by (intro run_scr_wrote [OF g sp(5)]) auto
    then show ?thesis using True by (simp add: ev run_simps)
  next
    case False
    define u where "u = min (align_gap p al) (length d)"
    have u: "u \<le> length d" "u \<le> al - 1" "b + u \<le> a" "u \<noteq> length d \<longrightarrow> (p + u) mod al = 0"
      using align_gap_props [OF al_pos [OF g], of p] sp(4) by (auto simp: u_def min_def)
    have gap: "sn_try (sn_sub (sn_round_up (Inr p) (Inr al)) (Inr p)) = Ok (align_gap p al)"
      using sn_round_up_sub [of p al] p(2) al_pos [OF g] by (simp add: align_gap_def)
    let ?head = "st_then (upd_scr (\<lambda>st. and_then (slice_index 0 u (buf st)) (\<lambda>src.
         clone_into b (b + u) src (scr st)))) (\<lambda>_.
       scr_as_both b u a n (write_aligned_buffer io off (sp + b) (sp + a)))"
    let ?tail = "st_then (st_gets (\<lambda>st. Ok (length (buf st)))) (\<lambda>len.
       if u = len then st_lift (Ok ())
       else st_then (st_lift (sn_try (sn_add (sn off) (sn u)))) (\<lambda>offset'.
         index_buf u len (scr_as_scr a n (write_aligned_buffer io offset' (p + u) (sp + a)))))"
    have "run (st_then ?head (\<lambda>_. ?tail)) st (wrote c off d m d)"
    proof (rule run_thenI [OF write_async_head_run [OF g d u(1,3) sp(5,2,3) off]], goal_cases)
      case (1 v st1)
      then have b: "buf st1 = d" and w: "wr c off (take u d) (Ok ()) (content (dev st1))"
        by (auto simp: wrote_def)
      show ?case
      proof (cases "u = length d")
        case True
        then show ?thesis using 1 b by (simp add: run_simps)
      next
        case short: False
        have "take u d \<noteq> []" using short False u align_gap_zero_iff [OF al_pos [OF g], of p] by (auto simp: u_def)
        then have off2: "off + u < U64" using w total_less [OF g] u(1) by (auto simp: wr_def)
        let ?st = "st1\<lparr> buf := drop u d \<rparr>" and ?c = "content (dev st1)"
        have "run (scr_as_scr a n (write_aligned_buffer io (off + u) (p + u) (sp + a))) ?st
            (wrote ?c (off + u) (drop u d) m (buf ?st))"
          using write_aligned_buffer_run [OF _ _ mp [OF u(4) short] sp(3) off2] good_wrote [OF 1]
          by (intro run_scr_wrote [of ?c m ?st a n]) (auto simp: sp(5))
        then show ?thesis
          using short off2 b u(1) w wr_append [OF w, of "drop u d"] good_length [OF g]
          by (auto elim!: run_mono simp: run_simps wrote_def overwrite_def)
      qed
    next
      case (2 e st1)
      then show ?case using wr_fail [of c off "take u d" e _ "drop u d"] by (simp add: wrote_def)
    qed (simp add: wrote_def)
    then show ?thesis using False gap u(2)
      by (simp add: ev run_then_gets run_then_lift st_then_assoc u_def [symmetric])
  qed
qed

end

end
