(* ===== verification/Ram_Block.thy ===== *)
theory Ram_Block
  imports Storage_Write
begin

text \<open>
  \<open>RamBlockIo\<close>: a block device in memory, with an injected error for the next access. It keeps the
  contract of a block device for every geometry; without an injected error it is reliable. The access
  algorithms are therefore correct on it.
\<close>

section \<open>Device\<close>

record ram_block_io =
  ram_block_size :: nat
  ram_alignment :: nat
  storage :: "byte list"
  num_writes :: nat
  num_reads :: nat
  ram_error :: "error option"

definition ram_new :: "nat \<Rightarrow> nat \<Rightarrow> byte list \<Rightarrow> ram_block_io res" where
  "ram_new bs al st =
     (if bs = 0 \<or> length st mod bs \<noteq> 0 then Panic
      else Ok \<lparr> ram_block_size = bs, ram_alignment = al, storage = st, num_writes = 0, num_reads = 0,
               ram_error = None \<rparr>)"

text \<open>\<open>assert!(c.unwrap_or(false))\<close>\<close>

definition assert_ok :: "bool res \<Rightarrow> unit res" where
  "assert_ok c = (case c of Ok True \<Rightarrow> Ok () | _ \<Rightarrow> Panic)"

text \<open>Takes the injected error, if any, and computes the byte offset.\<close>

definition ram_checks :: "nat \<Rightarrow> nat \<Rightarrow> nat \<Rightarrow> (ram_block_io, nat) io" where
  "ram_checks blk_offset p len self =
     (case and_then (assert_ok (is_buffer_aligned p (ram_alignment self))) (\<lambda>_.
             assert_ok (is_aligned (sn len) (sn (ram_block_size self)))) of
        Ok _ \<Rightarrow>
          (case ram_error self of
             Some e \<Rightarrow> (Err e, self\<lparr> ram_error := None \<rparr>)
           | None \<Rightarrow> (unwrap (sn_try (sn_mul (sn blk_offset) (sn (ram_block_size self)))), self))
      | Err e \<Rightarrow> (Err e, self)
      | Panic \<Rightarrow> (Panic, self))"

definition ram_info :: "ram_block_io \<Rightarrow> block_info" where
  "ram_info self = \<lparr> block_size = ram_block_size self,
     num_blocks = length (storage self) div ram_block_size self, alignment = ram_alignment self \<rparr>"

definition ram_read_blocks :: "nat \<Rightarrow> nat \<Rightarrow> byte list \<Rightarrow> ram_block_io \<Rightarrow> unit res \<times> byte list \<times> ram_block_io" where
  "ram_read_blocks blk_offset p out self =
     (case ram_checks blk_offset p (length out) self of
        (Ok offset, self') \<Rightarrow>
          (case slice_get offset (offset + length out) (storage self') of
             Some b \<Rightarrow> (Ok (), b, self') | None \<Rightarrow> (Panic, out, self'))
      | (Err e, self') \<Rightarrow> (Err e, out, self')
      | (Panic, self') \<Rightarrow> (Panic, out, self'))"

definition ram_write_blocks :: "nat \<Rightarrow> nat \<Rightarrow> byte list \<Rightarrow> (ram_block_io, unit) io" where
  "ram_write_blocks blk_offset p data self =
     (case ram_checks blk_offset p (length data) self of
        (Ok offset, self') \<Rightarrow>
          if offset + length data \<le> length (storage self')
          then (Ok (), self'\<lparr> storage := overwrite offset data (storage self') \<rparr>)
          else (Panic, self')
      | (Err e, self') \<Rightarrow> (Err e, self')
      | (Panic, self') \<Rightarrow> (Panic, self'))"

definition ram_block_ops :: "ram_block_io block_io" where
  "ram_block_ops = \<lparr> io_info = ram_info, read_blocks = ram_read_blocks, write_blocks = ram_write_blocks \<rparr>"

section \<open>Contract\<close>

definition ram_ok :: "block_info \<Rightarrow> ram_block_io \<Rightarrow> bool" where
  "ram_ok info s \<longleftrightarrow> geometry info \<and> ram_block_size s = block_size info \<and> ram_alignment s = alignment info
     \<and> length (storage s) = num_blocks info * block_size info"

lemma ram_info_ok: "ram_ok info s \<Longrightarrow> ram_info s = info"
  by (auto simp: ram_ok_def ram_info_def geometry_def)

lemma ram_checks_ok:
  assumes "ram_ok info s" "p mod alignment info = 0" "block_size info dvd len"
    "blk * block_size info + len \<le> num_blocks info * block_size info"
  shows "ram_checks blk p len s = (case ram_error s of
      Some e \<Rightarrow> (Err e, s\<lparr> ram_error := None \<rparr>) | None \<Rightarrow> (Ok (blk * block_size info), s))"
proof -
  have "blk * block_size info < U64"
    using assms(1,4) by (auto simp: ram_ok_def geometry_def)
  moreover have "0 < alignment info" "0 < block_size info"
    using assms(1) by (auto simp: ram_ok_def geometry_def)
  ultimately show ?thesis
    using assms by (auto simp: ram_checks_def ram_ok_def assert_ok_def split: option.split)
qed

lemma ram_contract:
  assumes "ram_ok info s" "p mod alignment info = 0" "block_size info dvd length b"
    "blk * block_size info + length b \<le> num_blocks info * block_size info"
  shows "read_blocks ram_block_ops blk p b s = (case ram_error s of
      Some e \<Rightarrow> (Err e, b, s\<lparr> ram_error := None \<rparr>)
    | None \<Rightarrow> (Ok (), take (length b) (drop (blk * block_size info) (storage s)), s))"
   and "write_blocks ram_block_ops blk p b s = (case ram_error s of
      Some e \<Rightarrow> (Err e, s\<lparr> ram_error := None \<rparr>)
    | None \<Rightarrow> (Ok (), s\<lparr> storage := overwrite (blk * block_size info) b (storage s) \<rparr>))"
  using assms ram_checks_ok [OF assms]
  by (auto simp: ram_block_ops_def ram_read_blocks_def ram_write_blocks_def ram_ok_def split: option.split)

interpretation ram: block_device ram_block_ops info storage
    "\<lambda>s. ram_ok info s \<and> ram_error s = None" True for info :: block_info
proof unfold_locales
  fix s :: ram_block_io and p blk :: nat and b :: "byte list"
  assume a: "ram_ok info s \<and> ram_error s = None" "p mod alignment info = 0" "block_size info dvd length b"
    "blk * block_size info + length b \<le> num_blocks info * block_size info"
  note c = ram_contract [OF conjunct1 [OF a(1)] a(2-4)]
  have len: "blk * block_size info + length b \<le> length (storage s)" using a by (simp add: ram_ok_def)
  show "\<exists>r b' s'. read_blocks ram_block_ops blk p b s = (r, b', s') \<and> r \<noteq> Panic
      \<and> (ram_ok info s' \<and> ram_error s' = None) \<and> storage s' = storage s \<and> length b' = length b
      \<and> (r = Ok () \<longrightarrow> b' = take (length b) (drop (blk * block_size info) (storage s))) \<and> (True \<longrightarrow> r = Ok ())"
    using c(1) a(1) len by simp
  show "\<exists>r s'. write_blocks ram_block_ops blk p b s = (r, s') \<and> r \<noteq> Panic
      \<and> (ram_ok info s' \<and> ram_error s' = None) \<and> torn (storage s) (blk * block_size info) b (storage s')
      \<and> (r = Ok () \<longrightarrow> storage s' = overwrite (blk * block_size info) b (storage s)) \<and> (True \<longrightarrow> r = Ok ())"
    using c(2) a(1) len torn_overwrite [OF len] by (simp add: ram_ok_def)
qed (auto simp: ram_block_ops_def ram_info_ok ram_ok_def)

text \<open>With an injected error the next access fails and changes nothing.\<close>

interpretation faulty_ram: block_device ram_block_ops info storage "ram_ok info" False for info :: block_info
proof unfold_locales
  fix s :: ram_block_io and p blk :: nat and b :: "byte list"
  assume a: "ram_ok info s" "p mod alignment info = 0" "block_size info dvd length b"
    "blk * block_size info + length b \<le> num_blocks info * block_size info"
  note c = ram_contract [OF a]
  have len: "blk * block_size info + length b \<le> length (storage s)" using a by (simp add: ram_ok_def)
  show "\<exists>r b' s'. read_blocks ram_block_ops blk p b s = (r, b', s') \<and> r \<noteq> Panic
      \<and> ram_ok info s' \<and> storage s' = storage s \<and> length b' = length b
      \<and> (r = Ok () \<longrightarrow> b' = take (length b) (drop (blk * block_size info) (storage s))) \<and> (False \<longrightarrow> r = Ok ())"
    using c(1) a(1) len by (cases "ram_error s") (auto simp: ram_ok_def)
  show "\<exists>r s'. write_blocks ram_block_ops blk p b s = (r, s') \<and> r \<noteq> Panic
      \<and> ram_ok info s' \<and> torn (storage s) (blk * block_size info) b (storage s')
      \<and> (r = Ok () \<longrightarrow> storage s' = overwrite (blk * block_size info) b (storage s)) \<and> (False \<longrightarrow> r = Ok ())"
    using c(2) a(1) len torn_overwrite [OF len] by (cases "ram_error s") (auto simp: ram_ok_def)
qed (auto simp: ram_block_ops_def ram_info_ok ram_ok_def)

end
