(* ===== verification/Disk.thy ===== *)
theory Disk
  imports Ram_Block
begin

text \<open>
  \<open>Disk\<close>: a block device with its own scratch buffer, read, written and filled at arbitrary ranges.
  The scratch buffer has an address \<open>disk_scratch_addr\<close>; where the allocator places it is an argument of
  the constructors.
\<close>

section \<open>Operations\<close>

record 's disk =
  disk_io :: 's
  disk_scratch :: "byte list"
  disk_scratch_addr :: nat

definition disk_new :: "'s block_io \<Rightarrow> 's \<Rightarrow> nat \<Rightarrow> byte list \<Rightarrow> 's disk res" where
  "disk_new io s sp scratch =
     and_then (scratch_size (io_info io s)) (\<lambda>sz.
       if length scratch < sz then Err (BufferTooSmall (Some sz))
       else Ok \<lparr> disk_io = s, disk_scratch = scratch, disk_scratch_addr = sp \<rparr>)"

definition disk_new_alloc_scratch :: "'s block_io \<Rightarrow> 's \<Rightarrow> nat \<Rightarrow> 's disk res" where
  "disk_new_alloc_scratch io s sp =
     and_then (scratch_size (io_info io s)) (\<lambda>sz. disk_new io s sp (replicate sz 0))"

definition disk_as_borrowed :: "'s block_io \<Rightarrow> 's disk \<Rightarrow> 's disk res" where
  "disk_as_borrowed io self =
     unwrap (disk_new io (disk_io self) (disk_scratch_addr self) (disk_scratch self))"

definition disk_block_info :: "'s block_io \<Rightarrow> 's disk \<Rightarrow> block_info" where
  "disk_block_info io self = io_info io (disk_io self)"

definition disk_new_ram_alloc :: "nat \<Rightarrow> nat \<Rightarrow> byte list \<Rightarrow> nat \<Rightarrow> ram_block_io disk res" where
  "disk_new_ram_alloc bs al st sp =
     and_then (ram_new bs al st) (\<lambda>ram_blk. disk_new_alloc_scratch ram_block_ops ram_blk sp)"

text \<open>Reads and writes return the contents of the caller's buffer at \<open>p\<close>.\<close>

definition disk_read :: "'s block_io \<Rightarrow> nat \<Rightarrow> nat \<Rightarrow> byte list \<Rightarrow> 's disk \<Rightarrow> unit res \<times> byte list \<times> 's disk" where
  "disk_read io offset p out self =
     (case read_async io offset p (disk_scratch_addr self)
             \<lparr> dev = disk_io self, buf = out, scr = disk_scratch self \<rparr> of
        (r, st) \<Rightarrow> (r, buf st, self\<lparr> disk_io := dev st, disk_scratch := scr st \<rparr>))"

definition disk_write :: "'s block_io \<Rightarrow> nat \<Rightarrow> nat \<Rightarrow> byte list \<Rightarrow> 's disk \<Rightarrow> unit res \<times> byte list \<times> 's disk" where
  "disk_write io offset p data self =
     (case write_async io offset p (disk_scratch_addr self)
             \<lparr> dev = disk_io self, buf = data, scr = disk_scratch self \<rparr> of
        (r, st) \<Rightarrow> (r, buf st, self\<lparr> disk_io := dev st, disk_scratch := scr st \<rparr>))"

text \<open>The part of the scratch buffer of \<open>len\<close> bytes at \<open>q\<close> that \<open>fill\<close> writes from: start and length.\<close>

definition fill_buf :: "block_info \<Rightarrow> nat \<Rightarrow> nat \<Rightarrow> (nat \<times> nat) res" where
  "fill_buf info q len =
     (case aligned_subslice q len (alignment info) of
        Ok a \<Rightarrow>
          if block_size info = 0 then Panic
          else let b = (len - a) div block_size info
               in if b > 0 then Ok (a, b * block_size info) else Ok (a, len - a)
      | Err _ \<Rightarrow> Ok (0, len)
      | Panic \<Rightarrow> Panic)"

text \<open>\<open>None\<close>: the loop does not end.\<close>

partial_function (option) fill_loop ::
  "'s block_io \<Rightarrow> nat \<Rightarrow> nat \<Rightarrow> nat \<Rightarrow> nat \<Rightarrow> byte list \<Rightarrow> 's disk \<Rightarrow> (unit res \<times> byte list \<times> 's disk) option" where
  "fill_loop io offset stop sz p bytes self =
     (if offset < stop then
        let to_write = min sz (stop - offset) in
        case disk_write io offset p (take to_write bytes) self of
          (Ok u, b, self') \<Rightarrow> fill_loop io (offset + to_write) stop sz p (b @ drop to_write bytes) self'
        | (Err e, b, self') \<Rightarrow> Some (Err e, b @ drop to_write bytes, self')
        | (Panic, b, self') \<Rightarrow> Some (Panic, b @ drop to_write bytes, self')
      else Some (Ok (), bytes, self))"

definition disk_fill ::
  "'s block_io \<Rightarrow> nat \<Rightarrow> nat \<Rightarrow> byte \<Rightarrow> nat \<Rightarrow> byte list \<Rightarrow> 's disk \<Rightarrow> (unit res \<times> byte list \<times> 's disk) option" where
  "disk_fill io offset len val q scratch self =
     (if scratch = [] then Some (Err InvalidInput, scratch, self)
      else case fill_buf (disk_block_info io self) q (length scratch) of
        Ok (a, n) \<Rightarrow>
          let sz = min len n;
              bytes = overwrite 0 (replicate sz val) (take n (drop a scratch))
          in (case sn_try (sn_add (sn offset) (sn len)) of
                Ok stop \<Rightarrow> map_option (\<lambda>(r, b, self'). (r, overwrite a b scratch, self'))
                  (fill_loop io offset stop sz (q + a) bytes self)
              | Err e \<Rightarrow> Some (Err e, overwrite a bytes scratch, self)
              | Panic \<Rightarrow> Some (Panic, overwrite a bytes scratch, self))
      | Err e \<Rightarrow> Some (Err e, scratch, self)
      | Panic \<Rightarrow> Some (Panic, scratch, self))"

section \<open>Correctness over any block device\<close>

context block_device
begin

definition disk_ok :: "'s disk \<Rightarrow> bool" where
  "disk_ok d \<longleftrightarrow> invar (disk_io d) \<and> scratch_fits info (disk_scratch_addr d) (length (disk_scratch d))"

definition addr_ok :: "nat \<Rightarrow> nat \<Rightarrow> bool" where
  "addr_ok p len \<longleftrightarrow> p + len < U64 \<and> p + al < U64"

lemma disk_read_ok:
  assumes "disk_ok d" "off < U64" "addr_ok p (length out)"
  shows "\<exists>r b d'. disk_read io off p out d = (r, b, d') \<and> disk_ok d'
    \<and> content (disk_io d') = content (disk_io d) \<and> rd (content (disk_io d)) off (length out) r b"
proof -
  let ?st = "\<lparr> dev = disk_io d, buf = out, scr = disk_scratch d \<rparr>"
  have "run (read_async io off p (disk_scratch_addr d)) ?st (\<lambda>r st'.
      good (content (disk_io d)) (length (disk_scratch d)) st' \<and> rd (content (disk_io d)) off (length out) r (buf st'))"
    by (rule read_async_run) (use assms in \<open>auto simp: good_def disk_ok_def addr_ok_def\<close>)
  then show ?thesis
    by (rule runE) (use assms in \<open>auto simp: disk_read_def disk_ok_def good_def\<close>)
qed

lemma disk_write_ok:
  assumes "disk_ok d" "off < U64" "addr_ok p (length data)"
  shows "\<exists>r d'. disk_write io off p data d = (r, data, d') \<and> disk_ok d'
    \<and> wr (content (disk_io d)) off data r (content (disk_io d'))"
proof -
  let ?st = "\<lparr> dev = disk_io d, buf = data, scr = disk_scratch d \<rparr>"
  have "run (write_async io off p (disk_scratch_addr d)) ?st
      (wrote (content (disk_io d)) off data (length (disk_scratch d)) data)"
    by (rule write_async_run) (use assms in \<open>auto simp: good_def disk_ok_def addr_ok_def\<close>)
  then show ?thesis
    by (rule runE) (use assms in \<open>auto simp: disk_write_def disk_ok_def wrote_def\<close>)
qed

lemma disk_ok_length: "disk_ok d \<Longrightarrow> length (content (disk_io d)) = total"
  by (simp add: disk_ok_def content_length)

text \<open>The loop writes the fill value to the whole range if its buffer is not empty.\<close>

lemma fill_loop_ok:
  assumes "disk_ok d" "off \<le> stop" "stop < U64" "addr_ok p sz" "0 < sz \<or> off = stop"
    "take sz bytes = replicate sz val"
  shows "\<exists>r d'. fill_loop io off stop sz p bytes d = Some (r, bytes, d') \<and> disk_ok d'
    \<and> wr (content (disk_io d)) off (replicate (stop - off) val) r (content (disk_io d'))"
  using assms
proof (induction "stop - off" arbitrary: off d rule: less_induct)
  case less
  show ?case
  proof (cases "off < stop")
    case False
    then show ?thesis
      using less.prems by (intro exI [of _ "Ok ()"] exI [of _ d], subst fill_loop.simps) (simp add: wr_Nil)
  next
    case True
    define k where "k = min sz (stop - off)"
    have k: "0 < k" "k \<le> sz" "off + k \<le> stop" using True less.prems(5) by (auto simp: k_def)
    have tk: "take k bytes = replicate k val"
      using less.prems(6) k(2) by (metis min.absorb1 take_replicate take_take)
    have split: "replicate (stop - off) val = replicate k val @ replicate (stop - (off + k)) val"
      using k(3) by (simp flip: replicate_add)
    have "addr_ok p (length (take k bytes))"
      using less.prems(4) k(2) tk by (simp add: addr_ok_def)
    then obtain r d1 where w: "disk_write io off p (take k bytes) d = (r, take k bytes, d1)" "disk_ok d1"
        "wr (content (disk_io d)) off (take k bytes) r (content (disk_io d1))"
      using disk_write_ok [OF less.prems(1), of off p "take k bytes"] less.prems(2,3) True by auto
    have step: "fill_loop io off stop sz p bytes d = (case r of
        Ok _ \<Rightarrow> fill_loop io (off + k) stop sz p bytes d1 | Err e \<Rightarrow> Some (Err e, bytes, d1)
      | Panic \<Rightarrow> Some (Panic, bytes, d1))"
      using True by (subst fill_loop.simps) (simp add: k_def [symmetric] w(1) Let_def split: result.split)
    note w' = w(3) [unfolded tk]
    show ?thesis
    proof (cases r)
      case (Ok u)
      have "\<exists>r d'. fill_loop io (off + k) stop sz p bytes d1 = Some (r, bytes, d') \<and> disk_ok d'
        \<and> wr (content (disk_io d1)) (off + k) (replicate (stop - (off + k)) val) r (content (disk_io d'))"
        by (rule less.hyps) (use less.prems w(2) k True in auto)
      then show ?thesis
        using wr_append [of "content (disk_io d)" off "replicate k val" "content (disk_io d1)"]
          w' Ok disk_ok_length [OF less.prems(1)] by (auto simp: step split)
    next
      case (Err e)
      then show ?thesis
        using wr_fail [OF w' [unfolded Err]] w(2) by (auto simp: step split)
    qed (use w(3) in simp)
  qed
qed

lemma fill_buf_ok:
  assumes "geometry info" "q + al < U64" "0 < len" "align_gap q al \<noteq> len"
  obtains a n where "fill_buf info q len = Ok (a, n)" "0 < n" "a + n \<le> len"
proof (cases "align_gap q al < len")
  case True
  define m where "m = len - align_gap q al"
  have m: "m div bs * bs \<le> m" "0 < bs" "0 < m" "align_gap q al + m = len"
    using geometryD [OF assms(1)] True by (simp_all add: m_def)
  have fb: "fill_buf info q len = Ok (align_gap q al, if 0 < m div bs then m div bs * bs else m)"
    using True m(2) assms(2) geometryD(2) [OF assms(1)] by (simp add: fill_buf_def aligned_subslice_eq Let_def m_def)
  show ?thesis by (rule that [OF fb]) (use m in auto)
next
  case False
  then show ?thesis
    using that [of 0 len] assms geometryD [OF assms(1)] by (auto simp: fill_buf_def aligned_subslice_eq)
qed

lemma disk_fill_ok:
  assumes d: "disk_ok d" and q: "q + length scratch + al < U64" "scratch \<noteq> []" "align_gap q al \<noteq> length scratch"
    and off: "off + len < U64"
  shows "\<exists>r b d'. disk_fill io off len val q scratch d = Some (r, b, d') \<and> disk_ok d' \<and> length b = length scratch
    \<and> wr (content (disk_io d)) off (replicate len val) r (content (disk_io d'))"
proof -
  have inv: "io_info io (disk_io d) = info" and geo: "geometry info"
    using d by (auto simp: disk_ok_def info_law geometry_law)
  obtain a n where fb: "fill_buf info q (length scratch) = Ok (a, n)" "0 < n" "a + n \<le> length scratch"
    using fill_buf_ok [OF geo _ _ q(3)] q by auto
  define bytes where "bytes = overwrite 0 (replicate (min len n) val) (take n (drop a scratch))"
  have lb: "length bytes = n" "take (min len n) bytes = replicate (min len n) val"
    using fb(3) by (simp_all add: bytes_def overwrite_def)
  obtain r d' where l: "fill_loop io off (off + len) (min len n) (q + a) bytes d = Some (r, bytes, d')"
      "disk_ok d'" "wr (content (disk_io d)) off (replicate len val) r (content (disk_io d'))"
    using fill_loop_ok [OF d _ off _ _ lb(2), of off "q + a"] fb q(1)
    by (force simp: addr_ok_def min_def split: if_splits)
  show ?thesis
    using l lb(1) q(2) fb(3)
    by (auto simp: disk_fill_def disk_block_info_def inv fb(1) off Let_def bytes_def [symmetric])
qed

text \<open>With an empty aligned part of the scratch buffer the loop makes no progress.\<close>

lemma fill_loop_stuck:
  assumes "fill_loop io off stop 0 p bytes d = Some y" "reliable" "disk_ok d" "off < stop" "stop < U64" "off \<le> total"
    "addr_ok p 0"
  shows False
proof -
  have "\<not> (io = io \<and> off = off \<and> stop = stop \<and> (0::nat) = 0 \<and> p = p \<and> disk_ok d)"
  proof (rule fill_loop.raw_induct [of
      "\<lambda>i off' stop' sz p' bytes' d' y. \<not> (i = io \<and> off' = off \<and> stop' = stop \<and> sz = 0 \<and> p' = p \<and> disk_ok d')",
      OF _ assms(1)], goal_cases)
    case (1 self i off' stop' sz p' bytes' d')
    show ?case
    proof
      assume h: "i = io \<and> off' = off \<and> stop' = stop \<and> sz = 0 \<and> p' = p \<and> disk_ok d'"
      then obtain r d1 where w: "disk_write io off p [] d' = (r, [], d1)" "disk_ok d1"
          "wr (content (disk_io d')) off [] r (content (disk_io d1))"
        using disk_write_ok [of d' off p "[]"] assms by auto
      have "r = Ok ()" using w(3) assms(2,6) unfolding wr_def by simp
      then have "self io off stop 0 p bytes' d1 \<noteq> None"
        using 1(2) h w(1) assms(4) by (auto simp: Let_def)
      then show False using 1(1) [of io off stop 0 p bytes' d1] w(2) by blast
    qed
  qed
  then show False using assms(3) by simp
qed

end

section \<open>Properties of the RAM disk\<close>

text \<open>A RAM disk of geometry \<open>info\<close> without an injected error, and one that may have one.\<close>

definition ram_disk_usable :: "block_info \<Rightarrow> ram_block_io disk \<Rightarrow> bool" where
  "ram_disk_usable info d \<longleftrightarrow> ram_ok info (disk_io d)
     \<and> scratch_fits info (disk_scratch_addr d) (length (disk_scratch d))"

definition ram_disk_ok :: "block_info \<Rightarrow> ram_block_io disk \<Rightarrow> bool" where
  "ram_disk_ok info d \<longleftrightarrow> ram_disk_usable info d \<and> ram_error (disk_io d) = None"

lemma ram_disk_ok_eq: "ram.disk_ok info d \<longleftrightarrow> ram_disk_ok info d"
  by (auto simp: ram.disk_ok_def ram_disk_ok_def ram_disk_usable_def)

lemma ram_disk_usable_eq: "faulty_ram.disk_ok info d \<longleftrightarrow> ram_disk_usable info d"
  by (auto simp: faulty_ram.disk_ok_def ram_disk_usable_def)

lemma ram_total_less: "ram_disk_ok info d \<Longrightarrow> off + n \<le> num_blocks info * block_size info \<Longrightarrow> off + n < U64"
  by (auto simp: ram_disk_ok_def ram_disk_usable_def ram_ok_def geometry_def)

text \<open>A device of four blocks of four bytes for the examples, with buffers aligned to eight.\<close>

definition sample_info :: block_info where
  "sample_info = \<lparr> block_size = 4, num_blocks = 4, alignment = 8 \<rparr>"

definition sample_disk :: "ram_block_io disk" where
  "sample_disk = \<lparr> disk_io = \<lparr> ram_block_size = 4, ram_alignment = 8,
       storage = [0, 1, 2, 3, 4, 5, 6, 7, 8, 9, 10, 11, 12, 13, 14, 15],
       num_writes = 0, num_reads = 0, ram_error = None \<rparr>,
     disk_scratch = replicate 18 0, disk_scratch_addr = 1024 \<rparr>"

lemma sample_disk_ok: "ram_disk_ok sample_info sample_disk"
  by (simp add: ram_disk_ok_def ram_disk_usable_def ram_ok_def geometry_def scratch_fits_def sample_info_def
      sample_disk_def align_gap_def)

lemmas sample_defs = sample_info_def sample_disk_def align_gap_def

text \<open>
  C5. A read of any range inside the device, at any offset, with any buffer address and length, fills
  the buffer with exactly the stored bytes and leaves the storage unchanged.
\<close>

theorem ram_disk_read_exact:
  assumes "ram_disk_ok info d" "off + length out \<le> num_blocks info * block_size info"
    "p + length out + alignment info < U64"
  shows "\<exists>d'. disk_read ram_block_ops off p out d =
      (Ok (), take (length out) (drop off (storage (disk_io d))), d')
    \<and> ram_disk_ok info d' \<and> storage (disk_io d') = storage (disk_io d)"
  using ram.disk_read_ok [of info d off p out] ram_total_less [OF assms(1,2)] assms
  by (auto simp: ram_disk_ok_eq ram.addr_ok_def ram.rd_def)

theorem ram_disk_read_exact_witness:
  "\<exists>d'. disk_read ram_block_ops 3 69 [0, 0, 0, 0, 0, 0] sample_disk = (Ok (), [3, 4, 5, 6, 7, 8], d')
    \<and> ram_disk_ok sample_info d' \<and> storage (disk_io d') = storage (disk_io sample_disk)"
  using ram_disk_read_exact [OF sample_disk_ok, of 3 "[0, 0, 0, 0, 0, 0]" 69] by (simp add: sample_defs)

text \<open>
  C6. A write of any range inside the device stores exactly the data, changes no byte outside the
  range and gives the caller's buffer back unchanged.
\<close>

theorem ram_disk_write_exact:
  assumes "ram_disk_ok info d" "off + length data \<le> num_blocks info * block_size info"
    "p + length data + alignment info < U64"
  shows "\<exists>d'. disk_write ram_block_ops off p data d = (Ok (), data, d') \<and> ram_disk_ok info d'
    \<and> storage (disk_io d') = overwrite off data (storage (disk_io d))"
  using ram.disk_write_ok [of info d off p data] ram_total_less [OF assms(1,2)] assms
  by (auto simp: ram_disk_ok_eq ram.addr_ok_def ram.wr_def)

theorem ram_disk_write_exact_witness:
  "\<exists>d'. disk_write ram_block_ops 7 33 [99, 98] sample_disk = (Ok (), [99, 98], d') \<and> ram_disk_ok sample_info d'
    \<and> storage (disk_io d') = [0, 1, 2, 3, 4, 5, 6, 99, 98, 9, 10, 11, 12, 13, 14, 15]"
  using ram_disk_write_exact [OF sample_disk_ok, of 7 "[99, 98]" 33] by (simp add: sample_defs overwrite_def)

text \<open>
  C7. When the device reports an error during a write, the write ends with an error or a value, never
  an abort; the caller's buffer is restored, every stored byte is the old one or the one written to its
  position, and only bytes of the range change. If the write reports success all bytes are stored.
\<close>

theorem faulty_disk_write_contained:
  assumes "ram_disk_usable info d" "off < U64" "p + length data + alignment info < U64"
  shows "\<exists>r d'. disk_write ram_block_ops off p data d = (r, data, d') \<and> r \<noteq> Panic \<and> ram_disk_usable info d'
    \<and> torn (storage (disk_io d)) off data (storage (disk_io d'))
    \<and> (r = Ok () \<longrightarrow> storage (disk_io d') = overwrite off data (storage (disk_io d)))"
  using faulty_ram.disk_write_ok [of info d off p data] assms
  by (auto simp: ram_disk_usable_eq faulty_ram.addr_ok_def faulty_ram.wr_def)

theorem faulty_disk_write_contained_witness:
  "\<exists>r d'. disk_write ram_block_ops 7 33 [99, 98] (sample_disk\<lparr> disk_io := disk_io sample_disk\<lparr> ram_error := Some Timeout \<rparr> \<rparr>)
      = (r, [99, 98], d') \<and> r \<noteq> Panic \<and> torn (storage (disk_io sample_disk)) 7 [99, 98] (storage (disk_io d'))"
proof -
  have "ram_disk_usable sample_info (sample_disk\<lparr> disk_io := disk_io sample_disk\<lparr> ram_error := Some Timeout \<rparr> \<rparr>)"
    using sample_disk_ok by (simp add: ram_disk_ok_def ram_disk_usable_def ram_ok_def)
  from faulty_disk_write_contained [OF this, of 7 33 "[99, 98]"] show ?thesis by (auto simp: sample_info_def)
qed

text \<open>
  A non-empty access that reaches beyond the end of the device is reported as an error; a read
  leaves the storage unchanged, a write changes no byte before the range.
\<close>

theorem disk_access_out_of_range:
  assumes "ram_disk_usable info d" "off < U64" "b \<noteq> []" "num_blocks info * block_size info < off + length b"
    "p + length b + alignment info < U64"
  shows "(\<exists>e b' d'. disk_read ram_block_ops off p b d = (Err e, b', d') \<and> storage (disk_io d') = storage (disk_io d))
    \<and> (\<exists>e d'. disk_write ram_block_ops off p b d = (Err e, b, d')
         \<and> take off (storage (disk_io d')) = take off (storage (disk_io d)))"
proof -
  obtain r b' d1 where r: "disk_read ram_block_ops off p b d = (r, b', d1)"
      "storage (disk_io d1) = storage (disk_io d)" "faulty_ram.rd info (storage (disk_io d)) off (length b) r b'"
    using faulty_ram.disk_read_ok [of info d off p b] assms by (auto simp: ram_disk_usable_eq faulty_ram.addr_ok_def)
  obtain w d2 where w: "disk_write ram_block_ops off p b d = (w, b, d2)"
      "faulty_ram.wr info (storage (disk_io d)) off b w (storage (disk_io d2))"
    using faulty_ram.disk_write_ok [of info d off p b] assms by (auto simp: ram_disk_usable_eq faulty_ram.addr_ok_def)
  have "take off (storage (disk_io d2)) = take off (storage (disk_io d))"
    by (rule nth_equalityI) (use w(2) in \<open>auto simp: faulty_ram.wr_def torn_def\<close>)
  moreover obtain e where "r = Err e" using r(3) assms(3,4) by (cases r) (auto simp: faulty_ram.rd_def)
  moreover obtain e' where "w = Err e'" using w(2) assms(3,4) by (cases w) (auto simp: faulty_ram.wr_def)
  ultimately show ?thesis using r(1,2) w(1) by blast
qed

theorem disk_access_out_of_range_witness:
  "\<exists>e b' d'. disk_read ram_block_ops 15 33 [0, 0] sample_disk = (Err e, b', d')
    \<and> storage (disk_io d') = storage (disk_io sample_disk)"
  using disk_access_out_of_range [of sample_info sample_disk 15 "[0, 0]" 33] sample_disk_ok
  by (simp add: ram_disk_ok_def sample_info_def)

text \<open>
  C33. A fill with a scratch buffer whose aligned part is not empty returns, and the device then holds
  the fill value in exactly the range.
\<close>

theorem disk_fill_exact:
  assumes "ram_disk_ok info d" "off + len \<le> num_blocks info * block_size info" "scratch \<noteq> []"
    "q + length scratch + alignment info < U64" "align_gap q (alignment info) \<noteq> length scratch"
  shows "\<exists>b d'. disk_fill ram_block_ops off len val q scratch d = Some (Ok (), b, d') \<and> ram_disk_ok info d'
    \<and> storage (disk_io d') = overwrite off (replicate len val) (storage (disk_io d))"
  using ram.disk_fill_ok [of info d q scratch off len val] ram_total_less [OF assms(1,2)] assms
  by (auto simp: ram_disk_ok_eq ram.wr_def)

theorem disk_fill_exact_witness:
  "\<exists>b d'. disk_fill ram_block_ops 2 11 7 41 (replicate 9 0) sample_disk = Some (Ok (), b, d')
    \<and> storage (disk_io d') = [0, 1, 7, 7, 7, 7, 7, 7, 7, 7, 7, 7, 7, 13, 14, 15]"
proof -
  have "replicate 11 (7 :: byte) = [7, 7, 7, 7, 7, 7, 7, 7, 7, 7, 7]" by code_simp
  then show ?thesis
    using disk_fill_exact [OF sample_disk_ok, of 2 11 "replicate 9 0" 41 7] by (simp add: sample_defs overwrite_def) blast
qed

text \<open>
  C35. A fill of a non-empty range does not return when the first aligned address of its scratch buffer
  is the end of the buffer: it then writes zero bytes for ever.
\<close>

theorem disk_fill_loops:
  assumes "ram_disk_ok info d" "off + len \<le> num_blocks info * block_size info" "0 < len" "scratch \<noteq> []"
    "q + length scratch + alignment info < U64" "align_gap q (alignment info) = length scratch"
  shows "disk_fill ram_block_ops off len val q scratch d = None"
proof -
  have geo: "geometry info" and i: "ram_info (disk_io d) = info"
    using assms(1) ram_info_ok by (auto simp: ram_disk_ok_def ram_disk_usable_def ram_ok_def)
  have fb: "fill_buf info q (length scratch) = Ok (length scratch, 0)"
    using geometryD [OF geo] assms(5,6) by (simp add: fill_buf_def aligned_subslice_eq)
  have "fill_loop ram_block_ops off (off + len) 0 (q + length scratch) bytes d = None" for bytes
    using ram.fill_loop_stuck [of off "off + len" "q + length scratch" bytes d _ info] assms
      ram_total_less [OF assms(1,2)]
    by (cases "fill_loop ram_block_ops off (off + len) 0 (q + length scratch) bytes d")
       (auto simp: ram_disk_ok_eq ram.addr_ok_def)
  then show ?thesis
    using assms(4) fb i ram_total_less [OF assms(1,2)]
    by (simp add: disk_fill_def disk_block_info_def ram_block_ops_def)
qed

theorem disk_fill_loops_witness:
  "disk_fill ram_block_ops 2 11 7 41 (replicate 7 0) sample_disk = None"
  using disk_fill_loops [OF sample_disk_ok, of 2 11 "replicate 7 0" 41 7] by (simp add: sample_defs)

lemma align_gap_mod:
  assumes "0 < al"
  shows "align_gap sp al = (al - sp mod al) mod al"
proof (rule align_gap_unique [OF assms])
  define m q where "m = sp mod al" and "q = sp div al"
  have "sp = q * al + m" "m < al" using assms by (simp_all add: m_def q_def)
  then have "sp + (al - m) = (q + 1) * al" by simp
  then have "sp + (al - sp mod al) = (q + 1) * al" by (simp add: m_def)
  then show "(sp + (al - sp mod al) mod al) mod al = 0"
    by (simp add: mod_add_right_eq del: mult_Suc)
qed (use assms in simp)

lemma align_gap_max: "1 < al \<Longrightarrow> align_gap sp al = al - 1 \<longleftrightarrow> sp mod al = 1"
  using align_gap_mod [of al sp] mod_less_divisor [of al sp] by (cases "sp mod al = 0") auto

text \<open>
  C34. The scratch buffer size computed by \<open>scratch_size\<close>, which \<open>Disk::new\<close> accepts, is one byte short:
  with exactly that size every read and write aborts if and only if the scratch buffer starts one byte
  after an aligned address. One more byte is always enough.
\<close>

theorem scratch_size_one_short:
  assumes "geometry info" "1 < alignment info" "1 < block_size info" "scratch_size info = Ok n"
    "sp + n + 1 + alignment info < U64"
  shows "(split_scratch info sp n = Panic \<longleftrightarrow> sp mod alignment info = 1)
    \<and> (\<exists>parts. split_scratch info sp (n + 1) = Ok parts)"
proof -
  let ?al = "alignment info" and ?bs = "block_size info" and ?g = "align_gap sp (alignment info)"
  have n: "n = 2 * (?al - 1) + ?bs"
    using assms(2-4) by (auto simp: scratch_size_def split: if_splits)
  have g: "?g < ?al" using assms(2) by (simp add: align_gap_props)
  have fits: "scratch_fits info sp m \<Longrightarrow> \<exists>parts. split_scratch info sp m = Ok parts" for m
    using faulty_ram.split_scratch_ok [OF assms(1)] by metis
  have "\<exists>parts. split_scratch info sp (n + 1) = Ok parts"
    by (rule fits) (use assms g n in \<open>auto simp: scratch_fits_def\<close>)
  moreover have "split_scratch info sp n \<noteq> Panic" if "sp mod ?al \<noteq> 1"
    using fits [of n] that assms g n align_gap_max [OF assms(2), of sp] by (fastforce simp: scratch_fits_def)
  moreover have "split_scratch info sp n = Panic" if "sp mod ?al = 1"
  proof -
    have gap: "?g = ?al - 1" using that align_gap_max [OF assms(2), of sp] by simp
    have "(sp + ?g + ?al) mod ?al = 0"
      using align_gap_props(2) [of ?al sp] assms(2) by (simp del: mod_eq_0_iff_dvd)
    then have "align_gap (sp + ?g + (?al - 1)) ?al = 1"
      using assms(2) by (intro align_gap_unique) (auto simp: add.assoc)
    moreover obtain k where "?al = Suc k" using assms(2) by (cases ?al) auto
    ultimately show ?thesis
      using gap assms(2,3,5) n by (simp add: split_scratch_def aligned_subslice_eq Let_def)
  qed
  ultimately show ?thesis by blast
qed

theorem scratch_size_one_short_witness:
  "scratch_size sample_info = Ok 18 \<and> split_scratch sample_info 1025 18 = Panic"
  using scratch_size_one_short [of sample_info 18 1025]
  by (simp add: sample_info_def geometry_def scratch_size_def)

end
