(* ===== verification/Layout.thy ===== *)
theory Layout
  imports Utils
begin

text \<open>
  Packed structures and text encodings of the Rust core library: little-endian fields at fixed offsets,
  arrays of fixed-size elements in a byte sequence, and the conversions between UTF-8 and UTF-16
  (\<open>char::decode_utf16\<close>, \<open>str::encode_utf16\<close>, \<open>char::encode_utf8\<close>).
\<close>

section \<open>Fields and arrays\<close>

named_theorems layout_simps \<open>fields of packed structures\<close>

definition le_at :: "nat \<Rightarrow> nat \<Rightarrow> byte list \<Rightarrow> nat" where
  "le_at a k bs = nat_from_le (take k (drop a bs))"

definition chunks :: "nat \<Rightarrow> nat \<Rightarrow> 'a list \<Rightarrow> 'a list list" where
  "chunks k n bs = map (\<lambda>i. take k (drop (i * k) bs)) [0..<n]"

lemma le_at_bound: "le_at a k bs < 256 ^ k"
proof -
  have "le_at a k bs < 256 ^ length (take k (drop a bs))"
    unfolding le_at_def by (rule nat_from_le_bound)
  also have "\<dots> \<le> 256 ^ k" by (rule power_increasing) auto
  finally show ?thesis .
qed

lemma nat_to_le_at [layout_simps]: "a + k \<le> length bs \<Longrightarrow> nat_to_le k (le_at a k bs) = take k (drop a bs)"
  using nat_to_from_le [of "take k (drop a bs)"] by (simp add: le_at_def min_absorb2)

lemma take_drop_join [layout_simps]:
  "b = a + k \<Longrightarrow> b \<le> length bs \<Longrightarrow> take k (drop a bs) @ drop b bs = drop a bs"
  by (metis add.commute append_take_drop_id drop_drop)

lemma length_chunks [simp]: "length (chunks k n bs) = n"
  by (simp add: chunks_def)

lemma nth_chunks [simp]: "i < n \<Longrightarrow> chunks k n bs ! i = take k (drop (i * k) bs)"
  by (simp add: chunks_def)

lemma chunks_Suc: "chunks k (Suc n) bs = take k bs # chunks k n (drop k bs)"
  by (rule nth_equalityI) (auto simp: nth_Cons add.commute split: nat.split)

lemma length_chunk: "n * k \<le> length bs \<Longrightarrow> c \<in> set (chunks k n bs) \<Longrightarrow> length c = k"
proof (induction n arbitrary: bs)
  case (Suc n)
  then show ?case using Suc.IH [of "drop k bs"] by (auto simp: chunks_Suc)
qed (simp add: chunks_def)

lemma concat_chunks: "n * k \<le> length bs \<Longrightarrow> concat (chunks k n bs) = take (n * k) bs"
proof (induction n arbitrary: bs)
  case (Suc n)
  then show ?case by (simp add: chunks_Suc take_add)
qed (simp add: chunks_def)

lemma chunks_concat: "\<forall>x \<in> set xs. length x = k \<Longrightarrow> chunks k (length xs) (concat xs @ ys) = xs"
proof (induction xs)
  case (Cons x xs)
  then show ?case by (simp add: chunks_Suc)
qed (simp add: chunks_def)

lemma chunks_take: "n * k \<le> m \<Longrightarrow> chunks k n (take m bs) = chunks k n bs"
proof (induction n arbitrary: bs m)
  case (Suc n)
  then show ?case using Suc.IH [of "m - k" "drop k bs"] by (simp add: chunks_Suc drop_take min_absorb1)
qed (simp add: chunks_def)

lemma chunks_prefix: "m \<le> n \<Longrightarrow> take m (chunks k n bs) = chunks k m bs"
  by (simp add: chunks_def take_map)

lemma length_concat_same: "\<forall>x \<in> set xs. length x = k \<Longrightarrow> length (concat xs) = length xs * k"
  by (induction xs) auto

section \<open>UTF-8 and UTF-16\<close>

text \<open>A character is its code point, a code unit of UTF-16 a number below \<open>2 ^ 16\<close>.\<close>

definition unicode_scalar :: "nat \<Rightarrow> bool" where
  "unicode_scalar c \<longleftrightarrow> c < 0xD800 \<or> 0xDFFF < c \<and> c < 0x110000"

definition encode_utf8 :: "nat \<Rightarrow> byte list" where
  "encode_utf8 c =
     (if c < 0x80 then [of_nat c]
      else if c < 0x800 then [of_nat (0xC0 + c div 64), of_nat (0x80 + c mod 64)]
      else if c < 0x10000 then [of_nat (0xE0 + c div 4096), of_nat (0x80 + c div 64 mod 64), of_nat (0x80 + c mod 64)]
      else [of_nat (0xF0 + c div 262144), of_nat (0x80 + c div 4096 mod 64), of_nat (0x80 + c div 64 mod 64),
            of_nat (0x80 + c mod 64)])"

text \<open>The characters of a valid UTF-8 string.\<close>

fun utf8_chars :: "byte list \<Rightarrow> nat list" where
  "utf8_chars [] = []"
| "utf8_chars (a # bs) =
     (let x = unat a; cont = (\<lambda>i. unat ((bs @ [0, 0, 0]) ! i) mod 64) in
      if x < 0x80 then x # utf8_chars bs
      else if x < 0xE0 then (x mod 32 * 64 + cont 0) # utf8_chars (drop 1 bs)
      else if x < 0xF0 then (x mod 16 * 4096 + cont 0 * 64 + cont 1) # utf8_chars (drop 2 bs)
      else (x mod 8 * 262144 + cont 0 * 4096 + cont 1 * 64 + cont 2) # utf8_chars (drop 3 bs))"

definition encode_utf16_char :: "nat \<Rightarrow> nat list" where
  "encode_utf16_char c =
     (if c < 0x10000 then [c] else [0xD800 + (c - 0x10000) div 1024, 0xDC00 + (c - 0x10000) mod 1024])"

definition encode_utf16 :: "byte list \<Rightarrow> nat list" where
  "encode_utf16 s = concat (map encode_utf16_char (utf8_chars s))"

text \<open>\<open>None\<close> is an unpaired surrogate.\<close>

fun decode_utf16 :: "nat list \<Rightarrow> nat option list" where
  "decode_utf16 [] = []"
| "decode_utf16 (u # us) =
     (if u < 0xD800 \<or> 0xDFFF < u then Some u # decode_utf16 us
      else if 0xDC00 \<le> u then None # decode_utf16 us
      else case us of
          [] \<Rightarrow> [None]
        | u2 # rest \<Rightarrow>
            if u2 < 0xDC00 \<or> 0xDFFF < u2 then None # decode_utf16 us
            else Some (((u - 0xD800) * 1024 + (u2 - 0xDC00)) + 0x10000) # decode_utf16 rest)"

lemma utf16_char_roundtrip:
  "unicode_scalar c \<Longrightarrow> decode_utf16 (encode_utf16_char c @ us) = Some c # decode_utf16 us"
  by (auto simp: unicode_scalar_def encode_utf16_char_def)

lemma utf16_roundtrip:
  "\<forall>c \<in> set cs. unicode_scalar c \<Longrightarrow>
     decode_utf16 (concat (map encode_utf16_char cs) @ us) = map Some cs @ decode_utf16 us"
  by (induction cs) (simp_all add: utf16_char_roundtrip)

lemma unat_of_nat_byte: "x < 256 \<Longrightarrow> unat (of_nat x :: byte) = x"
  by (simp add: unat_of_nat)

lemma utf8_lead:
  "x < 32 \<Longrightarrow> (0xC0 + x) mod 32 = (x :: nat)" "x < 16 \<Longrightarrow> (0xE0 + x) mod 16 = (x :: nat)"
  "x < 8 \<Longrightarrow> (0xF0 + x) mod 8 = (x :: nat)" "x < 64 \<Longrightarrow> (0x80 + x) mod 64 = (x :: nat)"
  using mod_mult_self1 [of x 6 32] mod_mult_self1 [of x 14 16] mod_mult_self1 [of x 30 8] mod_mult_self1 [of x 2 64]
  by (simp_all add: add.commute)

lemma utf8_digits:
  fixes c :: nat
  shows "c div 64 * 64 + c mod 64 = c" "c div 4096 * 4096 + c div 64 mod 64 * 64 + c mod 64 = c"
    "c div 262144 * 262144 + c div 4096 mod 64 * 4096 + c div 64 mod 64 * 64 + c mod 64 = c"
proof -
  have d: "c div 64 div 64 = c div 4096" "c div 4096 div 64 = c div 262144" by (simp_all add: div_mult2_eq [symmetric])
  have a: "c div 64 * 64 + c mod 64 = c" "c div 64 = c div 4096 * 64 + c div 64 mod 64"
    "c div 4096 = c div 262144 * 64 + c div 4096 mod 64"
    using div_mult_mod_eq [of "c div 64" 64] div_mult_mod_eq [of "c div 4096" 64] by (simp_all add: d)
  show "c div 64 * 64 + c mod 64 = c" by (rule a(1))
  show "c div 4096 * 4096 + c div 64 mod 64 * 64 + c mod 64 = c" using a(1,2) by linarith
  show "c div 262144 * 262144 + c div 4096 mod 64 * 4096 + c div 64 mod 64 * 64 + c mod 64 = c"
    using a by linarith
qed

lemma encode_utf8_chars_decode:
  assumes "unicode_scalar c"
  shows "utf8_chars (encode_utf8 c @ s) = c # utf8_chars s"
proof -
  have c: "c < 0x110000" using assms by (auto simp: unicode_scalar_def)
  note simps = encode_utf8_def Let_def unat_of_nat_byte utf8_lead utf8_digits
  consider "c < 0x80" | "0x80 \<le> c" "c < 0x800" | "0x800 \<le> c" "c < 0x10000" | "0x10000 \<le> c" by linarith
  then show ?thesis
  proof cases
    case 2
    then have "c div 64 < 32" by simp
    then show ?thesis using 2 by (simp add: simps del: of_nat_add)
  next
    case 3
    then have "c div 4096 < 16" by simp
    then show ?thesis using 3 by (simp add: simps del: of_nat_add)
  next
    case 4
    have "c div 262144 < 8" using c by simp
    then show ?thesis using 4 by (simp add: simps del: of_nat_add)
  qed (simp add: simps del: of_nat_add)
qed

lemma utf8_chars_encode:
  "\<forall>c \<in> set cs. unicode_scalar c \<Longrightarrow> utf8_chars (concat (map encode_utf8 cs)) = cs"
  by (induction cs) (simp_all add: encode_utf8_chars_decode)

end
