(* ===== verification/Gpt_Format.thy ===== *)
theory Gpt_Format
  imports Disk Layout
begin

text \<open>
  The GUID partition table of \<open>libstorage/src/gpt.rs\<close>: headers, partition entries and names with their
  layout in bytes, and the checks of a header and of an array of entries. Integer fields are natural
  numbers; \<open>header_wf\<close> and \<open>entry_wf\<close> say that they fit their width.

  Two things the code takes from outside are collected in \<open>gpt_env\<close>: the CRC-32 function of the crate
  \<open>crc32fast\<close>, and the order in which an unstable sort leaves elements with the same key. \<open>env_sort\<close> maps
  a list of keys to the sorting permutation of its indices; \<open>sorts\<close> states what the sort promises.
\<close>

record gpt_env =
  env_crc32 :: "byte list \<Rightarrow> 32 word"
  env_sort :: "nat list \<Rightarrow> nat list"

definition sorts :: "gpt_env \<Rightarrow> bool" where
  "sorts env \<longleftrightarrow> (\<forall>ks. distinct (env_sort env ks) \<and> set (env_sort env ks) = {0..<length ks}
     \<and> sorted (map (\<lambda>i. ks ! i) (env_sort env ks)))"

definition gpt_crc32 :: "gpt_env \<Rightarrow> byte list \<Rightarrow> nat" where
  "gpt_crc32 env data = unat (env_crc32 env data)"

section \<open>Layout\<close>

definition GPT_GUID_LEN :: nat where "GPT_GUID_LEN = 16"
definition GPT_NAME_LEN_U16 :: nat where "GPT_NAME_LEN_U16 = 36"
definition GPT_NAME_LEN_U8 :: nat where "GPT_NAME_LEN_U8 = 2 * GPT_GUID_LEN"
definition GPT_CRC32_OFFSET :: nat where "GPT_CRC32_OFFSET = 16"
definition GPT_HEADER_SIZE :: nat where "GPT_HEADER_SIZE = 92"
definition GPT_ENTRY_SIZE :: nat where "GPT_ENTRY_SIZE = 128"
definition GPT_MAX_NUM_ENTRIES :: nat where "GPT_MAX_NUM_ENTRIES = 128"
definition GPT_MAX_NUM_ENTRIES_SIZE :: nat where
  "GPT_MAX_NUM_ENTRIES_SIZE = GPT_MAX_NUM_ENTRIES * GPT_ENTRY_SIZE"
definition GPT_MAGIC :: nat where "GPT_MAGIC = 0x5452415020494645"

lemmas gpt_consts = GPT_GUID_LEN_def GPT_NAME_LEN_U16_def GPT_NAME_LEN_U8_def GPT_CRC32_OFFSET_def
  GPT_HEADER_SIZE_def GPT_ENTRY_SIZE_def GPT_MAX_NUM_ENTRIES_def GPT_MAX_NUM_ENTRIES_SIZE_def

record gpt_header =
  h_magic :: nat
  h_revision :: nat
  h_size :: nat
  h_crc32 :: nat
  h_reserved0 :: nat
  h_current :: nat
  h_backup :: nat
  h_first :: nat
  h_last :: nat
  h_guid :: "byte list"
  h_entries :: nat
  h_entries_count :: nat
  h_entries_size :: nat
  h_entries_crc :: nat

text \<open>The packed representation and back, as the derived byte conversions of the structure.\<close>

definition header_bytes :: "gpt_header \<Rightarrow> byte list" where
  "header_bytes h = nat_to_le 8 (h_magic h) @ nat_to_le 4 (h_revision h) @ nat_to_le 4 (h_size h)
     @ nat_to_le 4 (h_crc32 h) @ nat_to_le 4 (h_reserved0 h) @ nat_to_le 8 (h_current h)
     @ nat_to_le 8 (h_backup h) @ nat_to_le 8 (h_first h) @ nat_to_le 8 (h_last h) @ h_guid h
     @ nat_to_le 8 (h_entries h) @ nat_to_le 4 (h_entries_count h) @ nat_to_le 4 (h_entries_size h)
     @ nat_to_le 4 (h_entries_crc h)"

definition header_of_bytes :: "byte list \<Rightarrow> gpt_header" where
  "header_of_bytes bs = \<lparr> h_magic = le_at 0 8 bs, h_revision = le_at 8 4 bs, h_size = le_at 12 4 bs,
     h_crc32 = le_at 16 4 bs, h_reserved0 = le_at 20 4 bs, h_current = le_at 24 8 bs,
     h_backup = le_at 32 8 bs, h_first = le_at 40 8 bs, h_last = le_at 48 8 bs,
     h_guid = take 16 (drop 56 bs), h_entries = le_at 72 8 bs, h_entries_count = le_at 80 4 bs,
     h_entries_size = le_at 84 4 bs, h_entries_crc = le_at 88 4 bs \<rparr>"

definition header_wf :: "gpt_header \<Rightarrow> bool" where
  "header_wf h \<longleftrightarrow> h_magic h < U64 \<and> h_revision h < U32 \<and> h_size h < U32 \<and> h_crc32 h < U32
     \<and> h_reserved0 h < U32 \<and> h_current h < U64 \<and> h_backup h < U64 \<and> h_first h < U64 \<and> h_last h < U64
     \<and> length (h_guid h) = 16 \<and> h_entries h < U64 \<and> h_entries_count h < U32 \<and> h_entries_size h < U32
     \<and> h_entries_crc h < U32"

record gpt_entry =
  e_part_type :: "byte list"
  e_guid :: "byte list"
  e_first :: nat
  e_last :: nat
  e_flags :: nat
  e_name :: "nat list"

definition entry_bytes :: "gpt_entry \<Rightarrow> byte list" where
  "entry_bytes e = e_part_type e @ e_guid e @ nat_to_le 8 (e_first e) @ nat_to_le 8 (e_last e)
     @ nat_to_le 8 (e_flags e) @ concat (map (nat_to_le 2) (e_name e))"

definition entry_of_bytes :: "byte list \<Rightarrow> gpt_entry" where
  "entry_of_bytes bs = \<lparr> e_part_type = take 16 bs, e_guid = take 16 (drop 16 bs), e_first = le_at 32 8 bs,
     e_last = le_at 40 8 bs, e_flags = le_at 48 8 bs,
     e_name = map nat_from_le (chunks 2 36 (drop 56 bs)) \<rparr>"

definition entry_wf :: "gpt_entry \<Rightarrow> bool" where
  "entry_wf e \<longleftrightarrow> length (e_part_type e) = 16 \<and> length (e_guid e) = 16 \<and> e_first e < U64 \<and> e_last e < U64
     \<and> e_flags e < U64 \<and> length (e_name e) = 36 \<and> (\<forall>u \<in> set (e_name e). u < 0x10000)"

definition entries_bytes :: "gpt_entry list \<Rightarrow> byte list" where
  "entries_bytes es = concat (map entry_bytes es)"

definition entries_of_bytes :: "byte list \<Rightarrow> gpt_entry list" where
  "entries_of_bytes bs = map entry_of_bytes (chunks 128 (length bs div 128) bs)"

section \<open>Header operations\<close>

definition calculate_header_crc :: "gpt_env \<Rightarrow> gpt_header \<Rightarrow> nat" where
  "calculate_header_crc env self =
     gpt_crc32 env (take GPT_CRC32_OFFSET (header_bytes self) @ replicate 4 0
       @ drop (GPT_CRC32_OFFSET + 4) (header_bytes self))"

definition update_crc :: "gpt_env \<Rightarrow> gpt_header \<Rightarrow> gpt_header" where
  "update_crc env self = self\<lparr> h_crc32 := calculate_header_crc env self \<rparr>"

definition update_entries_crc :: "gpt_env \<Rightarrow> byte list \<Rightarrow> gpt_header \<Rightarrow> gpt_header res" where
  "update_entries_crc env entries self =
     and_then (unwrap (sn_try (sn_mul (sn (h_entries_count self)) (sn (h_entries_size self))))) (\<lambda>size.
     map_ok (\<lambda>data. update_crc env (self\<lparr> h_entries_crc := gpt_crc32 env data \<rparr>)) (slice_index 0 size entries))"

definition gpt_entries_blk :: "nat \<Rightarrow> nat res" where
  "gpt_entries_blk bs =
     (if bs = 0 then Panic
      else if GPT_MAX_NUM_ENTRIES_SIZE mod bs = 0 then Ok (GPT_MAX_NUM_ENTRIES_SIZE div bs)
      else Err InvalidInput)"

definition check_first_last :: "nat \<Rightarrow> nat \<Rightarrow> gpt_header \<Rightarrow> unit res" where
  "check_first_last min_first max_last header =
     and_then (padd (h_last header) 1) (\<lambda>end_blk.
       if end_blk < h_first header \<or> h_first header < min_first \<or> max_last < h_last header
       then Err (GptError (InvalidFirstLastUsableBlock (h_first header) (h_last header) (min_first, max_last)))
       else Ok ())"

definition check_entries_start :: "nat \<Rightarrow> nat \<Rightarrow> gpt_header \<Rightarrow> bool \<Rightarrow> unit res" where
  "check_entries_start min_reserved_entries_blk max_last header is_primary =
     (if is_primary then
        and_then (unwrap (sn_try (sn_sub (sn (h_first header)) (sn min_reserved_entries_blk)))) (\<lambda>right.
          if \<not> (2 \<le> h_entries header \<and> h_entries header \<le> right)
          then Err (GptError (InvalidPrimaryEntriesStart (h_entries header) (2, right)))
          else Ok ())
      else
        if \<not> (h_last header < h_entries header \<and> h_entries header \<le> max_last + 1)
        then Err (GptError (InvalidSecondaryEntriesStart (h_entries header) (h_last header + 1, max_last + 1)))
        else Ok ())"

definition check_header :: "gpt_env \<Rightarrow> block_info \<Rightarrow> gpt_header \<Rightarrow> bool \<Rightarrow> unit res" where
  "check_header env info header is_primary =
     and_then (gpt_entries_blk (block_size info)) (\<lambda>min_reserved_entries_blk.
     if num_blocks info < (min_reserved_entries_blk + 1) * 2 + 1 then Err (GptError DiskTooSmall)
     else if h_magic header \<noteq> GPT_MAGIC then Err (GptError (IncorrectMagic (h_magic header)))
     else if calculate_header_crc env header \<noteq> h_crc32 header then Err (GptError IncorrectHeaderCrc)
     else if h_size header \<noteq> GPT_HEADER_SIZE
       then Err (GptError (UnexpectedHeaderSize (h_size header) GPT_HEADER_SIZE))
     else if h_entries_size header \<noteq> GPT_ENTRY_SIZE
       then Err (GptError (UnexpectedEntrySize (h_entries_size header) GPT_ENTRY_SIZE))
     else
       and_then (unwrap (sn_try (sn_sub (sn_sub (sn_sub (sn (num_blocks info)) (sn 1))
         (sn min_reserved_entries_blk)) (sn 1)))) (\<lambda>max_last.
       and_then (check_first_last (min_reserved_entries_blk + 2) max_last header) (\<lambda>_.
       and_then (check_entries_start min_reserved_entries_blk max_last header is_primary) (\<lambda>_.
         if GPT_MAX_NUM_ENTRIES < h_entries_count header
         then Err (GptError (NumberOfEntriesOverflow (h_entries_count header) GPT_MAX_NUM_ENTRIES))
         else Ok ()))))"

section \<open>Entries\<close>

definition entry_blocks :: "gpt_entry \<Rightarrow> nat res" where
  "entry_blocks self = sn_try (sn_sub (sn_add (sn (e_last self)) (sn 1)) (sn (e_first self)))"

definition is_null :: "gpt_entry \<Rightarrow> bool" where
  "is_null self \<longleftrightarrow> e_first self = 0 \<and> e_last self = 0"

text \<open>The characters are written to a buffer of \<open>cap\<close> bytes, up to the first zero.\<close>

fun name_loop :: "nat \<Rightarrow> nat option list \<Rightarrow> byte list \<Rightarrow> byte list res" where
  "name_loop cap [] out = Ok out"
| "name_loop cap (c # cs) out =
     (let ch = (case c of Some ch \<Rightarrow> ch | None \<Rightarrow> 0xFFFD) in
      if ch = 0 then Ok out
      else if length (encode_utf8 ch) \<le> cap - length out then name_loop cap cs (out @ encode_utf8 ch)
      else Err InvalidInput)"

definition name_to_str :: "nat \<Rightarrow> gpt_entry \<Rightarrow> byte list res" where
  "name_to_str cap self = name_loop cap (decode_utf16 (e_name self)) []"

definition match_name :: "byte list \<Rightarrow> gpt_entry \<Rightarrow> bool res" where
  "match_name part self = map_ok (\<lambda>s. s = part) (name_to_str (GPT_NAME_LEN_U16 * 2) self)"

text \<open>The entries before the first null entry.\<close>

definition used_entries :: "gpt_entry list \<Rightarrow> gpt_entry list" where
  "used_entries es = takeWhile (\<lambda>e. \<not> is_null e) es"

fun check_each :: "gpt_header \<Rightarrow> nat \<Rightarrow> gpt_entry list \<Rightarrow> unit res" where
  "check_each header idx [] = Ok ()"
| "check_each header idx (ele # rest) =
     and_then (padd (e_last ele) 1) (\<lambda>end_blk.
       if end_blk < e_first ele \<or> h_last header < e_last ele \<or> e_first ele < h_first header
       then Err (GptError (InvalidPartitionRange idx (e_first ele, e_last ele) (h_first header, h_last header)))
       else if e_part_type ele = replicate GPT_GUID_LEN 0 then Err (GptError (ZeroPartitionTypeGUID idx))
       else if e_guid ele = replicate GPT_GUID_LEN 0 then Err (GptError (ZeroPartitionUniqueGUID idx))
       else check_each header (idx + 1) rest)"

definition sort_key_of :: "gpt_entry list \<Rightarrow> nat \<Rightarrow> nat" where
  "sort_key_of es i = (if i < length es \<and> \<not> is_null (es ! i) then e_first (es ! i) else U64 - 1)"

text \<open>The overlap check along neighbours in the sorted order of the indices.\<close>

fun check_overlap :: "gpt_entry list \<Rightarrow> nat list \<Rightarrow> unit res" where
  "check_overlap es (prev # next # rest) =
     (if prev < length es \<and> next < length es then
        if e_first (es ! next) \<le> e_last (es ! prev)
        then Err (GptError (PartitionRangeOverlap
          (prev + 1, e_first (es ! prev), e_last (es ! prev)) (next + 1, e_first (es ! next), e_last (es ! next))))
        else check_overlap es (next # rest)
      else Panic)"
| "check_overlap es _ = Ok ()"

definition check_entries :: "gpt_env \<Rightarrow> gpt_header \<Rightarrow> byte list \<Rightarrow> unit res" where
  "check_entries env header bytes =
     and_then (rust_assert (h_entries_count header \<le> GPT_MAX_NUM_ENTRIES)) (\<lambda>_.
     and_then (unwrap (sn_try (sn_mul (sn (h_entries_count header)) (sn GPT_ENTRY_SIZE)))) (\<lambda>size.
     and_then (ok_or (slice_get 0 size bytes) (GptError EntriesTruncated)) (\<lambda>bytes.
     if h_entries_crc header \<noteq> gpt_crc32 env bytes then Err (GptError IncorrectEntriesCrc)
     else if length bytes mod GPT_ENTRY_SIZE \<noteq> 0 then Err (GptError EntriesTruncated)
     else
       and_then (slice_index 0 (h_entries_count header) (entries_of_bytes bytes)) (\<lambda>es.
       and_then (check_each header 1 (used_entries es)) (\<lambda>_.
         let sorted_indices = env_sort env (map (sort_key_of es) [0..<GPT_MAX_NUM_ENTRIES])
         in check_overlap es (take (length (used_entries es)) sorted_indices))))))"

end
