(* ===== verification/Gpt.thy ===== *)
theory Gpt
  imports Gpt_Format
begin

text \<open>
  Partitions, and the buffer into which the primary and secondary GPT of a disk are loaded, checked and
  synchronised (\<open>Partition\<close>, \<open>Gpt\<close>, \<open>update_gpt\<close>, \<open>erase_gpt\<close> of \<open>libstorage/src/gpt.rs\<close>).

  The load buffer is a byte slice cut into a block size, two headers and two arrays of entries. The
  conversions between these parts and their bytes are inverse to each other, so the model holds the
  parts; its address \<open>gpt_addr\<close> determines the addresses of the parts.
\<close>

section \<open>Partitions\<close>

record partition =
  p_entry :: gpt_entry
  p_block_size :: nat
  p_decoded_name :: "byte list option"

definition partition_new :: "gpt_entry \<Rightarrow> nat \<Rightarrow> partition" where
  "partition_new entry bs = \<lparr> p_entry = entry, p_block_size = bs,
     p_decoded_name = (case name_to_str GPT_NAME_LEN_U8 entry of Ok s \<Rightarrow> Some s | _ \<Rightarrow> None) \<rparr>"

definition partition_name :: "partition \<Rightarrow> byte list option res" where
  "partition_name self = (case p_decoded_name self of
      None \<Rightarrow> Ok None | Some s \<Rightarrow> if utf8_valid s then Ok (Some s) else Panic)"

definition partition_size :: "partition \<Rightarrow> nat res" where
  "partition_size self = and_then (entry_blocks (p_entry self)) (\<lambda>n. sn_try (sn_mul (sn n) (sn (p_block_size self))))"

definition absolute_range :: "partition \<Rightarrow> (nat \<times> nat) res" where
  "absolute_range self =
     and_then (sn_try (sn_mul (sn (e_first (p_entry self))) (sn (p_block_size self)))) (\<lambda>start.
     and_then (sn_try (sn_mul (sn_add (sn (e_last (p_entry self))) (sn 1)) (sn (p_block_size self)))) (\<lambda>stop.
       Ok (start, stop)))"

definition partition_check_range :: "nat \<Rightarrow> nat \<Rightarrow> partition \<Rightarrow> nat res" where
  "partition_check_range off sz self =
     and_then (sn_try (sn_add (sn off) (sn sz))) (\<lambda>stop.
     and_then (partition_size self) (\<lambda>psize.
       if psize < stop then Err (BadIndex stop)
       else and_then (absolute_range self) (\<lambda>(start, _). sn_try (sn_add (sn off) (sn start)))))"

section \<open>The load buffer\<close>

record gpt =
  gpt_addr :: nat
  gpt_len :: nat
  gpt_block_size :: "nat option"
  primary_header :: gpt_header
  secondary_header :: gpt_header
  primary_entries :: "gpt_entry list"
  secondary_entries :: "gpt_entry list"

text \<open>\<open>size_of::<GptLoadBufferN<0>>()\<close>: block size and two headers.\<close>

definition LOAD_BUFFER_MIN :: nat where
  "LOAD_BUFFER_MIN = 8 + 2 * GPT_HEADER_SIZE"

definition gpt_buffer_size :: "nat \<Rightarrow> nat res" where
  "gpt_buffer_size entries =
     (if GPT_MAX_NUM_ENTRIES < entries then Err InvalidInput
      else Ok (LOAD_BUFFER_MIN + entries * GPT_ENTRY_SIZE * 2))"

definition max_supported_entries :: "nat \<Rightarrow> nat res" where
  "max_supported_entries len =
     (if len < LOAD_BUFFER_MIN then Err (BufferTooSmall (Some LOAD_BUFFER_MIN))
      else Ok ((len - LOAD_BUFFER_MIN) div 2 div GPT_ENTRY_SIZE))"

definition load_buffer_from :: "nat \<Rightarrow> byte list \<Rightarrow> gpt res" where
  "load_buffer_from addr buffer =
     map_ok (\<lambda>max_n.
       let n = min GPT_MAX_NUM_ENTRIES max_n;
           hs = GPT_HEADER_SIZE;
           es = n * GPT_ENTRY_SIZE;
           bs = le_at 0 8 buffer
       in \<lparr> gpt_addr = addr, gpt_len = length buffer,
            gpt_block_size = (if bs = 0 then None else Some bs),
            primary_header = header_of_bytes (take hs (drop 8 buffer)),
            secondary_header = header_of_bytes (take hs (drop (8 + hs) buffer)),
            primary_entries = entries_of_bytes (take es (drop LOAD_BUFFER_MIN buffer)),
            secondary_entries = entries_of_bytes (take es (drop (LOAD_BUFFER_MIN + es) buffer)) \<rparr>)
       (unwrap (max_supported_entries (length buffer)))"

definition gpt_new :: "nat \<Rightarrow> byte list \<Rightarrow> gpt res" where
  "gpt_new addr buffer =
     and_then (max_supported_entries (length buffer)) (\<lambda>_.
     map_ok (\<lambda>g. g\<lparr> gpt_block_size := None \<rparr>) (load_buffer_from addr buffer))"

definition new_gpt_n :: "nat \<Rightarrow> nat \<Rightarrow> gpt res" where
  "new_gpt_n n addr = unwrap (gpt_new addr (replicate (LOAD_BUFFER_MIN + 2 * (n * GPT_ENTRY_SIZE)) 0))"

definition new_gpt_max :: "nat \<Rightarrow> gpt res" where
  "new_gpt_max = new_gpt_n GPT_MAX_NUM_ENTRIES"

definition max_entries :: "gpt \<Rightarrow> nat res" where
  "max_entries self = unwrap (max_supported_entries (gpt_len self))"

text \<open>
  The two halves of the buffer: \<open>prim\<close> selects the primary (\<open>HeaderType::Primary\<close>) or the secondary one.
\<close>

definition header_addr :: "bool \<Rightarrow> gpt \<Rightarrow> nat" where
  "header_addr prim g = (if prim then gpt_addr g + 8 else gpt_addr g + 8 + GPT_HEADER_SIZE)"

definition entries_addr :: "bool \<Rightarrow> gpt \<Rightarrow> nat" where
  "entries_addr prim g = (if prim then gpt_addr g + LOAD_BUFFER_MIN
     else gpt_addr g + LOAD_BUFFER_MIN + length (primary_entries g) * GPT_ENTRY_SIZE)"

definition get_header :: "bool \<Rightarrow> gpt \<Rightarrow> gpt_header" where
  "get_header prim g = (if prim then primary_header g else secondary_header g)"

definition set_header :: "bool \<Rightarrow> gpt_header \<Rightarrow> gpt \<Rightarrow> gpt" where
  "set_header prim h g = (if prim then g\<lparr> primary_header := h \<rparr> else g\<lparr> secondary_header := h \<rparr>)"

definition get_entries :: "bool \<Rightarrow> gpt \<Rightarrow> gpt_entry list" where
  "get_entries prim g = (if prim then primary_entries g else secondary_entries g)"

definition set_entries :: "bool \<Rightarrow> gpt_entry list \<Rightarrow> gpt \<Rightarrow> gpt" where
  "set_entries prim es g = (if prim then g\<lparr> primary_entries := es \<rparr> else g\<lparr> secondary_entries := es \<rparr>)"

section \<open>Queries\<close>

definition check_valid :: "gpt \<Rightarrow> nat res" where
  "check_valid self = ok_or (gpt_block_size self) InvalidState"

record partition_iterator =
  it_entries :: "gpt_entry list"
  it_block_size :: nat
  it_idx :: nat

definition partition_iter :: "gpt \<Rightarrow> partition_iterator res" where
  "partition_iter self = map_ok (\<lambda>bs. \<lparr> it_entries = primary_entries self, it_block_size = bs, it_idx = 0 \<rparr>)
     (check_valid self)"

definition partition_iter_next :: "partition_iterator \<Rightarrow> partition option \<times> partition_iterator" where
  "partition_iter_next self =
     (if it_idx self < length (it_entries self) \<and> \<not> is_null (it_entries self ! it_idx self)
      then (Some (partition_new (it_entries self ! it_idx self) (it_block_size self)),
            self\<lparr> it_idx := it_idx self + 1 \<rparr>)
      else (None, self))"

definition gpt_entries :: "gpt \<Rightarrow> gpt_entry list res" where
  "gpt_entries self = map_ok (\<lambda>_. used_entries (primary_entries self)) (check_valid self)"

definition num_partitions :: "gpt \<Rightarrow> nat res" where
  "num_partitions self = map_ok length (gpt_entries self)"

definition get_partition :: "nat \<Rightarrow> gpt \<Rightarrow> partition res" where
  "get_partition idx self =
     and_then (check_valid self) (\<lambda>bs.
     and_then (gpt_entries self) (\<lambda>es.
       if idx < length es then Ok (partition_new (es ! idx) bs) else Err (BadIndex idx)))"

fun find_in :: "byte list \<Rightarrow> nat \<Rightarrow> gpt_entry list \<Rightarrow> partition res" where
  "find_in part bs [] = Err NotFound"
| "find_in part bs (e # es) =
     and_then (name_to_str (GPT_NAME_LEN_U16 * 2) e) (\<lambda>name.
       if name \<noteq> part then find_in part bs es else Ok (partition_new e bs))"

definition find_partition :: "byte list \<Rightarrow> gpt \<Rightarrow> partition res" where
  "find_partition part self =
     and_then (check_valid self) (\<lambda>bs. and_then (gpt_entries self) (find_in part bs))"

definition gpt_check_range :: "byte list \<Rightarrow> nat \<Rightarrow> nat \<Rightarrow> gpt \<Rightarrow> nat res" where
  "gpt_check_range part offset sz self =
     and_then (find_partition part self) (partition_check_range offset sz)"

section \<open>Loading and checking\<close>

text \<open>The state of an operation on a disk with its GPT.\<close>

record 's gpt_disk =
  g_gpt :: gpt
  g_disk :: "'s disk"

definition read_header :: "'s block_io \<Rightarrow> bool \<Rightarrow> nat \<Rightarrow> ('s gpt_disk, unit) io" where
  "read_header io prim start st =
     (case disk_read io start (header_addr prim (g_gpt st)) (header_bytes (get_header prim (g_gpt st))) (g_disk st) of
        (r, b, d) \<Rightarrow> (r, \<lparr> g_gpt = set_header prim (header_of_bytes b) (g_gpt st), g_disk = d \<rparr>))"

text \<open>Reading the first \<open>sz\<close> bytes of an array of entries; the rest of the array is kept.\<close>

definition read_entries :: "'s block_io \<Rightarrow> bool \<Rightarrow> nat \<Rightarrow> nat \<Rightarrow> ('s gpt_disk, unit) io" where
  "read_entries io prim start sz st =
     (let bytes = entries_bytes (get_entries prim (g_gpt st)) in
      case disk_read io start (entries_addr prim (g_gpt st)) (take sz bytes) (g_disk st) of
        (r, b, d) \<Rightarrow> (r, \<lparr> g_gpt = set_entries prim (entries_of_bytes (b @ drop sz bytes)) (g_gpt st), g_disk = d \<rparr>))"

text \<open>The size in bytes of the entries of a checked header, if the buffer \<open>es\<close> has room for them.\<close>

definition entries_room :: "gpt_header \<Rightarrow> gpt_entry list \<Rightarrow> nat res" where
  "entries_room header es =
     and_then (unwrap (sn_try (sn_mul (sn (h_entries_count header)) (sn GPT_ENTRY_SIZE)))) (\<lambda>size.
       if size \<le> length (entries_bytes es) then Ok size
       else and_then (unwrap (gpt_buffer_size (h_entries_count header))) (\<lambda>need.
              Err (BufferTooSmall (Some need))))"

definition header_start :: "block_info \<Rightarrow> bool \<Rightarrow> nat res" where
  "header_start info prim =
     (if prim then Ok (block_size info)
      else sn_try (sn_mul (sn_sub (sn (num_blocks info)) (sn 1)) (sn (block_size info))))"

definition load_and_validate_gpt :: "gpt_env \<Rightarrow> 's block_io \<Rightarrow> bool \<Rightarrow> ('s gpt_disk, unit) io" where
  "load_and_validate_gpt env io prim =
     st_then (st_gets (\<lambda>st. Ok (disk_block_info io (g_disk st)))) (\<lambda>info.
     st_then (st_lift (header_start info prim)) (\<lambda>start.
     st_then (read_header io prim start) (\<lambda>_.
     st_then (st_gets (\<lambda>st. check_header env (disk_block_info io (g_disk st)) (get_header prim (g_gpt st)) prim)) (\<lambda>_.
     st_then (st_gets (\<lambda>st. entries_room (get_header prim (g_gpt st)) (get_entries prim (g_gpt st)))) (\<lambda>size.
     st_then (st_gets (\<lambda>st. unwrap (sn_try (sn_mul (sn (h_entries (get_header prim (g_gpt st)))) (sn (block_size info)))))) (\<lambda>pos.
     st_then (read_entries io prim pos size) (\<lambda>_.
     st_gets (\<lambda>st. check_entries env (get_header prim (g_gpt st)) (entries_bytes (get_entries prim (g_gpt st)))))))))))"

section \<open>Synchronising\<close>

datatype gpt_sync_result =
    BothValid
  | PrimaryRestored error
  | SecondaryRestored error
  | NoValidGpt error error

fun sync_res :: "gpt_sync_result \<Rightarrow> unit res" where
  "sync_res (NoValidGpt primary secondary) = Err primary"
| "sync_res _ = Ok ()"

definition is_consistent :: "gpt_header \<Rightarrow> gpt_header \<Rightarrow> bool" where
  "is_consistent primary secondary \<longleftrightarrow>
     primary\<lparr> h_crc32 := h_crc32 secondary, h_current := h_current secondary, h_backup := 1,
             h_entries := h_entries secondary \<rparr> = secondary"

text \<open>Writes of the parts of the load buffer to the disk.\<close>

definition write_part :: "'s block_io \<Rightarrow> nat \<Rightarrow> (gpt \<Rightarrow> nat) \<Rightarrow> (gpt \<Rightarrow> byte list) \<Rightarrow> ('s gpt_disk, unit) io" where
  "write_part io pos addr bytes st =
     (case disk_write io pos (addr (g_gpt st)) (bytes (g_gpt st)) (g_disk st) of
        (r, b, d) \<Rightarrow> (r, st\<lparr> g_disk := d \<rparr>))"

definition upd_gpt :: "(gpt \<Rightarrow> gpt) \<Rightarrow> ('s gpt_disk, unit) io" where
  "upd_gpt f st = (Ok (), st\<lparr> g_gpt := f (g_gpt st) \<rparr>)"

definition restore_primary :: "gpt_env \<Rightarrow> 's block_io \<Rightarrow> nat \<Rightarrow> unit safe_num \<Rightarrow> ('s gpt_disk, unit) io" where
  "restore_primary env io blk_sz secondary_header_blk =
     st_then (upd_gpt (\<lambda>g. g\<lparr> primary_header := (secondary_header g)\<lparr> h_current := 1 \<rparr>,
                              primary_entries := secondary_entries g \<rparr>)) (\<lambda>_.
     st_then (st_lift (sn_try secondary_header_blk)) (\<lambda>backup.
     st_then (upd_gpt (\<lambda>g. g\<lparr> primary_header := update_crc env
         ((primary_header g)\<lparr> h_backup := backup, h_entries := 2 \<rparr>) \<rparr>)) (\<lambda>_.
     st_then (write_part io blk_sz (header_addr True) (\<lambda>g. header_bytes (primary_header g))) (\<lambda>_.
     st_then (st_lift (sn_try (sn_mul (sn 2) (sn blk_sz)))) (\<lambda>pos.
     write_part io pos (entries_addr True) (\<lambda>g. entries_bytes (primary_entries g)))))))"

definition restore_secondary :: "gpt_env \<Rightarrow> 's block_io \<Rightarrow> nat \<Rightarrow> unit safe_num \<Rightarrow> ('s gpt_disk, unit) io" where
  "restore_secondary env io blk_sz secondary_header_blk =
     (let pos = sn_mul secondary_header_blk (sn blk_sz);
          secondary_entries_pos = sn_sub pos (sn GPT_MAX_NUM_ENTRIES_SIZE);
          secondary_entries_blk = sn_div secondary_entries_pos (sn blk_sz) in
     st_then (upd_gpt (\<lambda>g. g\<lparr> secondary_header := primary_header g, secondary_entries := primary_entries g \<rparr>)) (\<lambda>_.
     st_then (st_lift (sn_try secondary_header_blk)) (\<lambda>current.
     st_then (upd_gpt (\<lambda>g. g\<lparr> secondary_header := (secondary_header g)\<lparr> h_current := current, h_backup := 1 \<rparr> \<rparr>)) (\<lambda>_.
     st_then (st_lift (sn_try secondary_entries_blk)) (\<lambda>entries_blk.
     st_then (upd_gpt (\<lambda>g. g\<lparr> secondary_header := update_crc env
         ((secondary_header g)\<lparr> h_entries := entries_blk \<rparr>) \<rparr>)) (\<lambda>_.
     st_then (st_lift (sn_try pos)) (\<lambda>header_pos.
     st_then (write_part io header_pos (header_addr False) (\<lambda>g. header_bytes (secondary_header g))) (\<lambda>_.
     st_then (st_lift (sn_try secondary_entries_pos)) (\<lambda>entries_pos.
     write_part io entries_pos (entries_addr False) (\<lambda>g. entries_bytes (secondary_entries g)))))))))))"

text \<open>
  Running a fallible step for its outcome: an error is a value for the caller, an abort is not.
\<close>

definition st_catch :: "('s, 'a) io \<Rightarrow> ('s, 'a + error) io" where
  "st_catch m s = (case m s of
      (Ok v, s') \<Rightarrow> (Ok (Inl v), s') | (Err e, s') \<Rightarrow> (Ok (Inr e), s') | (Panic, s') \<Rightarrow> (Panic, s'))"

definition sync_match ::
    "gpt_env \<Rightarrow> 's block_io \<Rightarrow> nat \<Rightarrow> unit safe_num \<Rightarrow> unit + error \<Rightarrow> unit + error \<Rightarrow> ('s gpt_disk, gpt_sync_result) io" where
  "sync_match env io blk_sz secondary_header_blk primary_res secondary_res =
     (case (primary_res, secondary_res) of
        (Inr primary, Inr secondary) \<Rightarrow> st_lift (Ok (NoValidGpt primary secondary))
      | (Inr e, Inl _) \<Rightarrow>
          st_then (restore_primary env io blk_sz secondary_header_blk) (\<lambda>_. st_lift (Ok (PrimaryRestored e)))
      | (Inl _, v) \<Rightarrow>
          st_then (st_gets (\<lambda>st. Ok (v = Inl ()
            \<and> is_consistent (primary_header (g_gpt st)) (secondary_header (g_gpt st))))) (\<lambda>consistent.
          if consistent then st_lift (Ok BothValid)
          else st_then (restore_secondary env io blk_sz secondary_header_blk) (\<lambda>_.
            st_lift (Ok (SecondaryRestored
              (case v of Inr e \<Rightarrow> e | Inl _ \<Rightarrow> GptError DifferentFromPrimary))))))"

definition load_and_sync :: "gpt_env \<Rightarrow> 's block_io \<Rightarrow> ('s gpt_disk, gpt_sync_result) io" where
  "load_and_sync env io =
     st_then (st_gets (\<lambda>st. Ok (disk_block_info io (g_disk st)))) (\<lambda>info.
     if block_size info = 0 then st_lift (Err InvalidInput)
     else
       let secondary_header_blk = sn_sub (sn (num_blocks info)) (sn 1) in
       st_then (st_catch (load_and_validate_gpt env io True)) (\<lambda>primary_res.
       st_then (st_catch (load_and_validate_gpt env io False)) (\<lambda>secondary_res.
       st_then (upd_gpt (\<lambda>g. g\<lparr> gpt_block_size := None \<rparr>)) (\<lambda>_.
       st_then (sync_match env io (block_size info) secondary_header_blk primary_res secondary_res) (\<lambda>sync_res.
       st_then (upd_gpt (\<lambda>g. g\<lparr> gpt_block_size := Some (block_size info) \<rparr>)) (\<lambda>_.
       st_lift (Ok sync_res)))))))"

definition sync_gpt :: "gpt_env \<Rightarrow> 's block_io \<Rightarrow> ('s gpt_disk, gpt_sync_result) io" where
  "sync_gpt env io = load_and_sync env io"

section \<open>Partition access\<close>

definition read_gpt_partition ::
    "'s block_io \<Rightarrow> gpt \<Rightarrow> byte list \<Rightarrow> nat \<Rightarrow> nat \<Rightarrow> byte list \<Rightarrow> 's disk \<Rightarrow> unit res \<times> byte list \<times> 's disk" where
  "read_gpt_partition io g part offset p out self =
     (case gpt_check_range part offset (length out) g of
        Ok off \<Rightarrow> disk_read io off p out self
      | Err e \<Rightarrow> (Err e, out, self)
      | Panic \<Rightarrow> (Panic, out, self))"

definition write_gpt_partition ::
    "'s block_io \<Rightarrow> gpt \<Rightarrow> byte list \<Rightarrow> nat \<Rightarrow> nat \<Rightarrow> byte list \<Rightarrow> 's disk \<Rightarrow> unit res \<times> byte list \<times> 's disk" where
  "write_gpt_partition io g part offset p data self =
     (case gpt_check_range part offset (length data) g of
        Ok off \<Rightarrow> disk_write io off p data self
      | Err e \<Rightarrow> (Err e, data, self)
      | Panic \<Rightarrow> (Panic, data, self))"

end
