(* ===== verification/Gpt_Builder.thy ===== *)
theory Gpt_Builder
  imports Gpt
begin

text \<open>
  Changing the GPT of a disk: \<open>update_gpt\<close> from an image of MBR, primary header and entries, \<open>erase_gpt\<close>,
  and \<open>GptBuilder\<close>, which edits the table in the secondary half of the load buffer and writes it back.
\<close>

section \<open>Updating from an image\<close>

text \<open>The header adjusted to the size of the device.\<close>

definition adjust_header :: "gpt_env \<Rightarrow> block_info \<Rightarrow> gpt_header \<Rightarrow> gpt_header res" where
  "adjust_header env info header =
     (let entries_blk = sn_div (sn GPT_MAX_NUM_ENTRIES_SIZE) (sn (block_size info));
          num_blks = sn (num_blocks info) in
      and_then (unwrap (sn_try (sn_sub (sn_sub num_blks entries_blk) (sn 2)))) (\<lambda>last.
      and_then (unwrap (sn_try (sn_sub num_blks (sn 1)))) (\<lambda>backup.
        Ok (update_crc env (header\<lparr> h_last := last, h_backup := backup \<rparr>)))))"

text \<open>\<open>filter(|e| !e.is_null()).last().map(|v| v.last = last)\<close>\<close>

fun resize_last :: "nat \<Rightarrow> gpt_entry list \<Rightarrow> gpt_entry list" where
  "resize_last end_blk [] = []"
| "resize_last end_blk (e # es) =
     (if \<not> is_null e \<and> (\<forall>x \<in> set es. is_null x) then e\<lparr> e_last := end_blk \<rparr> # es
      else e # resize_last end_blk es)"

definition resize_entries :: "gpt_env \<Rightarrow> block_info \<Rightarrow> gpt_header \<Rightarrow> byte list \<Rightarrow> (gpt_header \<times> byte list) res" where
  "resize_entries env info header entries =
     (let entries' = entries_bytes (resize_last (h_last header) (entries_of_bytes entries)) in
      and_then (update_entries_crc env entries' header) (\<lambda>header'.
      and_then (unwrap (check_header env info header' True)) (\<lambda>_.
      and_then (unwrap (check_entries env header' entries')) (\<lambda>_. Ok (header', entries')))))"

text \<open>The position of the entries in the image, relative to its start, and their size.\<close>

definition image_entries :: "nat \<Rightarrow> gpt_header \<Rightarrow> byte list \<Rightarrow> (nat \<times> nat) res" where
  "image_entries blk_sz header img =
     and_then (unwrap (sn_try (sn_mul (sn_sub (sn (h_entries header)) (sn 2)) (sn blk_sz)))) (\<lambda>entries_off.
     and_then (unwrap (sn_try (sn_mul (sn (h_entries_count header)) (sn (h_entries_size header))))) (\<lambda>entries_size.
     and_then (pmul 2 blk_sz) (\<lambda>x. and_then (padd x entries_off) (\<lambda>start. and_then (padd start entries_size) (\<lambda>need.
       if need \<le> length img then Ok (start, entries_size) else Err (BufferTooSmall (Some need)))))))"

text \<open>Everything \<open>update_gpt\<close> does to the image before it is written.\<close>

definition prepare_image :: "gpt_env \<Rightarrow> block_info \<Rightarrow> bool \<Rightarrow> byte list \<Rightarrow> unit res \<times> byte list" where
  "prepare_image env info resize img =
     (let blk_sz = block_size info in
      if U64 \<le> blk_sz * 2 then (Panic, img)
      else if length img < blk_sz + blk_sz then (Err (BufferTooSmall (Some (blk_sz * 2))), img)
      else if blk_sz < GPT_HEADER_SIZE then (Panic, img)
      else case adjust_header env info (header_of_bytes (take GPT_HEADER_SIZE (drop blk_sz img))) of
          Ok header \<Rightarrow>
            let img1 = overwrite blk_sz (header_bytes header) img in
            (case and_then (check_header env info header True) (\<lambda>_. image_entries blk_sz header img1) of
               Ok (a, n) \<Rightarrow>
                 let entries = take n (drop a img1) in
                 (case check_entries env header entries of
                    Ok _ \<Rightarrow>
                      if resize then
                        (case resize_entries env info header entries of
                           Ok (header', entries') \<Rightarrow>
                             (Ok (), overwrite a entries' (overwrite blk_sz (header_bytes header') img1))
                         | Err e \<Rightarrow> (Err e, img1)
                         | Panic \<Rightarrow> (Panic, img1))
                      else (Ok (), img1)
                  | Err e \<Rightarrow> (Err e, img1)
                  | Panic \<Rightarrow> (Panic, img1))
             | Err e \<Rightarrow> (Err e, img1)
             | Panic \<Rightarrow> (Panic, img1))
        | Err e \<Rightarrow> (Err e, img)
        | Panic \<Rightarrow> (Panic, img))"

definition update_gpt ::
    "gpt_env \<Rightarrow> 's block_io \<Rightarrow> nat \<Rightarrow> byte list \<Rightarrow> bool \<Rightarrow> 's gpt_disk \<Rightarrow> unit res \<times> byte list \<times> 's gpt_disk" where
  "update_gpt env io p mbr_primary resize st =
     (case prepare_image env (disk_block_info io (g_disk st)) resize mbr_primary of
        (Ok _, img) \<Rightarrow>
          (case disk_write io 0 p img (g_disk st) of
             (Ok _, b, d) \<Rightarrow>
               (case sync_gpt env io (st\<lparr> g_disk := d \<rparr>) of
                  (Ok res, st') \<Rightarrow> (sync_res res, b, st')
                | (Err e, st') \<Rightarrow> (Err e, b, st')
                | (Panic, st') \<Rightarrow> (Panic, b, st'))
           | (Err e, b, d) \<Rightarrow> (Err e, b, st\<lparr> g_disk := d \<rparr>)
           | (Panic, b, d) \<Rightarrow> (Panic, b, st\<lparr> g_disk := d \<rparr>))
      | (Err e, img) \<Rightarrow> (Err e, img, st)
      | (Panic, img) \<Rightarrow> (Panic, img, st))"

section \<open>Erasing\<close>

text \<open>A step of \<open>erase_gpt\<close>: zero-fill with the array of primary entries as scratch. \<open>None\<close> does not return.\<close>

definition fill_part :: "'s block_io \<Rightarrow> nat res \<Rightarrow> nat res \<Rightarrow> 's gpt_disk \<Rightarrow> (unit res \<times> 's gpt_disk) option" where
  "fill_part io off len st =
     (case and_then off (\<lambda>o1. map_ok (\<lambda>n. (o1, n)) len) of
        Ok (o1, n) \<Rightarrow> map_option (\<lambda>(r, b, d).
            (r, st\<lparr> g_gpt := (g_gpt st)\<lparr> primary_entries := entries_of_bytes b \<rparr>, g_disk := d \<rparr>))
          (disk_fill io o1 n 0 (entries_addr True (g_gpt st)) (entries_bytes (primary_entries (g_gpt st))) (g_disk st))
      | Err e \<Rightarrow> Some (Err e, st)
      | Panic \<Rightarrow> Some (Panic, st))"

definition opt_then ::
    "('s \<Rightarrow> (unit res \<times> 's) option) \<Rightarrow> ('s \<Rightarrow> (unit res \<times> 's) option) \<Rightarrow> 's \<Rightarrow> (unit res \<times> 's) option" where
  "opt_then m k st = (case m st of
      None \<Rightarrow> None | Some (Ok _, st') \<Rightarrow> k st' | Some (Err e, st') \<Rightarrow> Some (Err e, st')
    | Some (Panic, st') \<Rightarrow> Some (Panic, st'))"

definition erase_parts :: "'s block_io \<Rightarrow> nat \<Rightarrow> gpt_header \<Rightarrow> gpt_header \<Rightarrow> 's gpt_disk \<Rightarrow> (unit res \<times> 's gpt_disk) option" where
  "erase_parts io blk_sz primary secondary =
     (let entries_size = unwrap (sn_try (sn_mul (sn (h_entries_count primary)) (sn GPT_ENTRY_SIZE))) in
      opt_then (fill_part io (pmul (h_current primary) blk_sz) (Ok blk_sz))
     (opt_then (fill_part io (pmul (h_entries primary) blk_sz) entries_size)
     (opt_then (fill_part io (pmul (h_current secondary) blk_sz) (Ok blk_sz))
               (fill_part io (pmul (h_entries secondary) blk_sz) entries_size))))"

definition erase_gpt :: "gpt_env \<Rightarrow> 's block_io \<Rightarrow> 's gpt_disk \<Rightarrow> (unit res \<times> 's gpt_disk) option" where
  "erase_gpt env io st =
     (case sync_gpt env io st of
        (Ok res, st1) \<Rightarrow>
          (case sync_res res of
             Err e \<Rightarrow> Some (Ok (), st1)
           | _ \<Rightarrow> erase_parts io (block_size (disk_block_info io (g_disk st1)))
                    (primary_header (g_gpt st1)) (secondary_header (g_gpt st1))
                    (st1\<lparr> g_gpt := (g_gpt st1)\<lparr> gpt_block_size := None \<rparr> \<rparr>))
      | (Err e, st1) \<Rightarrow> Some (Err e, st1)
      | (Panic, st1) \<Rightarrow> Some (Panic, st1))"

text \<open>The methods of \<open>Disk\<close>.\<close>

definition disk_update_gpt ::
    "gpt_env \<Rightarrow> 's block_io \<Rightarrow> nat \<Rightarrow> byte list \<Rightarrow> bool \<Rightarrow> 's gpt_disk \<Rightarrow> unit res \<times> byte list \<times> 's gpt_disk" where
  "disk_update_gpt env io p mbr_primary resize = update_gpt env io p mbr_primary resize"

definition disk_erase_gpt :: "gpt_env \<Rightarrow> 's block_io \<Rightarrow> 's gpt_disk \<Rightarrow> (unit res \<times> 's gpt_disk) option" where
  "disk_erase_gpt env io = erase_gpt env io"

section \<open>Building\<close>

definition min_required_blocks :: "nat \<Rightarrow> nat res" where
  "min_required_blocks bs = map_ok (\<lambda>n. 1 + (1 + n) * 2) (gpt_entries_blk bs)"

text \<open>The secondary header of a disk without a table.\<close>

definition fresh_header :: "block_info \<Rightarrow> gpt_header res" where
  "fresh_header info =
     and_then (unwrap (gpt_entries_blk (block_size info))) (\<lambda>entries_blk.
     let num_blks = sn (num_blocks info) in
     and_then (unwrap (sn_try (sn_sub num_blks (sn 1)))) (\<lambda>current.
     and_then (unwrap (sn_try (sn_sub (sn_sub (sn_sub num_blks (sn 1)) (sn entries_blk)) (sn 1)))) (\<lambda>last.
     and_then (unwrap (sn_try (sn_sub (sn_sub num_blks (sn 1)) (sn entries_blk)))) (\<lambda>entries.
       Ok ((header_of_bytes (replicate GPT_HEADER_SIZE 0))\<lparr> h_magic := GPT_MAGIC, h_current := current,
         h_backup := 1, h_size := GPT_HEADER_SIZE, h_first := 1 + 1 + entries_blk, h_last := last,
         h_entries := entries, h_entries_count := 0, h_entries_size := GPT_ENTRY_SIZE \<rparr>)))))"

definition zero_entry :: gpt_entry where
  "zero_entry = entry_of_bytes (replicate GPT_ENTRY_SIZE 0)"

definition sort_entries :: "gpt_env \<Rightarrow> gpt_entry list \<Rightarrow> gpt_entry list" where
  "sort_entries env es =
     map (\<lambda>i. es ! i) (env_sort env (map (\<lambda>e. if is_null e then U64 - 1 else e_first e) es))"

definition builder_new :: "gpt_env \<Rightarrow> 's block_io \<Rightarrow> ('s gpt_disk, bool) io" where
  "builder_new env io =
     st_then (st_gets (\<lambda>st. Ok (disk_block_info io (g_disk st)))) (\<lambda>info.
     st_then (st_lift (min_required_blocks (block_size info))) (\<lambda>required.
     if num_blocks info < required then st_lift (Err (GptError DiskTooSmall))
     else
       st_then (sync_gpt env io) (\<lambda>res.
       let has_valid_gpt = (sync_res res = Ok ()) in
       st_then (st_gets (\<lambda>st. if has_valid_gpt then Ok (secondary_header (g_gpt st), secondary_entries (g_gpt st))
           else map_ok (\<lambda>h. (h, replicate (length (secondary_entries (g_gpt st))) zero_entry))
                  (fresh_header (disk_block_info io (g_disk st))))) (\<lambda>(header, entries).
       st_then (upd_gpt (\<lambda>g. g\<lparr> secondary_header := header\<lparr> h_entries_count := length (used_entries entries) \<rparr>,
                                secondary_entries := sort_entries env entries \<rparr>)) (\<lambda>_.
       st_lift (Ok has_valid_gpt))))))"

fun position :: "('a \<Rightarrow> bool) \<Rightarrow> 'a list \<Rightarrow> nat option" where
  "position P [] = None"
| "position P (x # xs) = (if P x then Some 0 else map_option Suc (position P xs))"

definition builder_remove :: "byte list \<Rightarrow> gpt \<Rightarrow> bool res \<times> gpt" where
  "builder_remove part g =
     (let count = h_entries_count (secondary_header g); es = secondary_entries g in
      if length es < count then (Panic, g)
      else case position (\<lambda>e. match_name part e = Ok True) (take count es) of
          Some n \<Rightarrow>
            (Ok True, g\<lparr> secondary_entries := take n es @ drop (n + 1) (take count es) @ [zero_entry] @ drop count es,
                        secondary_header := (secondary_header g)\<lparr> h_entries_count := count - 1 \<rparr> \<rparr>)
        | None \<Rightarrow> (Ok False, g))"

text \<open>The block range for a new entry at index \<open>idx\<close> of the \<open>n\<close> sorted entries: its first block and its size.\<close>

definition gap_before :: "gpt_header \<Rightarrow> gpt_entry list \<Rightarrow> nat \<Rightarrow> nat \<Rightarrow> (nat \<times> nat) res" where
  "gap_before header es n idx =
     and_then (if idx = 0 then Ok (h_first header) else padd (e_last (es ! (idx - 1))) 1) (\<lambda>prev_end.
     and_then (if idx = n then padd (h_last header) 1 else Ok (e_first (es ! idx))) (\<lambda>next_start.
     Ok (prev_end, next_start)))"

definition blocks_for :: "nat \<Rightarrow> nat option \<Rightarrow> nat \<Rightarrow> nat \<Rightarrow> nat res" where
  "blocks_for blk_sz sz prev_end next_start = (case sz of
      Some v \<Rightarrow> sn_try (sn_div (sn_round_up (sn v) (sn blk_sz)) (sn blk_sz))
    | None \<Rightarrow> psub next_start prev_end)"

definition set_name :: "nat list \<Rightarrow> nat list \<Rightarrow> nat list" where
  "set_name units name = overwrite 0 (take GPT_NAME_LEN_U16 units) name"

definition insert_before ::
    "nat \<Rightarrow> nat \<Rightarrow> byte list \<Rightarrow> byte list \<Rightarrow> byte list \<Rightarrow> nat \<Rightarrow> nat option \<Rightarrow> gpt \<Rightarrow> unit res \<times> gpt" where
  "insert_before blk_sz idx name part_type unique_guid flags sz g =
     (let header = secondary_header g; es = secondary_entries g in
      case position is_null es of
        None \<Rightarrow> (Err OutOfResources, g)
      | Some n \<Rightarrow>
          let idx = min n idx in
          (case and_then (gap_before header es n idx) (\<lambda>(prev_end, next_start).
                  and_then (blocks_for blk_sz sz prev_end next_start) (\<lambda>blocks.
                  and_then (psub next_start prev_end) (\<lambda>gap.
                    if gap < blocks then Err OutOfResources
                    else map_ok (\<lambda>last. (prev_end, last)) (and_then (padd prev_end blocks) (\<lambda>x. psub x 1))))) of
             Ok (lo, hi) \<Rightarrow>
               let entry = (es ! n)\<lparr> e_part_type := part_type, e_guid := unique_guid, e_flags := flags,
                     e_first := lo, e_last := hi, e_name := set_name (encode_utf16 name) (e_name (es ! n)) \<rparr>
               in (Ok (), g\<lparr> secondary_entries := take idx es @ [entry] @ drop idx (take n es) @ drop (n + 1) es,
                            secondary_header := header\<lparr> h_entries_count := h_entries_count header + 1 \<rparr> \<rparr>)
           | Err e \<Rightarrow> (Err e, g)
           | Panic \<Rightarrow> (Panic, g)))"

text \<open>The search over the indices \<open>is\<close>; an error moves on to the next index.\<close>

fun add_loop ::
    "nat list \<Rightarrow> nat \<Rightarrow> byte list \<Rightarrow> byte list \<Rightarrow> byte list \<Rightarrow> nat \<Rightarrow> nat option \<Rightarrow> gpt \<Rightarrow> unit res \<times> gpt" where
  "add_loop [] blk_sz name part_type unique_guid flags sz g = (Err OutOfResources, g)"
| "add_loop (i # is) blk_sz name part_type unique_guid flags sz g =
     (case insert_before blk_sz i name part_type unique_guid flags sz g of
        (Ok _, g') \<Rightarrow> (Ok (), g')
      | (Err _, g') \<Rightarrow> add_loop is blk_sz name part_type unique_guid flags sz g'
      | (Panic, g') \<Rightarrow> (Panic, g'))"

definition builder_add ::
    "nat \<Rightarrow> byte list \<Rightarrow> byte list \<Rightarrow> byte list \<Rightarrow> nat \<Rightarrow> nat option \<Rightarrow> gpt \<Rightarrow> unit res \<times> gpt" where
  "builder_add blk_sz name part_type unique_guid flags sz g =
     (let entry_count = h_entries_count (secondary_header g);
          search_start = (if sz \<noteq> None then 0 else entry_count)
      in add_loop [search_start..<entry_count + 1] blk_sz name part_type unique_guid flags sz g)"

text \<open>\<open>tmp\<close> is the address of the temporary array with which the primary magic is cleared.\<close>

definition builder_persist :: "gpt_env \<Rightarrow> 's block_io \<Rightarrow> nat \<Rightarrow> ('s gpt_disk, unit) io" where
  "builder_persist env io tmp =
     st_then (st_gets (\<lambda>st. update_entries_crc env (entries_bytes (secondary_entries (g_gpt st)))
         (secondary_header (g_gpt st)))) (\<lambda>header.
     st_then (upd_gpt (\<lambda>g. g\<lparr> secondary_header := header \<rparr>)) (\<lambda>_.
     st_then (st_gets (\<lambda>st. unwrap (check_header env (disk_block_info io (g_disk st)) header False))) (\<lambda>_.
     st_then (st_gets (\<lambda>st. unwrap (check_entries env header (entries_bytes (secondary_entries (g_gpt st)))))) (\<lambda>_.
     st_then (st_gets (\<lambda>st. Ok (block_size (disk_block_info io (g_disk st))))) (\<lambda>blk_sz.
     st_then (st_lift (pmul (h_current header) blk_sz)) (\<lambda>header_pos.
     st_then (write_part io header_pos (header_addr False) (\<lambda>g. header_bytes (secondary_header g))) (\<lambda>_.
     st_then (st_lift (pmul (h_entries header) blk_sz)) (\<lambda>entries_pos.
     st_then (write_part io entries_pos (entries_addr False) (\<lambda>g. entries_bytes (secondary_entries g))) (\<lambda>_.
     st_then (write_part io blk_sz (\<lambda>_. tmp) (\<lambda>_. replicate 8 0)) (\<lambda>_.
     st_then (sync_gpt env io) (\<lambda>res. st_lift (sync_res res))))))))))))"

end
