(* ===== verification/Gpt_Correct.thy ===== *)
theory Gpt_Correct
  imports Gpt_Builder
begin

text \<open>
  Correctness of the GPT model: byte layouts are bijective, checked tables have disjoint partitions
  inside the usable range, partition accesses stay inside their partition.
\<close>

section \<open>Layouts\<close>

lemma length_header_bytes: "length (h_guid h) = 16 \<Longrightarrow> length (header_bytes h) = 92"
  by (simp add: header_bytes_def)

lemma header_of_bytes_wf: "length bs = 92 \<Longrightarrow> header_wf (header_of_bytes bs)"
  using le_at_bound [of _ 8 bs] le_at_bound [of _ 4 bs]
  by (simp add: header_wf_def header_of_bytes_def U64_def U32_def)

lemma header_bytes_of_bytes:
  assumes "length bs = 92"
  shows "header_bytes (header_of_bytes bs) = bs"
  using assms
  by (simp add: header_bytes_def header_of_bytes_def nat_to_le_at)
     (simp add: take_drop_join)

lemma header_of_bytes_bytes:
  assumes "header_wf h"
  shows "header_of_bytes (header_bytes h) = h"
  using assms by (simp add: header_bytes_def header_of_bytes_def header_wf_def le_at_def U64_def U32_def)

lemma length_name_bytes: "length (concat (map (nat_to_le k) us)) = k * length us"
  by (induction us) auto

lemma length_entry_bytes:
  "length (e_part_type e) = 16 \<Longrightarrow> length (e_guid e) = 16 \<Longrightarrow> length (e_name e) = 36 \<Longrightarrow> length (entry_bytes e) = 128"
  by (simp add: entry_bytes_def length_name_bytes)

lemma entry_of_bytes_wf: "length bs = 128 \<Longrightarrow> entry_wf (entry_of_bytes bs)"
proof -
  assume l: "length bs = 128"
  have "nat_from_le c < 0x10000" if "c \<in> set (chunks 2 36 (drop 56 bs))" for c
    using nat_from_le_bound [of c] length_chunk [OF _ that] l by simp
  then show ?thesis
    using l le_at_bound [of _ 8 bs] by (auto simp: entry_wf_def entry_of_bytes_def U64_def)
qed

lemma entry_bytes_of_bytes:
  assumes "length bs = 128"
  shows "entry_bytes (entry_of_bytes bs) = bs"
proof -
  have "nat_to_le 2 (nat_from_le c) = c" if "c \<in> set (chunks 2 36 (drop 56 bs))" for c
    using nat_to_from_le [of c] length_chunk [OF _ that] assms by simp
  then have "map (nat_to_le 2 \<circ> nat_from_le) (chunks 2 36 (drop 56 bs)) = chunks 2 36 (drop 56 bs)"
    by (intro map_idI) simp
  then have "concat (map (nat_to_le 2) (e_name (entry_of_bytes bs))) = drop 56 bs"
    using assms by (simp add: entry_of_bytes_def concat_chunks)
  then show ?thesis
    using assms take_drop_join [of 48 40 8 bs] take_drop_join [of 40 32 8 bs] take_drop_join [of 32 16 16 bs]
      take_drop_join [of 56 48 8 bs]
    by (simp add: entry_bytes_def entry_of_bytes_def nat_to_le_at)
qed

lemma entry_of_bytes_bytes:
  assumes "entry_wf e"
  shows "entry_of_bytes (entry_bytes e) = e"
proof -
  have "chunks 2 36 (concat (map (nat_to_le 2) (e_name e))) = map (nat_to_le 2) (e_name e)"
    using chunks_concat [of "map (nat_to_le 2) (e_name e)" 2 "[]"] assms by (simp add: entry_wf_def)
  moreover have "map (nat_from_le \<circ> nat_to_le 2) (e_name e) = e_name e"
    using assms by (intro map_idI) (auto simp: entry_wf_def)
  ultimately show ?thesis
    using assms by (simp add: entry_of_bytes_def entry_bytes_def entry_wf_def le_at_def U64_def)
qed

lemma entry_wf_length: "entry_wf e \<Longrightarrow> length (entry_bytes e) = 128"
  by (simp add: entry_wf_def length_entry_bytes)

lemma length_entries_bytes: "\<forall>e \<in> set es. entry_wf e \<Longrightarrow> length (entries_bytes es) = length es * 128"
  using length_concat_same [of "map entry_bytes es" 128] by (simp add: entries_bytes_def entry_wf_length)

lemma entries_of_bytes_bytes:
  assumes "\<forall>e \<in> set es. entry_wf e"
  shows "entries_of_bytes (entries_bytes es) = es"
proof -
  have "chunks 128 (length es) (concat (map entry_bytes es)) = map entry_bytes es"
    using chunks_concat [of "map entry_bytes es" 128 "[]"] assms by (simp add: entry_wf_length)
  moreover have "map (entry_of_bytes \<circ> entry_bytes) es = es"
    using assms by (intro map_idI) (simp add: entry_of_bytes_bytes)
  ultimately show ?thesis
    using length_entries_bytes [OF assms] by (simp add: entries_of_bytes_def entries_bytes_def)
qed

lemma entries_bytes_of_bytes:
  assumes "128 dvd length bs"
  shows "entries_bytes (entries_of_bytes bs) = bs"
proof -
  define m where "m = length bs div 128"
  have n: "m * 128 = length bs" using assms by (simp add: m_def)
  have "entry_bytes (entry_of_bytes c) = c" if "c \<in> set (chunks 128 m bs)" for c
    using length_chunk [OF _ that] n entry_bytes_of_bytes by simp
  then have "map (entry_bytes \<circ> entry_of_bytes) (chunks 128 m bs) = chunks 128 m bs"
    by (intro map_idI) simp
  moreover have "concat (chunks 128 m bs) = bs" using concat_chunks [of m 128 bs] n by simp
  ultimately show ?thesis by (simp add: entries_bytes_def entries_of_bytes_def m_def [symmetric])
qed

lemma entries_of_bytes_wf: "\<forall>e \<in> set (entries_of_bytes bs). entry_wf e"
proof
  fix e assume "e \<in> set (entries_of_bytes bs)"
  then obtain c where c: "c \<in> set (chunks 128 (length bs div 128) bs)" "e = entry_of_bytes c"
    by (auto simp: entries_of_bytes_def)
  then have "length c = 128" by (intro length_chunk [OF _ c(1)]) (simp add: div_times_less_eq_dividend)
  then show "entry_wf e" using c(2) by (simp add: entry_of_bytes_wf)
qed

lemma length_entries_of_bytes [simp]: "length (entries_of_bytes bs) = length bs div 128"
  by (simp add: entries_of_bytes_def)

lemma entries_of_bytes_take: "n * 128 \<le> length bs \<Longrightarrow> entries_of_bytes (take (n * 128) bs) = take n (entries_of_bytes bs)"
  by (simp add: entries_of_bytes_def take_map min_absorb2 chunks_take chunks_prefix less_eq_div_iff_mult_less_eq
      del: mult.commute)

section \<open>Checked headers\<close>

text \<open>What a header must satisfy on a device of the given geometry.\<close>

definition entries_blks :: "block_info \<Rightarrow> nat" where
  "entries_blks info = 16384 div block_size info"

definition header_ok :: "gpt_env \<Rightarrow> block_info \<Rightarrow> gpt_header \<Rightarrow> bool \<Rightarrow> bool" where
  "header_ok env info h prim \<longleftrightarrow> 0 < block_size info \<and> 16384 mod block_size info = 0
     \<and> (entries_blks info + 1) * 2 + 1 \<le> num_blocks info
     \<and> h_magic h = GPT_MAGIC \<and> h_crc32 h = calculate_header_crc env h
     \<and> h_size h = 92 \<and> h_entries_size h = 128 \<and> h_entries_count h \<le> 128
     \<and> entries_blks info + 2 \<le> h_first h \<and> h_first h \<le> h_last h + 1
     \<and> h_last h + entries_blks info + 2 \<le> num_blocks info
     \<and> (if prim then 2 \<le> h_entries h \<and> h_entries h + entries_blks info \<le> h_first h
        else h_last h < h_entries h \<and> h_entries h + entries_blks info + 1 \<le> num_blocks info)"

lemma check_first_last_eq:
  "h_last h < U64 \<Longrightarrow> check_first_last lo hi h = Ok () \<longleftrightarrow> h_first h \<le> h_last h + 1 \<and> lo \<le> h_first h \<and> h_last h \<le> hi \<and> h_last h + 1 < U64"
  "h_last h < U64 \<Longrightarrow> check_first_last lo hi h = Panic \<longleftrightarrow> h_last h = U64 - 1"
  by (auto simp: check_first_last_def padd_def)

lemma check_entries_start_eq:
  assumes "k \<le> h_first h"
  shows "check_entries_start k hi h prim = Ok () \<longleftrightarrow>
      (if prim then 2 \<le> h_entries h \<and> h_entries h + k \<le> h_first h else h_last h < h_entries h \<and> h_entries h \<le> hi + 1)"
    and "check_entries_start k hi h prim \<noteq> Panic"
  using assms by (auto simp: check_entries_start_def)

lemma check_header_eq:
  assumes "0 < block_size info" "num_blocks info < U64"
  defines "k \<equiv> entries_blks info"
  shows "check_header env info h prim =
    (if 16384 mod block_size info \<noteq> 0 then Err InvalidInput
     else if num_blocks info < (k + 1) * 2 + 1 then Err (GptError DiskTooSmall)
     else if h_magic h \<noteq> GPT_MAGIC then Err (GptError (IncorrectMagic (h_magic h)))
     else if calculate_header_crc env h \<noteq> h_crc32 h then Err (GptError IncorrectHeaderCrc)
     else if h_size h \<noteq> 92 then Err (GptError (UnexpectedHeaderSize (h_size h) 92))
     else if h_entries_size h \<noteq> 128 then Err (GptError (UnexpectedEntrySize (h_entries_size h) 128))
     else and_then (check_first_last (k + 2) (num_blocks info - k - 2) h) (\<lambda>_.
          and_then (check_entries_start k (num_blocks info - k - 2) h prim) (\<lambda>_.
            if 128 < h_entries_count h then Err (GptError (NumberOfEntriesOverflow (h_entries_count h) 128)) else Ok ())))"
proof -
  have g: "gpt_entries_blk (block_size info) = (if 16384 mod block_size info = 0 then Ok k else Err InvalidInput)"
    using assms(1) by (simp add: gpt_entries_blk_def gpt_consts k_def entries_blks_def)
  show ?thesis
  proof (cases "num_blocks info < (k + 1) * 2 + 1")
    case False
    then have "Suc 0 \<le> num_blocks info - Suc k" "k \<le> num_blocks info - Suc 0" "Suc 0 \<le> num_blocks info" by simp_all
    with False g show ?thesis by (simp add: check_header_def gpt_consts)
  qed (simp add: g check_header_def gpt_consts)
qed

lemma check_header_split:
  assumes "0 < block_size info" "num_blocks info < U64" "h_last h < U64"
  shows "check_header env info h prim = Ok () \<longleftrightarrow> header_ok env info h prim"
    and "check_header env info h prim = Panic \<Longrightarrow> h_last h = U64 - 1"
proof -
  define k where "k = entries_blks info"
  note eq = check_header_eq [OF assms(1,2), folded k_def] check_first_last_eq [OF assms(3)]
  show "check_header env info h prim = Ok () \<longleftrightarrow> header_ok env info h prim"
  proof (cases "k + 2 \<le> h_first h")
    case True
    then show ?thesis
      using assms check_entries_start_eq(1) [of k h _ prim]
      by (auto simp: eq header_ok_def k_def [symmetric] and_then_Ok_iff simp del: One_nat_def split: if_splits)
  next
    case False
    then show ?thesis by (auto simp: eq header_ok_def k_def [symmetric] and_then_Ok_iff)
  qed
  show "h_last h = U64 - 1" if "check_header env info h prim = Panic"
  proof (rule ccontr)
    assume ne: "h_last h \<noteq> U64 - 1"
    have "k + 2 \<le> h_first h" if "check_first_last (k + 2) (num_blocks info - k - 2) h = Ok ()"
      using that eq(2) by blast
    then show False
      using that ne check_entries_start_eq(2) [of k h _ prim]
      by (auto simp: eq(1,3) and_then_Panic_iff split: if_splits)
  qed
qed

section \<open>Checked entries\<close>

definition entry_ok :: "gpt_header \<Rightarrow> gpt_entry \<Rightarrow> bool" where
  "entry_ok h e \<longleftrightarrow> h_first h \<le> e_first e \<and> e_first e \<le> e_last e + 1 \<and> e_last e \<le> h_last h \<and> e_last e + 1 < U64
     \<and> e_part_type e \<noteq> replicate 16 0 \<and> e_guid e \<noteq> replicate 16 0"

definition entry_range :: "gpt_entry \<Rightarrow> nat set" where
  "entry_range e = {e_first e..e_last e}"

definition disjoint_entries :: "gpt_entry list \<Rightarrow> bool" where
  "disjoint_entries es \<longleftrightarrow> (\<forall>i < length es. \<forall>j < length es. i \<noteq> j \<longrightarrow> entry_range (es ! i) \<inter> entry_range (es ! j) = {})"

lemma check_each_Ok: "check_each h idx es = Ok () \<longleftrightarrow> (\<forall>e \<in> set es. entry_ok h e)"
  by (induction es arbitrary: idx) (auto simp: entry_ok_def padd_def gpt_consts and_then_Ok_iff)

lemma check_overlap_Ok:
  "check_overlap es l = Ok () \<Longrightarrow> Suc a < length l \<Longrightarrow>
     l ! a < length es \<and> l ! Suc a < length es \<and> e_last (es ! (l ! a)) < e_first (es ! (l ! Suc a))"
proof (induction es l arbitrary: a rule: check_overlap.induct)
  case (1 es prev nxt rest)
  then show ?case by (cases a) (auto split: if_splits)
qed auto

text \<open>In a sorted list the elements with smaller keys come first.\<close>

lemma sorted_partition:
  "sorted (map f p) \<Longrightarrow> \<forall>x \<in> set p. \<forall>y \<in> set p. P x \<longrightarrow> \<not> P y \<longrightarrow> f x < f y \<Longrightarrow>
     p = filter P p @ filter (\<lambda>x. \<not> P x) p"
proof (induction p)
  case (Cons x p)
  show ?case
  proof (cases "P x")
    case False
    then have "\<not> P y" if "y \<in> set p" for y
      using Cons.prems that by (fastforce simp: not_le)
    then have "filter P p = []" "filter (\<lambda>x. \<not> P x) p = p" by (auto simp: filter_empty_conv intro: filter_True)
    then show ?thesis using False by simp
  qed (use Cons in auto)
qed simp

lemma sorted_prefix:
  assumes "distinct p" "set p = {0..<N}" "sorted (map f p)" "n \<le> N" "\<forall>i < n. \<forall>j \<in> {n..<N}. f i < f j"
  shows "set (take n p) = {0..<n}"
proof -
  have p: "p = filter (\<lambda>i. i < n) p @ filter (\<lambda>i. \<not> i < n) p"
    by (rule sorted_partition [of f]) (use assms in auto)
  have "set (filter (\<lambda>i. i < n) p) = {0..<n}" using assms(2,4) by auto
  moreover from this have "length (filter (\<lambda>i. i < n) p) = n"
    using assms(1) by (metis card_atLeastLessThan diff_zero distinct_card distinct_filter)
  then have "take n p = filter (\<lambda>i. i < n) p" by (subst p) simp
  ultimately show ?thesis by simp
qed

lemma ordered_chain:
  assumes "check_overlap es l = Ok ()" "sorted (map (\<lambda>i. e_first (es ! i)) l)" "a < b" "b < length l"
  shows "e_last (es ! (l ! a)) < e_first (es ! (l ! b))"
proof -
  have "e_last (es ! (l ! a)) < e_first (es ! (l ! Suc a))"
    using check_overlap_Ok [OF assms(1), of a] assms(3,4) by simp
  also have "e_first (es ! (l ! Suc a)) \<le> e_first (es ! (l ! b))"
    using assms(2-4) by (auto simp: sorted_iff_nth_mono)
  finally show ?thesis .
qed

lemma overlap_disjoint:
  assumes ok: "check_overlap es l = Ok ()" and l: "set l = {0..<n}" "sorted (map (\<lambda>i. e_first (es ! i)) l)"
    and n: "n \<le> length es"
  shows "disjoint_entries (take n es)"
proof -
  have *: "entry_range (es ! (l ! a)) \<inter> entry_range (es ! (l ! b)) = {}" if "a < b" "b < length l" for a b
    using ordered_chain [OF ok l(2) that] by (auto simp: entry_range_def)
  have "entry_range (es ! i) \<inter> entry_range (es ! j) = {}" if "i < n" "j < n" "i \<noteq> j" for i j
  proof -
    have "i \<in> set l" "j \<in> set l" using that l(1) by auto
    then obtain a b where "a < length l" "l ! a = i" "b < length l" "l ! b = j"
      by (auto simp: in_set_conv_nth)
    then show ?thesis using * [of a b] * [of b a] that(3) by (cases a b rule: linorder_cases) auto
  qed
  then show ?thesis using n by (simp add: disjoint_entries_def)
qed

lemma length_used: "length (used_entries es) \<le> length es"
  by (simp add: used_entries_def length_takeWhile_le)

lemma take_used: "take (length (used_entries es)) es = used_entries es"
  by (metis append_eq_conv_conj takeWhile_dropWhile_id used_entries_def)

lemma nth_used: "i < length (used_entries es) \<Longrightarrow> used_entries es ! i = es ! i \<and> \<not> is_null (es ! i)"
  by (metis nth_mem set_takeWhileD takeWhile_nth used_entries_def)

text \<open>Unused entries are null entries.\<close>

definition nulls_last :: "gpt_entry list \<Rightarrow> bool" where
  "nulls_last es \<longleftrightarrow> (\<forall>e \<in> set (drop (length (used_entries es)) es). is_null e)"

lemma sorted_indices_used:
  assumes s: "sorts env" and es: "length es \<le> 128" "nulls_last es"
    and ok: "\<forall>e \<in> set (used_entries es). e_first e < U64 - 1"
  defines "n \<equiv> length (used_entries es)"
  defines "l \<equiv> take n (env_sort env (map (sort_key_of es) [0..<128]))"
  shows "set l = {0..<n}" "sorted (map (\<lambda>i. e_first (es ! i)) l)"
proof -
  let ?ks = "map (sort_key_of es) [0..<128]"
  let ?p = "env_sort env ?ks"
  have n: "n \<le> length es" unfolding n_def by (rule length_used)
  have p: "distinct ?p" "set ?p = {0..<128}" "sorted (map (\<lambda>i. ?ks ! i) ?p)"
    using s by (simp_all add: sorts_def)
  have used: "sort_key_of es i = e_first (es ! i)" "sort_key_of es i < U64 - 1" if "i < n" for i
    using that n ok nth_used [of i es] nth_mem [of i "used_entries es"] by (auto simp: sort_key_of_def n_def)
  have unused: "sort_key_of es i = U64 - 1" if "n \<le> i" for i
  proof (cases "i < length es")
    case True
    then have "es ! i \<in> set (drop n es)"
      using that by (metis add_diff_inverse_nat in_set_conv_nth length_drop less_diff_iff not_less nth_drop n)
    then show ?thesis using es(2) by (simp add: nulls_last_def sort_key_of_def n_def)
  qed (simp add: sort_key_of_def)
  show l: "set l = {0..<n}"
    unfolding l_def
    by (rule sorted_prefix [OF p(1,2), of "\<lambda>i. ?ks ! i"]) (use p(3) n es used unused in auto)
  have "sorted (map (\<lambda>i. ?ks ! i) l)" using p(3) by (simp add: l_def take_map [symmetric] sorted_wrt_take)
  moreover have "map (\<lambda>i. ?ks ! i) l = map (\<lambda>i. e_first (es ! i)) l"
    using l n es used by (intro map_cong) auto
  ultimately show "sorted (map (\<lambda>i. e_first (es ! i)) l)" by simp
qed

definition table_entries :: "gpt_header \<Rightarrow> byte list \<Rightarrow> gpt_entry list" where
  "table_entries h bytes = take (h_entries_count h) (entries_of_bytes bytes)"

lemma check_entries_Ok:
  "check_entries env h bytes = Ok () \<longleftrightarrow> h_entries_count h \<le> 128 \<and> h_entries_count h * 128 \<le> length bytes
     \<and> h_entries_crc h = gpt_crc32 env (take (h_entries_count h * 128) bytes)
     \<and> (\<forall>e \<in> set (used_entries (table_entries h bytes)). entry_ok h e)
     \<and> check_overlap (table_entries h bytes) (take (length (used_entries (table_entries h bytes)))
         (env_sort env (map (sort_key_of (table_entries h bytes)) [0..<128]))) = Ok ()"
proof (cases "h_entries_count h \<le> 128 \<and> h_entries_count h * 128 \<le> length bytes")
  case True
  then have "h_entries_count h * 128 < U64" "h_entries_count h \<le> length bytes div 128"
    by (simp_all add: U64_def less_eq_div_iff_mult_less_eq)
  with True show ?thesis
    by (simp add: check_entries_def gpt_consts Let_def entries_of_bytes_take table_entries_def min_absorb2
        and_then_Ok_iff check_each_Ok)
next
  case False
  then show ?thesis
    by (auto simp: check_entries_def gpt_consts and_then_Ok_iff rust_assert_def slice_get_def ok_or_def
        split: if_splits option.splits)
qed

lemma checked_entries_disjoint:
  assumes "sorts env" "check_entries env h bytes = Ok ()" "h_last h + 2 < U64" "nulls_last (table_entries h bytes)"
  shows "disjoint_entries (used_entries (table_entries h bytes))"
proof -
  let ?es = "table_entries h bytes"
  note ok = assms(2) [unfolded check_entries_Ok]
  have "length ?es \<le> 128" using ok by (auto simp: table_entries_def)
  moreover have "e_first e < U64 - 1" if "e \<in> set (used_entries ?es)" for e
  proof -
    have "entry_ok h e" using ok that by blast
    then show ?thesis using assms(3) unfolding entry_ok_def by linarith
  qed
  ultimately have "disjoint_entries (take (length (used_entries ?es)) ?es)"
    using sorted_indices_used [OF assms(1) _ assms(4)] ok by (intro overlap_disjoint) (simp_all add: length_used)
  then show ?thesis by (simp add: take_used)
qed

text \<open>An environment for the examples: a stable sort and a byte sum in place of the checksum.\<close>

definition sample_env :: gpt_env where
  "sample_env = \<lparr> env_crc32 = (\<lambda>bs. sum_list (map ucast bs)), env_sort = (\<lambda>ks. sort_key (\<lambda>i. ks ! i) [0..<length ks]) \<rparr>"

lemma sample_env_sorts: "sorts sample_env"
  by (simp add: sorts_def sample_env_def)

definition sample_entry :: "nat \<Rightarrow> nat \<Rightarrow> gpt_entry" where
  "sample_entry lo hi = \<lparr> e_part_type = replicate 16 1, e_guid = replicate 16 1, e_first = lo, e_last = hi,
     e_flags = 0, e_name = replicate 36 0 \<rparr>"

lemma sample_entry_wf: "lo < U64 \<Longrightarrow> hi < U64 \<Longrightarrow> entry_wf (sample_entry lo hi)"
  by (simp add: entry_wf_def sample_entry_def)

lemma sample_entry_fields [simp]:
  "e_first (sample_entry lo hi) = lo" "e_last (sample_entry lo hi) = hi" "is_null (sample_entry lo hi) \<longleftrightarrow> lo = 0 \<and> hi = 0"
  "e_part_type (sample_entry lo hi) = replicate 16 1" "e_guid (sample_entry lo hi) = replicate 16 1"
  by (simp_all add: sample_entry_def is_null_def)

lemma sorted_first_two:
  assumes p: "distinct p" "a \<in> set p" "b \<in> set p" "sorted (map f p)" and f: "f a < f b" "\<forall>x \<in> set p. x \<noteq> a \<longrightarrow> x \<noteq> b \<longrightarrow> f b < f x"
  shows "take 2 p = [a, b]"
proof -
  have ab: "a \<noteq> b" using f(1) by auto
  obtain x y r where xy: "p = x # y # r"
    using p(2,3) ab by (cases p; cases "tl p") auto
  have x: "x = a"
  proof (rule ccontr)
    assume "x \<noteq> a"
    then have "f x \<le> f a" using p(2,4) xy by auto
    then show False using f \<open>x \<noteq> a\<close> xy by (cases "x = b") auto
  qed
  have "y = b"
  proof (rule ccontr)
    assume "y \<noteq> b"
    moreover from this have "f y \<le> f b" using p(3,4) xy x ab by auto
    ultimately show False using f(2) p(1) xy x by auto
  qed
  with x xy show ?thesis by simp
qed

text \<open>A table with two partitions.\<close>

lemma check_two_entries:
  assumes "sorts env" "entry_ok h a" "entry_ok h b" "e_last a < e_first b" "e_first a < e_first b" "e_first b < U64 - 1" "0 < e_first a"
    and "entry_wf a" "entry_wf b" "h_entries_count h = 2" "h_entries_crc h = gpt_crc32 env (entries_bytes [a, b])"
  shows "check_entries env h (entries_bytes [a, b]) = Ok () \<and> table_entries h (entries_bytes [a, b]) = [a, b]
    \<and> used_entries [a, b] = [a, b]"
proof -
  have wf: "\<forall>e \<in> set [a, b]. entry_wf e" using assms by simp
  have len: "length (entries_bytes [a, b]) = 2 * 128" using length_entries_bytes [OF wf] by simp
  have te: "table_entries h (entries_bytes [a, b]) = [a, b]"
    using entries_of_bytes_bytes [OF wf] assms by (simp add: table_entries_def)
  have used: "used_entries [a, b] = [a, b]" using assms by (simp add: used_entries_def is_null_def)
  let ?ks = "map (sort_key_of [a, b]) [0..<128]"
  have key: "?ks ! i = (if i = 0 then e_first a else if i = 1 then e_first b else U64 - 1)" if "i < 128" for i
    using that assms by (auto simp: sort_key_of_def nth_Cons is_null_def split: nat.splits)
  have "take 2 (env_sort env ?ks) = [0, 1]"
    by (rule sorted_first_two [where f = "\<lambda>i. ?ks ! i"])
       (use assms in \<open>auto simp: sorts_def key simp del: nth_map\<close>)
  then have "check_overlap [a, b] (take (length (used_entries [a, b])) (env_sort env ?ks)) = Ok ()"
    using assms by (simp add: used numeral_2_eq_2 [symmetric])
  then have "check_entries env h (entries_bytes [a, b]) = Ok ()"
    unfolding check_entries_Ok te by (simp add: used) (simp add: len assms)
  with te used show ?thesis by simp
qed

text \<open>
  C11. A table of entries that passes the check, in which unused entries are null, has partitions inside
  the usable range of the header that do not share a block, and their GUIDs are set.
\<close>

theorem check_entries_sound:
  assumes "sorts env" "check_entries env h bytes = Ok ()" "h_last h + 2 < U64" "nulls_last (table_entries h bytes)"
  shows "disjoint_entries (used_entries (table_entries h bytes))
    \<and> (\<forall>e \<in> set (used_entries (table_entries h bytes)). entry_range e \<subseteq> {h_first h..h_last h}
        \<and> e_part_type e \<noteq> replicate 16 0 \<and> e_guid e \<noteq> replicate 16 0)"
  using checked_entries_disjoint [OF assms] assms(2) [unfolded check_entries_Ok]
  by (auto simp: entry_ok_def entry_range_def)

theorem check_entries_sound_witness:
  "\<exists>h bytes. table_entries h bytes = [sample_entry 6 8, sample_entry 9 14]
    \<and> disjoint_entries (used_entries (table_entries h bytes))"
proof -
  define es where "es = [sample_entry 6 8, sample_entry 9 14]"
  define h where "h = (header_of_bytes (replicate 92 0))\<lparr> h_first := 6, h_last := 14, h_entries_count := 2,
    h_entries_crc := gpt_crc32 sample_env (entries_bytes es) \<rparr>"
  have ok: "check_entries sample_env h (entries_bytes es) = Ok () \<and> table_entries h (entries_bytes es) = es \<and> used_entries es = es"
    unfolding es_def by (rule check_two_entries [OF sample_env_sorts])
      (simp_all add: h_def es_def entry_ok_def U64_def sample_entry_wf replicate_eq_replicate)
  then have "nulls_last (table_entries h (entries_bytes es))" by (simp add: nulls_last_def)
  moreover have "h_last h + 2 < U64" by (simp add: h_def U64_def)
  ultimately show ?thesis
    using check_entries_sound [OF sample_env_sorts, of h "entries_bytes es"] ok unfolding es_def by blast
qed

text \<open>
  C38. The overlap check can miss an overlap: the entries after the first null entry take part in the
  sorting although they are not counted, so a table with overlapping partitions is accepted.
\<close>

theorem check_entries_misses_overlap:
  assumes "sorts env"
  shows "\<exists>h bytes. check_entries env h bytes = Ok () \<and> \<not> disjoint_entries (used_entries (table_entries h bytes))"
proof -
  define es where "es = [sample_entry 10 20, sample_entry 15 30, sample_entry 0 0, sample_entry 1 2]"
  define h where "h = (header_of_bytes (replicate 92 0))\<lparr> h_first := 5, h_last := 100, h_entries_count := 4,
    h_entries_crc := gpt_crc32 env (entries_bytes es) \<rparr>"
  have wf: "\<forall>e \<in> set es. entry_wf e" by (simp add: es_def sample_entry_wf)
  have len: "length (entries_bytes es) = 4 * 128" using length_entries_bytes [OF wf] by (simp add: es_def)
  have te: "table_entries h (entries_bytes es) = es"
    using entries_of_bytes_bytes [OF wf] by (simp add: table_entries_def h_def es_def)
  have used: "used_entries es = [sample_entry 10 20, sample_entry 15 30]"
    by (simp add: used_entries_def es_def)
  let ?ks = "map (sort_key_of es) [0..<128]"
  have key: "?ks ! i = (if i = 0 then 10 else if i = 1 then 15 else if i = 3 then 1 else U64 - 1)" if "i < 128" for i
    using that by (auto simp: sort_key_of_def es_def nth_Cons split: nat.splits)
  have "take 2 (env_sort env ?ks) = [3, 0]"
    by (rule sorted_first_two [where f = "\<lambda>i. ?ks ! i"])
       (use assms in \<open>auto simp: sorts_def key U64_def simp del: nth_map\<close>)
  then have "check_overlap es (take (length (used_entries es)) (env_sort env ?ks)) = Ok ()"
    by (simp add: used numeral_2_eq_2 [symmetric]) (simp add: es_def)
  then have "check_entries env h (entries_bytes es) = Ok ()"
    unfolding check_entries_Ok te by (simp add: used) (simp add: h_def len entry_ok_def U64_def)
  moreover have "\<not> disjoint_entries (used_entries es)"
  proof
    assume d: "disjoint_entries (used_entries es)"
    have "entry_range (used_entries es ! 0) \<inter> entry_range (used_entries es ! 1) = {}"
      by (rule d [unfolded disjoint_entries_def, rule_format]) (simp_all add: used)
    moreover have "15 \<in> entry_range (used_entries es ! 0) \<inter> entry_range (used_entries es ! 1)"
      by (simp add: used entry_range_def)
    ultimately show False by blast
  qed
  ultimately show ?thesis using te by metis
qed

theorem check_entries_misses_overlap_witness:
  "\<exists>h bytes. check_entries sample_env h bytes = Ok () \<and> \<not> disjoint_entries (used_entries (table_entries h bytes))"
  by (rule check_entries_misses_overlap [OF sample_env_sorts])

end
