(* ===== verification/Gpt_Sync.thy ===== *)
theory Gpt_Sync
  imports Gpt_Correct
begin

text \<open>
  Loading and synchronising a GPT over any block device: what a successful load establishes, and that
  a restored table is found valid and consistent by the next synchronisation.
\<close>

section \<open>States\<close>

definition gpt_wf :: "block_info \<Rightarrow> gpt \<Rightarrow> bool" where
  "gpt_wf info g \<longleftrightarrow> header_wf (primary_header g) \<and> header_wf (secondary_header g)
     \<and> (\<forall>e \<in> set (primary_entries g). entry_wf e) \<and> (\<forall>e \<in> set (secondary_entries g). entry_wf e)
     \<and> length (secondary_entries g) = length (primary_entries g) \<and> length (primary_entries g) \<le> 128
     \<and> gpt_addr g + 192 + 2 * 128 * 128 + alignment info < U64"

lemma gpt_wfD:
  assumes "gpt_wf info g"
  shows "length (header_bytes (primary_header g)) = 92" "length (header_bytes (secondary_header g)) = 92"
    "length (entries_bytes (primary_entries g)) = length (primary_entries g) * 128"
    "length (entries_bytes (secondary_entries g)) = length (secondary_entries g) * 128"
    "length (secondary_entries g) = length (primary_entries g)" "length (primary_entries g) \<le> 128"
    "gpt_addr g + 192 + 2 * 128 * 128 + alignment info < U64"
  using assms by (auto simp: gpt_wf_def header_wf_def length_header_bytes length_entries_bytes)

lemma gpt_half:
  assumes "gpt_wf info g"
  shows "header_wf (get_header prim g)" "length (header_bytes (get_header prim g)) = 92"
    "\<forall>e \<in> set (get_entries prim g). entry_wf e" "length (entries_bytes (get_entries prim g)) = length (get_entries prim g) * 128"
    "length (get_entries prim g) = length (primary_entries g)"
  using assms gpt_wfD [OF assms] by (auto simp: get_header_def get_entries_def gpt_wf_def)

lemma half_simps [simp]:
  "get_header prim (set_header prim h g) = h" "get_entries prim (set_entries prim es g) = es"
  "get_header prim (set_entries prim' es g) = get_header prim g" "get_entries prim (set_header prim' h g) = get_entries prim g"
  "prim \<noteq> prim' \<Longrightarrow> get_header prim (set_header prim' h g) = get_header prim g"
  "prim \<noteq> prim' \<Longrightarrow> get_entries prim (set_entries prim' es g) = get_entries prim g"
  by (auto simp: get_header_def set_header_def get_entries_def set_entries_def)

lemma set_half_wf:
  assumes "gpt_wf info g"
  shows "header_wf h \<Longrightarrow> gpt_wf info (set_header prim h g)"
    "\<forall>e \<in> set es. entry_wf e \<Longrightarrow> length es = length (get_entries prim g) \<Longrightarrow> gpt_wf info (set_entries prim es g)"
  using assms by (auto simp: gpt_wf_def set_header_def set_entries_def get_entries_def)

text \<open>The half \<open>prim\<close> of a load buffer may have changed.\<close>

definition half_changed :: "bool \<Rightarrow> gpt \<Rightarrow> gpt \<Rightarrow> bool" where
  "half_changed prim g g' \<longleftrightarrow> gpt_addr g' = gpt_addr g \<and> gpt_len g' = gpt_len g \<and> gpt_block_size g' = gpt_block_size g
     \<and> get_header (\<not> prim) g' = get_header (\<not> prim) g \<and> get_entries (\<not> prim) g' = get_entries (\<not> prim) g
     \<and> length (get_entries prim g') = length (get_entries prim g)"

lemma half_changed_trans: "half_changed prim g g1 \<Longrightarrow> half_changed prim g1 g2 \<Longrightarrow> half_changed prim g g2"
  by (simp add: half_changed_def)

lemma half_changed_set:
  "half_changed prim g (set_header prim h g)"
  "length es = length (get_entries prim g) \<Longrightarrow> half_changed prim g (set_entries prim es g)"
  by (simp_all add: half_changed_def) (simp_all add: set_header_def set_entries_def)

text \<open>Headers and tables on a device with contents \<open>c\<close>.\<close>

definition disk_header :: "byte list \<Rightarrow> nat \<Rightarrow> gpt_header" where
  "disk_header c pos = header_of_bytes (take 92 (drop pos c))"

definition disk_table :: "byte list \<Rightarrow> nat \<Rightarrow> gpt_header \<Rightarrow> byte list" where
  "disk_table c bs h = take (h_entries_count h * 128) (drop (h_entries h * bs) c)"

definition header_pos :: "block_info \<Rightarrow> bool \<Rightarrow> nat" where
  "header_pos info prim = (if prim then block_size info else (num_blocks info - 1) * block_size info)"

definition valid_at :: "gpt_env \<Rightarrow> block_info \<Rightarrow> nat \<Rightarrow> bool \<Rightarrow> byte list \<Rightarrow> bool" where
  "valid_at env info n prim c \<longleftrightarrow>
     (let h = disk_header c (header_pos info prim)
      in header_pos info prim + 92 \<le> num_blocks info * block_size info
         \<and> header_ok env info h prim \<and> h_entries_count h \<le> n \<and> check_entries env h (disk_table c (block_size info) h) = Ok ())"

lemma check_entries_prefix:
  assumes "h_entries_count h * 128 \<le> length bytes" "h_entries_count h * 128 \<le> k"
  shows "check_entries env h (take k bytes) = check_entries env h bytes"
proof (cases "h_entries_count h \<le> 128")
  case True
  then have "h_entries_count h * 128 < U64" by (simp add: U64_def)
  then show ?thesis using assms by (simp add: check_entries_def gpt_consts min_absorb1)
qed (simp add: check_entries_def gpt_consts)

lemma entries_bytes_take:
  assumes "\<forall>e \<in> set es. entry_wf e"
  shows "entries_bytes (take n es) = take (n * 128) (entries_bytes es)"
proof (cases "n \<le> length es")
  case True
  have "entries_bytes es = entries_bytes (take n es) @ entries_bytes (drop n es)"
    by (simp add: entries_bytes_def flip: concat_append map_append)
  moreover have "length (entries_bytes (take n es)) = n * 128"
    using length_entries_bytes [of "take n es"] assms True by (auto dest: in_set_takeD)
  ultimately show ?thesis by simp
next
  case False
  then show ?thesis using length_entries_bytes [OF assms] by simp
qed

lemma geometry_blocks:
  assumes "geometry info"
  shows "0 < block_size info" "num_blocks info < U64"
proof -
  show b: "0 < block_size info" using assms by (simp add: geometry_def)
  have "num_blocks info \<le> num_blocks info * block_size info" using b by simp
  then show "num_blocks info < U64" using assms unfolding geometry_def by linarith
qed

lemma header_ok_room:
  assumes "header_ok env info h prim"
  shows "32768 + 3 * block_size info \<le> num_blocks info * block_size info"
    "h_entries h * block_size info + 16384 + block_size info \<le> num_blocks info * block_size info"
    "h_entries_count h \<le> 128"
proof -
  let ?bs = "block_size info" and ?k = "entries_blks info"
  have k: "?k * ?bs = 16384"
    using assms by (simp add: header_ok_def entries_blks_def mod_eq_0_iff_dvd)
  have "(?k + 1) * 2 + 1 \<le> num_blocks info" using assms by (simp add: header_ok_def)
  then have "((?k + 1) * 2 + 1) * ?bs \<le> num_blocks info * ?bs" by (rule mult_le_mono1)
  then show "32768 + 3 * ?bs \<le> num_blocks info * ?bs" using k by (simp add: algebra_simps)
  have "h_entries h + ?k + 1 \<le> num_blocks info" using assms by (auto simp: header_ok_def split: if_splits)
  then have "(h_entries h + ?k + 1) * ?bs \<le> num_blocks info * ?bs" by (rule mult_le_mono1)
  then show "h_entries h * ?bs + 16384 + ?bs \<le> num_blocks info * ?bs" using k by (simp add: algebra_simps)
  show "h_entries_count h \<le> 128" using assms by (simp add: header_ok_def)
qed

lemma entries_room_eq:
  assumes "\<forall>e \<in> set es. entry_wf e" "h_entries_count h \<le> 128"
  shows "entries_room h es = (if h_entries_count h \<le> length es then Ok (h_entries_count h * 128)
     else Err (BufferTooSmall (Some (192 + h_entries_count h * 256))))"
proof -
  have "h_entries_count h * 128 < U64" using assms(2) by (simp add: U64_def)
  then show ?thesis
    using assms(2) by (simp add: entries_room_def gpt_consts length_entries_bytes [OF assms(1)] gpt_buffer_size_def
        LOAD_BUFFER_MIN_def)
qed

text \<open>The checks look at few fields, and the checksum of a header not at its checksum field.\<close>

lemma check_entries_cong:
  assumes "h_entries_count h' = h_entries_count h" "h_entries_crc h' = h_entries_crc h" "h_first h' = h_first h" "h_last h' = h_last h"
  shows "check_entries env h' bytes = Ok () \<longleftrightarrow> check_entries env h bytes = Ok ()"
proof -
  have "entry_ok h' = entry_ok h" using assms by (auto simp: entry_ok_def)
  moreover have "table_entries h' = table_entries h" using assms by (auto simp: table_entries_def)
  ultimately show ?thesis using assms by (simp add: check_entries_Ok)
qed

lemma header_crc_ignores_crc [simp]: "calculate_header_crc env (h\<lparr> h_crc32 := x \<rparr>) = calculate_header_crc env h"
  by (simp add: calculate_header_crc_def header_bytes_def gpt_consts)

lemma update_crc_fields [simp]:
  "h_magic (update_crc env h) = h_magic h" "h_size (update_crc env h) = h_size h" "h_current (update_crc env h) = h_current h"
  "h_backup (update_crc env h) = h_backup h" "h_first (update_crc env h) = h_first h" "h_last (update_crc env h) = h_last h"
  "h_entries (update_crc env h) = h_entries h" "h_entries_count (update_crc env h) = h_entries_count h"
  "h_entries_size (update_crc env h) = h_entries_size h" "h_entries_crc (update_crc env h) = h_entries_crc h"
  "calculate_header_crc env (update_crc env h) = h_crc32 (update_crc env h)"
  by (simp_all add: update_crc_def)

lemma update_crc_wf: "header_wf h \<Longrightarrow> header_wf (update_crc env h)"
  using unsigned_less [where 'a = nat, of "env_crc32 env (take 16 (header_bytes h) @ replicate 4 0 @ drop 20 (header_bytes h))"]
  by (simp add: header_wf_def update_crc_def calculate_header_crc_def gpt_crc32_def gpt_consts U32_def)

text \<open>The headers that restoring one half from the other writes.\<close>

definition restored_primary :: "gpt_env \<Rightarrow> block_info \<Rightarrow> gpt_header \<Rightarrow> gpt_header" where
  "restored_primary env info h = update_crc env (h\<lparr> h_current := 1, h_backup := num_blocks info - 1, h_entries := 2 \<rparr>)"

definition restored_secondary :: "gpt_env \<Rightarrow> block_info \<Rightarrow> gpt_header \<Rightarrow> gpt_header" where
  "restored_secondary env info h = update_crc env (h\<lparr> h_current := num_blocks info - 1, h_backup := 1,
     h_entries := num_blocks info - 1 - entries_blks info \<rparr>)"

lemma restored_ok:
  "header_ok env info h False \<Longrightarrow> header_ok env info (restored_primary env info h) True"
  "header_ok env info h True \<Longrightarrow> header_ok env info (restored_secondary env info h) False"
  by (auto simp: header_ok_def restored_primary_def restored_secondary_def)

lemma restored_wf:
  "header_wf h \<Longrightarrow> num_blocks info < U64 \<Longrightarrow> header_wf (restored_primary env info h)"
  "header_wf h \<Longrightarrow> num_blocks info < U64 \<Longrightarrow> header_wf (restored_secondary env info h)"
  unfolding restored_primary_def restored_secondary_def by (rule update_crc_wf; auto simp: header_wf_def)+

lemma restored_entries:
  "check_entries env (restored_primary env info h) bytes = Ok () \<longleftrightarrow> check_entries env h bytes = Ok ()"
  "check_entries env (restored_secondary env info h) bytes = Ok () \<longleftrightarrow> check_entries env h bytes = Ok ()"
  by (rule check_entries_cong; simp add: restored_primary_def restored_secondary_def)+

lemma restored_consistent:
  "is_consistent h (restored_secondary env info h)"
  "h_backup h = 1 \<Longrightarrow> is_consistent (restored_primary env info h) h"
  by (simp_all add: is_consistent_def restored_primary_def restored_secondary_def update_crc_def)

section \<open>Restored devices\<close>

lemma take_drop_overwrite_disjoint:
  assumes "a + length src \<le> length dst" "b + m \<le> a \<or> a + length src \<le> b"
  shows "take m (drop b (overwrite a src dst)) = take m (drop b dst)"
  using assms by (intro nth_equalityI) (auto simp: nth_overwrite)

lemma take_drop_overwrite_prefix:
  assumes "a + length src \<le> length dst" "m \<le> length src"
  shows "take m (drop a (overwrite a src dst)) = take m src"
  using assms by (intro nth_equalityI) (auto simp: nth_overwrite)

text \<open>Both tables of a device are valid, and they agree.\<close>

definition synced :: "gpt_env \<Rightarrow> block_info \<Rightarrow> nat \<Rightarrow> byte list \<Rightarrow> bool" where
  "synced env info n c \<longleftrightarrow> valid_at env info n True c \<and> valid_at env info n False c
     \<and> is_consistent (disk_header c (header_pos info True)) (disk_header c (header_pos info False))"

lemma secondary_room:
  assumes "header_ok env info h False" "header_pos info False + 92 \<le> num_blocks info * block_size info"
  shows "92 \<le> block_size info" "2 * block_size info + 16384 \<le> h_entries h * block_size info"
    "2 * block_size info + 16384 \<le> header_pos info False"
proof -
  let ?bs = "block_size info" and ?k = "entries_blks info"
  have k: "?k * ?bs = 16384" and n: "(?k + 1) * 2 + 1 \<le> num_blocks info" "?k + 2 \<le> h_entries h"
    using assms(1) by (auto simp: header_ok_def entries_blks_def mod_eq_0_iff_dvd)
  obtain m where m: "num_blocks info = Suc m" using n by (cases "num_blocks info") auto
  show "92 \<le> ?bs" using assms(2) by (simp add: header_pos_def m)
  have "(?k + 2) * ?bs \<le> h_entries h * ?bs" using n(2) by (rule mult_le_mono1)
  then show "2 * ?bs + 16384 \<le> h_entries h * ?bs" using k by (simp add: algebra_simps)
  have "(?k + 2) * ?bs \<le> m * ?bs" using n(1) m by (intro mult_le_mono1) simp
  then show "2 * ?bs + 16384 \<le> header_pos info False" using k m by (simp add: header_pos_def algebra_simps)
qed

lemma restored_primary_synced:
  assumes v: "valid_at env info n False c" and len: "length c = num_blocks info * block_size info"
    and geo: "geometry info" and es: "\<forall>e \<in> set es. entry_wf e" "length es = n" "n \<le> 128"
  defines "h \<equiv> disk_header c (header_pos info False)" and "bs \<equiv> block_size info"
  assumes t: "entries_bytes (take (h_entries_count h) es) = disk_table c bs h" and b: "h_backup h = 1"
  shows "synced env info n (overwrite (2 * bs) (entries_bytes es) (overwrite bs (header_bytes (restored_primary env info h)) c))"
    (is "synced env info n ?c'")
proof -
  let ?H = "restored_primary env info h" and ?k = "h_entries_count h"
  have h: "header_ok env info h False" "?k \<le> n" "check_entries env h (disk_table c bs h) = Ok ()"
    "header_pos info False + 92 \<le> num_blocks info * block_size info"
    using v by (auto simp: valid_at_def Let_def h_def bs_def)
  note room = secondary_room [OF h(1,4), folded bs_def] and r2 = header_ok_room [OF h(1), folded bs_def]
  have "length (take 92 (drop (header_pos info False) c)) = 92" using h(4) len by simp
  then have "header_wf h" unfolding h_def disk_header_def by (rule header_of_bytes_wf)
  then have H: "header_wf ?H" using restored_wf(1) geometry_blocks(2) [OF geo] by blast
  then have lH: "length (header_bytes ?H) = 92" by (simp add: header_wf_def length_header_bytes)
  have lE: "length (entries_bytes es) = n * 128" using length_entries_bytes [OF es(1)] es(2) by simp
  let ?c1 = "overwrite bs (header_bytes ?H) c"
  have l1: "length ?c1 = length c" using lH r2(1) len by (simp add: bs_def)
  have fit: "2 * bs + length (entries_bytes es) \<le> length ?c1" "bs + length (header_bytes ?H) \<le> length c"
    using lE es(3) r2(1) len l1 lH by (simp_all add: bs_def)
  have hp: "disk_header ?c' bs = ?H"
    using take_drop_overwrite_disjoint [OF fit(1), of bs 92] room(1) take_drop_overwrite_prefix [OF fit(2), of 92] lH
    by (simp add: disk_header_def header_of_bytes_bytes [OF H])
  have hs: "disk_header ?c' (header_pos info False) = h"
    using take_drop_overwrite_disjoint [OF fit(1), of "header_pos info False" 92]
      take_drop_overwrite_disjoint [OF fit(2), of "header_pos info False" 92] room es(3) lE lH
    by (simp add: disk_header_def h_def)
  have tp: "disk_table ?c' bs ?H = disk_table c bs h"
    using take_drop_overwrite_prefix [OF fit(1), of "?k * 128"] t h(2) lE es entries_bytes_take [OF es(1)]
    by (simp add: disk_table_def restored_primary_def)
  have ts: "disk_table ?c' bs h = disk_table c bs h"
    using take_drop_overwrite_disjoint [OF fit(1), of "h_entries h * bs" "?k * 128"]
      take_drop_overwrite_disjoint [OF fit(2), of "h_entries h * bs" "?k * 128"] room es(3) lE lH
    by (simp add: disk_table_def)
  have "valid_at env info n True ?c'"
    using hp tp restored_ok(1) [OF h(1)] restored_entries(1) [of env info h] h r2(1)
    by (simp add: valid_at_def Let_def header_pos_def bs_def restored_primary_def)
  moreover have "valid_at env info n False ?c'"
    using hs ts h by (simp add: valid_at_def Let_def bs_def)
  moreover have "is_consistent ?H h" using b by (rule restored_consistent(2))
  ultimately show ?thesis using hp hs by (simp add: synced_def header_pos_def bs_def)
qed

lemma primary_room:
  assumes "header_ok env info h True"
  defines "ep \<equiv> (num_blocks info - 1 - entries_blks info) * block_size info"
  shows "h_entries h * block_size info + 16384 \<le> ep" "block_size info + 16384 \<le> ep"
    "ep + 16384 = header_pos info False"
proof -
  let ?bs = "block_size info" and ?k = "entries_blks info"
  have k: "?k * ?bs = 16384" and n: "(?k + 1) * 2 + 1 \<le> num_blocks info" "h_entries h + ?k \<le> num_blocks info - 1 - ?k"
    using assms(1) by (auto simp: header_ok_def entries_blks_def mod_eq_0_iff_dvd)
  have "(h_entries h + ?k) * ?bs \<le> ep" unfolding ep_def using n(2) by (rule mult_le_mono1)
  then show "h_entries h * ?bs + 16384 \<le> ep" using k by (simp add: algebra_simps)
  have "(?k + 1) * ?bs \<le> ep" unfolding ep_def using n(1) by (intro mult_le_mono1) simp
  then show "?bs + 16384 \<le> ep" using k by (simp add: algebra_simps)
  have "num_blocks info - 1 = (num_blocks info - 1 - ?k) + ?k" using n(1) by simp
  then show "ep + 16384 = header_pos info False"
    using k by (metis add_mult_distrib ep_def header_pos_def)
qed

lemma restored_secondary_synced:
  assumes v: "valid_at env info n True c" and len: "length c = num_blocks info * block_size info"
    and geo: "geometry info" and es: "\<forall>e \<in> set es. entry_wf e" "length es = n" "n \<le> 128"
    and room: "header_pos info False + 92 \<le> num_blocks info * block_size info"
  defines "h \<equiv> disk_header c (header_pos info True)" and "bs \<equiv> block_size info"
    and "ep \<equiv> (num_blocks info - 1 - entries_blks info) * block_size info"
  assumes t: "entries_bytes (take (h_entries_count h) es) = disk_table c bs h"
  shows "synced env info n (overwrite ep (entries_bytes es)
    (overwrite (header_pos info False) (header_bytes (restored_secondary env info h)) c))"
    (is "synced env info n ?c'")
proof -
  let ?H = "restored_secondary env info h" and ?k = "h_entries_count h" and ?hp = "header_pos info False"
  have h: "header_ok env info h True" "?k \<le> n" "check_entries env h (disk_table c bs h) = Ok ()"
    "bs + 92 \<le> num_blocks info * block_size info"
    using v by (auto simp: valid_at_def Let_def h_def bs_def header_pos_def)
  note p = primary_room [OF h(1), folded ep_def bs_def]
  have "length (take 92 (drop bs c)) = 92" using h(4) len by simp
  then have "header_wf h" unfolding h_def disk_header_def header_pos_def bs_def by (simp add: header_of_bytes_wf)
  then have H: "header_wf ?H" using restored_wf(2) geometry_blocks(2) [OF geo] by blast
  then have lH: "length (header_bytes ?H) = 92" by (simp add: header_wf_def length_header_bytes)
  have lE: "length (entries_bytes es) = n * 128" "n * 128 \<le> 16384" using length_entries_bytes [OF es(1)] es(2,3) by simp_all
  let ?c1 = "overwrite ?hp (header_bytes ?H) c"
  have l1: "length ?c1 = length c" using lH room len by simp
  have fit: "ep + length (entries_bytes es) \<le> length ?c1" "?hp + length (header_bytes ?H) \<le> length c"
    using lE p(3) room len l1 lH by simp_all
  have hs: "disk_header ?c' ?hp = ?H"
    using take_drop_overwrite_disjoint [OF fit(1), of ?hp 92] p(3) lE take_drop_overwrite_prefix [OF fit(2), of 92] lH
    by (simp add: disk_header_def header_of_bytes_bytes [OF H])
  have hp: "disk_header ?c' bs = h"
    using take_drop_overwrite_disjoint [OF fit(1), of bs 92] take_drop_overwrite_disjoint [OF fit(2), of bs 92] p(2,3)
    by (simp add: disk_header_def h_def header_pos_def bs_def)
  have ts: "disk_table ?c' bs ?H = disk_table c bs h"
    using take_drop_overwrite_prefix [OF fit(1), of "?k * 128"] t h(2) lE es entries_bytes_take [OF es(1)]
    by (simp add: disk_table_def restored_secondary_def ep_def bs_def)
  have k: "h_entries h * bs + ?k * 128 \<le> ep" using p(1) header_ok_room(3) [OF h(1)] by linarith
  have tp: "disk_table ?c' bs h = disk_table c bs h"
    using take_drop_overwrite_disjoint [OF fit(1), of "h_entries h * bs" "?k * 128"]
      take_drop_overwrite_disjoint [OF fit(2), of "h_entries h * bs" "?k * 128"] k p(3)
    by (simp add: disk_table_def)
  have "valid_at env info n False ?c'"
    using hs ts restored_ok(2) [OF h(1)] restored_entries(2) [of env info h] h room
    by (simp add: valid_at_def Let_def bs_def restored_secondary_def)
  moreover have "valid_at env info n True ?c'"
    using hp tp h by (simp add: valid_at_def Let_def header_pos_def bs_def)
  moreover have "is_consistent h ?H" by (rule restored_consistent(1))
  ultimately show ?thesis using hp hs by (simp add: synced_def header_pos_def [of info True] bs_def)
qed

section \<open>Loading\<close>

context block_device
begin

definition gd_ok :: "byte list \<Rightarrow> 's gpt_disk \<Rightarrow> bool" where
  "gd_ok c st \<longleftrightarrow> disk_ok (g_disk st) \<and> content (disk_io (g_disk st)) = c \<and> gpt_wf info (g_gpt st)"

lemma gd_info: "gd_ok c st \<Longrightarrow> disk_block_info io (g_disk st) = info"
  by (simp add: gd_ok_def disk_ok_def disk_block_info_def info_law)

lemma gd_geometry: "gd_ok c st \<Longrightarrow> geometry info"
  by (auto simp: gd_ok_def disk_ok_def geometry_law)

lemma gd_length: "gd_ok c st \<Longrightarrow> length c = total"
  by (auto simp: gd_ok_def disk_ok_length)

lemma half_addr_ok:
  assumes "gd_ok c st"
  shows "addr_ok (header_addr prim (g_gpt st)) 92"
    "n \<le> length (get_entries prim (g_gpt st)) * 128 \<Longrightarrow> addr_ok (entries_addr prim (g_gpt st)) n"
proof -
  have g: "gpt_wf info (g_gpt st)" using assms by (simp add: gd_ok_def)
  note w = gpt_wfD(6,7) [OF g]
  show "addr_ok (header_addr prim (g_gpt st)) 92"
    using w by (simp add: addr_ok_def header_addr_def gpt_consts)
  show "addr_ok (entries_addr prim (g_gpt st)) n" if "n \<le> length (get_entries prim (g_gpt st)) * 128"
    using w that gpt_half(5) [OF g, of prim] by (simp add: addr_ok_def entries_addr_def LOAD_BUFFER_MIN_def gpt_consts)
qed

text \<open>Reading the bytes \<open>bytes\<close> of a part of the load buffer at \<open>p\<close>.\<close>

lemma part_read:
  assumes "gd_ok c st" "pos < U64" "addr_ok p n" "length bytes = n"
  obtains r b d where "disk_read io pos p bytes (g_disk st) = (r, b, d)" "disk_ok d" "content (disk_io d) = c"
    "rd c pos n r b"
  using disk_read_ok [of "g_disk st" pos p bytes] assms unfolding gd_ok_def by blast

lemma read_header_run:
  assumes "gd_ok c st" "pos < U64"
  shows "run (read_header io prim pos) st (\<lambda>r st'. gd_ok c st' \<and> r \<noteq> Panic
    \<and> half_changed prim (g_gpt st) (g_gpt st') \<and> get_entries prim (g_gpt st') = get_entries prim (g_gpt st)
    \<and> (r = Ok () \<longrightarrow> get_header prim (g_gpt st') = disk_header c pos \<and> pos + 92 \<le> total)
    \<and> (reliable \<and> pos + 92 \<le> total \<longrightarrow> r = Ok ()))"
proof -
  have g: "gpt_wf info (g_gpt st)" using assms(1) by (simp add: gd_ok_def)
  obtain r b d where d: "disk_read io pos (header_addr prim (g_gpt st)) (header_bytes (get_header prim (g_gpt st))) (g_disk st) = (r, b, d)"
      "disk_ok d" "content (disk_io d) = c" "rd c pos 92 r b"
    using part_read [OF assms half_addr_ok(1) [OF assms(1)] gpt_half(2) [OF g]] .
  have "header_wf (header_of_bytes b)" using d(4) by (intro header_of_bytes_wf) (simp add: rd_def)
  then have "gpt_wf info (set_header prim (header_of_bytes b) (g_gpt st))" by (rule set_half_wf(1) [OF g])
  then show ?thesis
    using d half_changed_set(1) by (simp add: run_def read_header_def gd_ok_def rd_def disk_header_def)
qed

text \<open>The entries after reading \<open>b\<close> over the first \<open>k\<close> of the entries \<open>es\<close>.\<close>

lemma loaded_entries:
  assumes "\<forall>e \<in> set es. entry_wf e" "k \<le> length es" "length b = k * 128"
  defines "es' \<equiv> entries_of_bytes (b @ drop (k * 128) (entries_bytes es))"
  shows "length es' = length es" "\<forall>e \<in> set es'. entry_wf e" "entries_bytes (take k es') = b"
proof -
  have l: "length (b @ drop (k * 128) (entries_bytes es)) = length es * 128"
    using assms(2,3) length_entries_bytes [OF assms(1)] by simp
  show "length es' = length es" using l by (simp add: es'_def del: length_append)
  show w: "\<forall>e \<in> set es'. entry_wf e" unfolding es'_def by (rule entries_of_bytes_wf)
  have "entries_bytes es' = b @ drop (k * 128) (entries_bytes es)"
    unfolding es'_def by (rule entries_bytes_of_bytes) (simp add: l del: length_append)
  then show "entries_bytes (take k es') = b" using w assms(3) by (simp add: entries_bytes_take)
qed

lemma read_entries_run:
  assumes "gd_ok c st" "pos < U64" "k \<le> length (get_entries prim (g_gpt st))"
  shows "run (read_entries io prim pos (k * 128)) st (\<lambda>r st'. gd_ok c st' \<and> r \<noteq> Panic
    \<and> half_changed prim (g_gpt st) (g_gpt st') \<and> get_header prim (g_gpt st') = get_header prim (g_gpt st)
    \<and> (r = Ok () \<longrightarrow> entries_bytes (take k (get_entries prim (g_gpt st'))) = take (k * 128) (drop pos c))
    \<and> (reliable \<and> pos + k * 128 \<le> total \<longrightarrow> r = Ok ()))"
proof -
  have g: "gpt_wf info (g_gpt st)" using assms(1) by (simp add: gd_ok_def)
  let ?es = "get_entries prim (g_gpt st)"
  have l: "length (take (k * 128) (entries_bytes ?es)) = k * 128" using gpt_half(4) [OF g, of prim] assms(3) by simp
  have a: "addr_ok (entries_addr prim (g_gpt st)) (k * 128)"
    by (rule half_addr_ok(2) [OF assms(1)]) (use assms(3) in simp)
  obtain r b d where d: "disk_read io pos (entries_addr prim (g_gpt st)) (take (k * 128) (entries_bytes ?es)) (g_disk st) = (r, b, d)"
      "disk_ok d" "content (disk_io d) = c" "rd c pos (k * 128) r b"
    using part_read [OF assms(1,2) a l] .
  have b: "length b = k * 128" using d(4) by (simp add: rd_def)
  define es' where "es' = entries_of_bytes (b @ drop (k * 128) (entries_bytes ?es))"
  note e = loaded_entries [OF gpt_half(3) [OF g] assms(3) b, folded es'_def]
  have "gpt_wf info (set_entries prim es' (g_gpt st))" by (rule set_half_wf(2) [OF g e(2,1)])
  then show ?thesis
    using d e half_changed_set(2) [OF e(1)] by (simp add: run_def read_entries_def gd_ok_def rd_def Let_def es'_def [symmetric])
qed

lemma header_start_eq:
  assumes "geometry info"
  shows "header_start info prim = (if prim \<or> 0 < num_blocks info then Ok (header_pos info prim) else Err ArithmeticOverflow)"
    "header_pos info prim < U64"
proof -
  have "(num_blocks info - 1) * bs \<le> num_blocks info * bs" by (rule mult_le_mono1) simp
  then have "(num_blocks info - 1) * bs < U64" "bs < U64" using assms unfolding geometry_def by linarith+
  then show "header_pos info prim < U64"
    "header_start info prim = (if prim \<or> 0 < num_blocks info then Ok (header_pos info prim) else Err ArithmeticOverflow)"
    by (auto simp: header_pos_def header_start_def)
qed

text \<open>The second half of the load: the entries of a header that has been read and checked.\<close>

lemma load_entries_run:
  assumes g: "gd_ok c st" and h: "get_header prim (g_gpt st) = h" "header_ok env info h prim"
    and k: "h_entries_count h \<le> length (get_entries prim (g_gpt st))"
  shows "run (st_then (read_entries io prim (h_entries h * bs) (h_entries_count h * 128)) (\<lambda>_.
      st_gets (\<lambda>st. check_entries env (get_header prim (g_gpt st)) (entries_bytes (get_entries prim (g_gpt st)))))) st
    (\<lambda>r st'. gd_ok c st' \<and> half_changed prim (g_gpt st) (g_gpt st') \<and> get_header prim (g_gpt st') = h
      \<and> (r = Ok () \<longrightarrow> check_entries env h (disk_table c bs h) = Ok ()
          \<and> entries_bytes (take (h_entries_count h) (get_entries prim (g_gpt st'))) = disk_table c bs h)
      \<and> (reliable \<and> check_entries env h (disk_table c bs h) = Ok () \<longrightarrow> r = Ok ()))"
proof -
  let ?k = "h_entries_count h" and ?pos = "h_entries h * bs"
  have room: "?pos + 16384 + bs \<le> total" "?k \<le> 128" using header_ok_room [OF h(2)] by simp_all
  then have p: "?pos < U64" "?pos + ?k * 128 \<le> total" using gd_geometry [OF g] unfolding geometry_def by linarith+
  show ?thesis
  proof (rule run_thenI [OF read_entries_run [OF g p(1) k]], goal_cases)
    case (1 u st2)
    let ?es = "get_entries prim (g_gpt st2)"
    have w: "gpt_wf info (g_gpt st2)" using 1 by (simp add: gd_ok_def)
    have l: "length ?es = length (get_entries prim (g_gpt st))" using 1 by (simp add: half_changed_def)
    have t: "entries_bytes (take ?k ?es) = disk_table c bs h" using 1 by (simp add: disk_table_def)
    then have "take (?k * 128) (entries_bytes ?es) = disk_table c bs h"
      using entries_bytes_take [OF gpt_half(3) [OF w]] by simp
    then have "check_entries env h (entries_bytes ?es) = check_entries env h (disk_table c bs h)"
      using check_entries_prefix [of h "entries_bytes ?es" "?k * 128" env] gpt_half(4) [OF w, of prim] l k by simp
    then show ?case using 1 h(1) t by (simp add: run_simps)
  next
    case (2 e st2)
    then show ?case using p(2) h(1) by simp
  qed simp
qed

lemma load_and_validate_run:
  fixes prim :: bool
  assumes g: "gd_ok c st"
  defines "n \<equiv> length (get_entries prim (g_gpt st))" and "h0 \<equiv> disk_header c (header_pos info prim)"
  shows "run (load_and_validate_gpt env io prim) st (\<lambda>r st'. gd_ok c st' \<and> half_changed prim (g_gpt st) (g_gpt st')
    \<and> (r = Ok () \<longrightarrow> valid_at env info n prim c \<and> get_header prim (g_gpt st') = h0
        \<and> entries_bytes (take (h_entries_count h0) (get_entries prim (g_gpt st'))) = disk_table c bs h0)
    \<and> (reliable \<and> valid_at env info n prim c \<longrightarrow> r = Ok ()))"
    (is "run _ _ ?Q")
proof -
  note geo = gd_geometry [OF g]
  have refl_half: "half_changed prim x x" for x by (simp add: half_changed_def)
  have v: "valid_at env info n prim c \<longleftrightarrow> header_pos info prim + 92 \<le> total \<and> header_ok env info h0 prim
      \<and> h_entries_count h0 \<le> n \<and> check_entries env h0 (disk_table c bs h0) = Ok ()"
    by (simp add: valid_at_def Let_def h0_def)
  show ?thesis
  proof (cases "prim \<or> 0 < num_blocks info")
    case False
    then have "\<not> valid_at env info n prim c" using v by auto
    then show ?thesis
      using g False header_start_eq(1) [OF geo, of prim] refl_half
      by (simp add: load_and_validate_gpt_def run_simps gd_info [OF g])
  next
    case True
    have "run (st_then (read_header io prim (header_pos info prim)) (\<lambda>_.
        st_then (st_gets (\<lambda>st. check_header env (disk_block_info io (g_disk st)) (get_header prim (g_gpt st)) prim)) (\<lambda>_.
        st_then (st_gets (\<lambda>st. entries_room (get_header prim (g_gpt st)) (get_entries prim (g_gpt st)))) (\<lambda>size.
        st_then (st_gets (\<lambda>st. unwrap (sn_try (sn_mul (sn (h_entries (get_header prim (g_gpt st)))) (sn bs))))) (\<lambda>pos.
        st_then (read_entries io prim pos size) (\<lambda>_.
        st_gets (\<lambda>st. check_entries env (get_header prim (g_gpt st)) (entries_bytes (get_entries prim (g_gpt st)))))))))) st ?Q"
    proof (rule run_thenI [OF read_header_run [OF g header_start_eq(2) [OF geo]]], goal_cases)
      case (1 u st1)
      define h where "h = get_header prim (g_gpt st1)"
      have h: "h = h0" "header_pos info prim + 92 \<le> total" and g1: "gd_ok c st1" using 1 by (simp_all add: h_def h0_def)
      have w: "gpt_wf info (g_gpt st1)" using g1 by (simp add: gd_ok_def)
      have n1: "get_entries prim (g_gpt st1) = get_entries prim (g_gpt st)" using 1 by simp
      have "h_last h < U64" using gpt_half(1) [OF w, of prim] by (simp add: header_wf_def h_def)
      note chk = check_header_split(1) [OF geometry_blocks [OF geo] this, of env prim]
      consider (bad) "\<not> header_ok env info h prim" | (big) "header_ok env info h prim" "\<not> h_entries_count h \<le> n"
        | (ok) "header_ok env info h prim" "h_entries_count h \<le> n" by blast
      then show ?case
      proof cases
        case bad
        then show ?thesis
          using 1 chk h v
          by (cases "check_header env info h prim") (simp_all add: run_simps gd_info [OF g1] h_def [symmetric])
      next
        case big
        then show ?thesis
          using 1 chk h v entries_room_eq [OF gpt_half(3) [OF w], of h prim] header_ok_room(3) [OF big(1)] n1
          by (simp add: run_simps gd_info [OF g1] h_def [symmetric] n_def)
      next
        case ok
        have p: "h_entries h * bs < U64"
          using header_ok_room(2) [OF ok(1)] geo unfolding geometry_def by linarith
        have "run (st_then (read_entries io prim (h_entries h * bs) (h_entries_count h * 128)) (\<lambda>_.
            st_gets (\<lambda>st. check_entries env (get_header prim (g_gpt st)) (entries_bytes (get_entries prim (g_gpt st)))))) st1 ?Q"
          by (rule run_mono [OF load_entries_run [OF g1 h_def [symmetric] ok(1)]])
             (use ok n1 1 h v half_changed_trans in \<open>auto simp: n_def\<close>)
        then show ?thesis
          using chk ok n1 entries_room_eq [OF gpt_half(3) [OF w], of h prim] header_ok_room(3) [OF ok(1)] p
          by (simp add: run_simps gd_info [OF g1] h_def [symmetric] n_def)
      qed
    next
      case (2 e st1)
      then show ?case using v by auto
    qed simp
    then show ?thesis
      using True header_start_eq(1) [OF geo, of prim]
      by (simp add: load_and_validate_gpt_def run_simps gd_info [OF g])
  qed
qed

section \<open>Restoring\<close>

lemma write_part_run:
  assumes "gd_ok c st" "pos < U64" "addr_ok (addr (g_gpt st)) (length (bytes (g_gpt st)))"
  shows "run (write_part io pos addr bytes) st (\<lambda>r st'. g_gpt st' = g_gpt st \<and> gd_ok (content (disk_io (g_disk st'))) st'
    \<and> wr c pos (bytes (g_gpt st)) r (content (disk_io (g_disk st'))))"
proof -
  obtain r d where "disk_write io pos (addr (g_gpt st)) (bytes (g_gpt st)) (g_disk st) = (r, bytes (g_gpt st), d)"
      "disk_ok d" "wr c pos (bytes (g_gpt st)) r (content (disk_io d))"
    using disk_write_ok [of "g_disk st" pos "addr (g_gpt st)" "bytes (g_gpt st)"] assms unfolding gd_ok_def by blast
  then show ?thesis using assms(1) by (simp add: run_def write_part_def gd_ok_def)
qed

lemma run_upd_gpt [run_simps]: "run (upd_gpt f) st Q = Q (Ok ()) (st\<lparr> g_gpt := f (g_gpt st) \<rparr>)"
  by (simp add: run_def upd_gpt_def)

lemma run_then_upd_gpt [run_simps]: "run (st_then (upd_gpt f) k) st Q = run (k ()) (st\<lparr> g_gpt := f (g_gpt st) \<rparr>) Q"
  by (simp add: run_def upd_gpt_def st_then_def)

text \<open>Writing a header and then the entries of one half of the load buffer.\<close>

lemma write_half_run:
  fixes prim :: bool
  assumes g: "gd_ok c st" and p: "hp < U64" "ep < U64"
  defines "H \<equiv> header_bytes (get_header prim (g_gpt st))" and "E \<equiv> entries_bytes (get_entries prim (g_gpt st))"
  shows "run (st_then (write_part io hp (header_addr prim) (\<lambda>g. header_bytes (get_header prim g))) (\<lambda>_.
      write_part io ep (entries_addr prim) (\<lambda>g. entries_bytes (get_entries prim g)))) st
    (\<lambda>r st'. g_gpt st' = g_gpt st \<and> gd_ok (content (disk_io (g_disk st'))) st' \<and> r \<noteq> Panic
      \<and> (r = Ok () \<longrightarrow> content (disk_io (g_disk st')) = overwrite ep E (overwrite hp H c)
           \<and> hp + 92 \<le> total \<and> (E \<noteq> [] \<longrightarrow> ep + length E \<le> total))
      \<and> (reliable \<and> hp + 92 \<le> total \<and> ep + length E \<le> total \<longrightarrow> r = Ok ()))"
proof -
  have w: "gpt_wf info (g_gpt st)" using g by (simp add: gd_ok_def)
  have H: "length H = 92" unfolding H_def by (rule gpt_half(2) [OF w])
  have a: "addr_ok (header_addr prim (g_gpt st)) (length H)" using half_addr_ok(1) [OF g] H by simp
  show ?thesis
  proof (rule run_thenI [OF write_part_run [where addr = "header_addr prim" and bytes = "\<lambda>g. header_bytes (get_header prim g)",
            OF g p(1) a [unfolded H_def]]], goal_cases)
    case (1 u st1)
    have g1: "gd_ok (content (disk_io (g_disk st1))) st1" and same: "g_gpt st1 = g_gpt st"
      and w1: "wr c hp H (Ok ()) (content (disk_io (g_disk st1)))" using 1 by (simp_all add: H_def)
    have a1: "addr_ok (entries_addr prim (g_gpt st1)) (length (entries_bytes (get_entries prim (g_gpt st1))))"
      by (rule half_addr_ok(2) [OF g1]) (use gpt_half(4) [OF w, of prim] same in simp)
    show ?case
      by (rule run_mono [OF write_part_run [where addr = "entries_addr prim" and bytes = "\<lambda>g. entries_bytes (get_entries prim g)",
            OF g1 p(2) a1]])
         (use w1 H same in \<open>auto simp: wr_def E_def\<close>)
  next
    case (2 e st1)
    then show ?case using H by (auto simp: wr_def H_def)
  qed (simp add: wr_def)
qed

lemma st_then_lift_fun: "st_then (st_lift (Ok v)) k = k v"
  by (rule ext) simp

lemma half_True_False:
  "get_header True g = primary_header g" "get_header False g = secondary_header g"
  "get_entries True g = primary_entries g" "get_entries False g = secondary_entries g"
  by (simp_all add: get_header_def get_entries_def)

lemma restore_primary_run:
  fixes env :: gpt_env
  assumes g: "gd_ok c st" and nb: "0 < num_blocks info" and p: "2 * bs < U64"
  defines "H \<equiv> restored_primary env info (secondary_header (g_gpt st))" and "es \<equiv> secondary_entries (g_gpt st)"
  shows "run (restore_primary env io bs (Inr (num_blocks info - 1))) st
    (\<lambda>r st'. g_gpt st' = (g_gpt st)\<lparr> primary_entries := es, primary_header := H \<rparr> \<and> gd_ok (content (disk_io (g_disk st'))) st'
      \<and> r \<noteq> Panic
      \<and> (r = Ok () \<longrightarrow> content (disk_io (g_disk st')) = overwrite (2 * bs) (entries_bytes es) (overwrite bs (header_bytes H) c)
           \<and> bs + 92 \<le> total \<and> (es \<noteq> [] \<longrightarrow> 2 * bs + length es * 128 \<le> total))
      \<and> (reliable \<and> bs + 92 \<le> total \<and> 2 * bs + length es * 128 \<le> total \<longrightarrow> r = Ok ()))"
proof -
  have w: "gpt_wf info (g_gpt st)" using g by (simp add: gd_ok_def)
  note nU = geometry_blocks(2) [OF gd_geometry [OF g]]
  let ?st = "st\<lparr> g_gpt := (g_gpt st)\<lparr> primary_entries := es, primary_header := H \<rparr> \<rparr>"
  have "header_wf H" unfolding H_def by (rule restored_wf(1)) (use w nU in \<open>auto simp: gpt_wf_def\<close>)
  then have g': "gd_ok c ?st" using g w unfolding gd_ok_def gpt_wf_def es_def by simp
  have le: "length (entries_bytes es) = length es * 128" unfolding es_def by (rule gpt_wfD(4) [OF w])
  have bU: "bs < U64" using p by simp
  have ne: "entries_bytes es = [] \<longleftrightarrow> es = []" using le by (metis length_0_conv mult_is_0 zero_neq_numeral)
  show ?thesis
    using write_half_run [OF g' bU p, of True] p
    by (simp add: restore_primary_def run_simps half_True_False es_def [symmetric] le ne st_then_lift_fun)
       (simp add: H_def restored_primary_def)
qed

lemma secondary_positions:
  assumes "geometry info" "header_ok env info h prim"
  shows "16384 \<le> (num_blocks info - 1) * bs" "(num_blocks info - 1) * bs < U64" "0 < num_blocks info"
    "(num_blocks info - 1) * bs - 16384 = (num_blocks info - 1 - entries_blks info) * bs"
    "((num_blocks info - 1) * bs - 16384) div bs = num_blocks info - 1 - entries_blks info"
proof -
  have b: "0 < bs" and k: "entries_blks info * bs = 16384" and n: "(entries_blks info + 1) * 2 + 1 \<le> num_blocks info"
    using assms(2) by (auto simp: header_ok_def entries_blks_def mod_eq_0_iff_dvd)
  show "(num_blocks info - 1) * bs < U64" using header_start_eq(2) [OF assms(1), of False] by (simp add: header_pos_def)
  have "entries_blks info * bs \<le> (num_blocks info - 1) * bs" by (rule mult_le_mono1) (use n in simp)
  then show "16384 \<le> (num_blocks info - 1) * bs" "0 < num_blocks info" using k n by simp_all
  show e: "(num_blocks info - 1) * bs - 16384 = (num_blocks info - 1 - entries_blks info) * bs"
    using k by (simp add: diff_mult_distrib)
  show "((num_blocks info - 1) * bs - 16384) div bs = num_blocks info - 1 - entries_blks info"
    unfolding e using b by simp
qed

lemma restore_secondary_run:
  fixes env :: gpt_env
  assumes g: "gd_ok c st" and ok: "header_ok env info (primary_header (g_gpt st)) True"
  defines "H \<equiv> restored_secondary env info (primary_header (g_gpt st))" and "es \<equiv> primary_entries (g_gpt st)"
    and "hp \<equiv> (num_blocks info - 1) * bs" and "ep \<equiv> (num_blocks info - 1 - entries_blks info) * bs"
  shows "run (restore_secondary env io bs (Inr (num_blocks info - 1))) st
    (\<lambda>r st'. g_gpt st' = (g_gpt st)\<lparr> secondary_entries := es, secondary_header := H \<rparr> \<and> gd_ok (content (disk_io (g_disk st'))) st'
      \<and> r \<noteq> Panic
      \<and> (r = Ok () \<longrightarrow> content (disk_io (g_disk st')) = overwrite ep (entries_bytes es) (overwrite hp (header_bytes H) c)
           \<and> hp + 92 \<le> total \<and> (es \<noteq> [] \<longrightarrow> ep + length es * 128 \<le> total))
      \<and> (reliable \<and> hp + 92 \<le> total \<and> ep + length es * 128 \<le> total \<longrightarrow> r = Ok ()))"
proof -
  have w: "gpt_wf info (g_gpt st)" using g by (simp add: gd_ok_def)
  note geo = gd_geometry [OF g]
  note pos = secondary_positions [OF geo ok]
  let ?st = "st\<lparr> g_gpt := (g_gpt st)\<lparr> secondary_entries := es, secondary_header := H \<rparr> \<rparr>"
  have "header_wf H" unfolding H_def by (rule restored_wf(2)) (use w geometry_blocks(2) [OF geo] in \<open>auto simp: gpt_wf_def\<close>)
  then have g': "gd_ok c ?st" using g w unfolding gd_ok_def gpt_wf_def es_def by simp
  have le: "length (entries_bytes es) = length es * 128" unfolding es_def by (rule gpt_wfD(3) [OF w])
  have ne: "entries_bytes es = [] \<longleftrightarrow> es = []" using le by (metis length_0_conv mult_is_0 zero_neq_numeral)
  have pU: "hp < U64" "ep < U64" using pos(2,4) unfolding hp_def ep_def by simp_all
  have sn: "sn_mul (Inr (num_blocks info - 1)) (Inr bs) = Inr hp" "sn_sub (Inr hp) (Inr 16384) = Inr ep"
    "sn_div (Inr ep) (Inr bs) = Inr (num_blocks info - 1 - entries_blks info)"
    using pos geometry_blocks(1) [OF geo] pU by (simp_all add: hp_def ep_def)
  have h: "update_crc env ((primary_header (g_gpt st))\<lparr> h_current := num_blocks info - 1, h_backup := 1,
      h_entries := num_blocks info - 1 - entries_blks info \<rparr>) = H"
    by (simp add: H_def restored_secondary_def)
  show ?thesis
    using write_half_run [OF g' pU, of False] h
    by (simp add: restore_secondary_def Let_def gpt_consts run_simps half_True_False es_def [symmetric] le ne
        st_then_lift_fun sn [simplified])
qed

section \<open>Synchronising\<close>

lemma run_catchI:
  assumes "run m s P" "\<And>v s'. P (Ok v) s' \<Longrightarrow> run (k (Inl v)) s' Q" "\<And>e s'. P (Err e) s' \<Longrightarrow> run (k (Inr e)) s' Q"
    "\<And>s'. P Panic s' \<Longrightarrow> Q Panic s'"
  shows "run (st_then (st_catch m) k) s Q"
proof -
  obtain r s' where "m s = (r, s')" "P r s'" using assms(1) by (rule runE)
  then show ?thesis
    using assms(2) [of _ s'] assms(3,4) by (cases r) (simp_all add: run_def st_catch_def)
qed

text \<open>The half \<open>prim\<close> of the load buffer holds the valid table of a device with contents \<open>c\<close>.\<close>

definition loaded :: "gpt_env \<Rightarrow> byte list \<Rightarrow> gpt \<Rightarrow> bool \<Rightarrow> bool" where
  "loaded env c g prim \<longleftrightarrow> valid_at env info (length (primary_entries g)) prim c
     \<and> get_header prim g = disk_header c (header_pos info prim)
     \<and> entries_bytes (take (h_entries_count (get_header prim g)) (get_entries prim g)) = disk_table c bs (get_header prim g)"

lemma loadedD:
  assumes "gd_ok c st" "loaded env c (g_gpt st) prim"
  shows "header_ok env info (get_header prim (g_gpt st)) prim"
    "check_entries env (get_header prim (g_gpt st)) (entries_bytes (get_entries prim (g_gpt st))) = Ok ()"
    "header_pos info prim + 92 \<le> total"
proof -
  let ?h = "get_header prim (g_gpt st)" and ?es = "get_entries prim (g_gpt st)"
  have v: "header_ok env info ?h prim" "h_entries_count ?h \<le> length (primary_entries (g_gpt st))"
    "check_entries env ?h (disk_table c bs ?h) = Ok ()" "header_pos info prim + 92 \<le> total"
    using assms(2) by (auto simp: loaded_def valid_at_def Let_def)
  have w: "gpt_wf info (g_gpt st)" using assms(1) by (simp add: gd_ok_def)
  have "entries_bytes (take (h_entries_count ?h) ?es) = disk_table c bs ?h" using assms(2) unfolding loaded_def by blast
  then have "take (h_entries_count ?h * 128) (entries_bytes ?es) = disk_table c bs ?h"
    using entries_bytes_take [OF gpt_half(3) [OF w]] by simp
  then show "check_entries env ?h (entries_bytes ?es) = Ok ()"
    using v(2,3) check_entries_prefix [of ?h "entries_bytes ?es" "h_entries_count ?h * 128" env] gpt_half(4,5) [OF w, of prim]
    by simp
qed (use assms(2) in \<open>auto simp: loaded_def valid_at_def Let_def\<close>)

text \<open>The outcome of a synchronisation of a device with contents \<open>c\<close>.\<close>

definition sync_post :: "gpt_env \<Rightarrow> byte list \<Rightarrow> nat \<Rightarrow> gpt_sync_result res \<Rightarrow> 's gpt_disk \<Rightarrow> bool" where
  "sync_post env c n r st' \<longleftrightarrow> (let c' = content (disk_io (g_disk st')) in gd_ok c' st'
     \<and> length (primary_entries (g_gpt st')) = n
     \<and> (\<forall>res. r = Ok res \<longrightarrow> sync_res res = Ok () \<longrightarrow> header_ok env info (primary_header (g_gpt st')) True
         \<and> check_entries env (primary_header (g_gpt st')) (entries_bytes (primary_entries (g_gpt st'))) = Ok ())
     \<and> (r = Ok BothValid \<longrightarrow> c' = c \<and> synced env info n c)
     \<and> (\<forall>e. r = Ok (PrimaryRestored e) \<longrightarrow> h_backup (disk_header c (header_pos info False)) = 1 \<longrightarrow> synced env info n c')
     \<and> (\<forall>e. r = Ok (SecondaryRestored e) \<longrightarrow> synced env info n c')
     \<and> (reliable \<and> synced env info n c \<longrightarrow> r = Ok BothValid))"

lemma sync_post_Err:
  assumes "gd_ok (content (disk_io (g_disk st'))) st'" "\<not> (reliable \<and> synced env info n c)"
    "length (primary_entries (g_gpt st')) = n"
  shows "sync_post env c n (Err e) st'"
  using assms by (simp add: sync_post_def Let_def)

lemma sync_post_restored:
  assumes "gd_ok (content (disk_io (g_disk st'))) st'" "\<not> (reliable \<and> synced env info n c)"
    "length (primary_entries (g_gpt st')) = n"
    and "header_ok env info (primary_header (g_gpt st')) True"
    and "check_entries env (primary_header (g_gpt st')) (entries_bytes (primary_entries (g_gpt st'))) = Ok ()"
    and "res = PrimaryRestored e \<and> (h_backup (disk_header c (header_pos info False)) = 1 \<longrightarrow> synced env info n (content (disk_io (g_disk st'))))
      \<or> res = SecondaryRestored e \<and> synced env info n (content (disk_io (g_disk st')))"
  shows "sync_post env c n (Ok res) st'"
  using assms by (auto simp: sync_post_def Let_def)

lemma sync_match_run:
  assumes g: "gd_ok c st" and n: "n = length (primary_entries (g_gpt st))"
    and p: "pr = Inl () \<longrightarrow> loaded env c (g_gpt st) True" "reliable \<and> valid_at env info n True c \<longrightarrow> pr = Inl ()"
    and s: "sr = Inl () \<longrightarrow> loaded env c (g_gpt st) False" "reliable \<and> valid_at env info n False c \<longrightarrow> sr = Inl ()"
  shows "run (sync_match env io bs (sn_sub (sn (num_blocks info)) (sn 1)) pr sr) st (sync_post env c n)"
proof -
  have w: "gpt_wf info (g_gpt st)" using g by (simp add: gd_ok_def)
  note geo = gd_geometry [OF g] and len = gd_length [OF g]
  have c: "content (disk_io (g_disk st)) = c" using g by (simp add: gd_ok_def)
  have n': "n \<le> 128" "length (secondary_entries (g_gpt st)) = n" using gpt_wfD(5,6) [OF w] n by simp_all
  consider (none) e f where "pr = Inr e" "sr = Inr f" | (prim) e where "pr = Inr e" "sr = Inl ()" | (sec) "pr = Inl ()"
    by (cases pr; cases sr) auto
  then show ?thesis
  proof cases
    case none
    then show ?thesis
      using g p s c n by (auto simp: sync_match_def run_simps sync_post_def synced_def Let_def)
  next
    case prim
    have l: "loaded env c (g_gpt st) False" using s(1) prim(2) by simp
    have ns: "\<not> (reliable \<and> synced env info n c)" using p(2) prim(1) by (auto simp: synced_def)
    note d = loadedD [OF g l, unfolded half_True_False]
    have nb: "0 < num_blocks info" using secondary_positions(3) [OF geo d(1)] .
    have p2: "2 * bs < U64" using header_ok_room(1) [OF d(1)] geo unfolding geometry_def by linarith
    have "sn_sub (sn (num_blocks info)) (sn 1) = Inr (num_blocks info - 1)" using nb by simp
    moreover have "run (st_then (restore_primary env io bs (Inr (num_blocks info - 1))) (\<lambda>_. st_lift (Ok (PrimaryRestored e)))) st
      (sync_post env c n)"
    proof (rule run_thenI [OF restore_primary_run [OF g nb p2, of env]], goal_cases)
      case (1 u st1)
      let ?h = "secondary_header (g_gpt st)" and ?es = "secondary_entries (g_gpt st)"
      have h: "?h = disk_header c (header_pos info False)" using l by (simp add: loaded_def half_True_False)
      have "synced env info n (content (disk_io (g_disk st1)))" if "h_backup ?h = 1"
        using restored_primary_synced [of env info n c ?es] l that len geo w n' 1 n
        by (simp add: loaded_def half_True_False gpt_wf_def h)
      moreover have gd: "gd_ok (content (disk_io (g_disk st1))) st1" using 1 by blast
      ultimately show ?case
        unfolding run_lift using 1 restored_ok(1) [OF d(1)] restored_entries(1) [of env info ?h] d(2) h n'
        by (intro sync_post_restored [OF gd ns]) simp_all
    next
      case (2 e' st1)
      then show ?case using n' by (intro sync_post_Err [OF _ ns]) simp_all
    qed simp
    ultimately show ?thesis using prim by (simp add: sync_match_def)
  next
    case sec
    have l: "loaded env c (g_gpt st) True" using p(1) sec by simp
    note d = loadedD [OF g l, unfolded half_True_False]
    have nb: "0 < num_blocks info" using secondary_positions(3) [OF geo d(1)] .
    let ?ok = "sr = Inl () \<and> is_consistent (primary_header (g_gpt st)) (secondary_header (g_gpt st))"
    have hp: "primary_header (g_gpt st) = disk_header c (header_pos info True)" using l by (simp add: loaded_def half_True_False)
    show ?thesis
    proof (cases ?ok)
      case True
      then have "loaded env c (g_gpt st) False" using s(1) by simp
      then have "synced env info n c" using l True n by (simp add: synced_def loaded_def half_True_False)
      then show ?thesis
        using True sec g d c n by (simp add: sync_match_def run_simps sync_post_def Let_def)
    next
      case False
      have ns: "\<not> (reliable \<and> synced env info n c)"
        using False s hp by (auto simp: synced_def loaded_def half_True_False)
      have sn: "sn_sub (sn (num_blocks info)) (sn 1) = Inr (num_blocks info - 1)" using nb by simp
      have "run (st_then (restore_secondary env io bs (Inr (num_blocks info - 1))) (\<lambda>_. st_lift (Ok (SecondaryRestored e)))) st
        (sync_post env c n)" for e
      proof (rule run_thenI [OF restore_secondary_run [OF g d(1)]], goal_cases)
        case (1 u st1)
        have v: "valid_at env info n True c" and t: "entries_bytes (take (h_entries_count (disk_header c (header_pos info True)))
            (primary_entries (g_gpt st))) = disk_table c bs (disk_header c (header_pos info True))"
          using l n unfolding loaded_def half_True_False by auto
        have w1: "\<forall>e \<in> set (primary_entries (g_gpt st)). entry_wf e" using w by (simp add: gpt_wf_def)
        have r: "header_pos info False + 92 \<le> total" using 1 by (simp add: header_pos_def)
        have "synced env info n (content (disk_io (g_disk st1)))"
          using restored_secondary_synced [OF v len geo w1 n [symmetric] n'(1) r t] 1 hp by (simp add: header_pos_def)
        moreover have gd: "gd_ok (content (disk_io (g_disk st1))) st1" using 1 by blast
        ultimately show ?case
          unfolding run_lift using 1 d n by (intro sync_post_restored [OF gd ns]) simp_all
      next
        case (2 e' st1)
        then show ?case using n by (intro sync_post_Err [OF _ ns]) simp_all
      qed simp
      then show ?thesis using sec False sn by (auto simp: sync_match_def run_simps)
    qed
  qed
qed

lemma catch_load_run:
  fixes prim :: bool
  assumes g: "gd_ok c st"
  shows "run (st_catch (load_and_validate_gpt env io prim)) st (\<lambda>r st'. gd_ok c st' \<and> half_changed prim (g_gpt st) (g_gpt st')
    \<and> (case r of Ok x \<Rightarrow> (x = Inl () \<longrightarrow> loaded env c (g_gpt st') prim)
         \<and> (reliable \<and> valid_at env info (length (primary_entries (g_gpt st))) prim c \<longrightarrow> x = Inl ())
       | Err e \<Rightarrow> False | Panic \<Rightarrow> \<not> (reliable \<and> valid_at env info (length (primary_entries (g_gpt st))) prim c)))"
proof -
  have n: "length (get_entries prim (g_gpt st)) = length (primary_entries (g_gpt st))"
    using g gpt_half(5) by (auto simp: gd_ok_def)
  have "length (primary_entries (g_gpt st')) = length (primary_entries (g_gpt st))"
    if "gd_ok c st'" "half_changed prim (g_gpt st) (g_gpt st')" for st'
    using that n gpt_half(5) [of info "g_gpt st'" prim] by (simp add: gd_ok_def half_changed_def)
  then show ?thesis
    using load_and_validate_run [OF g, of env prim] n
    by (auto simp: run_def st_catch_def loaded_def split: prod.splits result.splits)
qed

lemma loaded_half_changed:
  assumes "loaded env c g prim" "half_changed (\<not> prim) g g'" "length (primary_entries g') = length (primary_entries g)"
  shows "loaded env c g' prim"
proof -
  have "get_header prim g' = get_header prim g" "get_entries prim g' = get_entries prim g"
    using assms(2) by (simp_all add: half_changed_def)
  then show ?thesis using assms(1) unfolding loaded_def assms(3) by metis
qed

lemma sync_post_block_size [simp]:
  "sync_post env c n r (st\<lparr> g_gpt := (g_gpt st)\<lparr> gpt_block_size := b \<rparr> \<rparr>) = sync_post env c n r st"
  by (simp add: sync_post_def gd_ok_def gpt_wf_def Let_def)

lemma load_and_sync_run:
  assumes g: "gd_ok c st"
  defines "n \<equiv> length (primary_entries (g_gpt st))"
  shows "run (load_and_sync env io) st (\<lambda>r st'. sync_post env c n r st'
    \<and> (\<forall>res. r = Ok res \<longrightarrow> gpt_block_size (g_gpt st') = Some bs))"
proof -
  have bs: "bs \<noteq> 0" using geometry_blocks(1) [OF gd_geometry [OF g]] by simp
  have *: "length (primary_entries (g_gpt st')) = length (primary_entries (g_gpt s))"
    if "gd_ok c s" "gd_ok c st'" "half_changed prim (g_gpt s) (g_gpt st')" for s st' prim
    using that gpt_half(5) [of info "g_gpt st'" prim] gpt_half(5) [of info "g_gpt s" prim] by (simp add: gd_ok_def half_changed_def)
  have panic: "sync_post env c n Panic s" if "gd_ok c s" "\<not> (reliable \<and> synced env info n c)" "length (primary_entries (g_gpt s)) = n" for s
    using that by (auto simp: sync_post_def Let_def gd_ok_def)
  show ?thesis
    unfolding load_and_sync_def run_then_gets gd_info [OF g] result.case if_not_P [OF bs] Let_def
  proof (rule run_thenI [OF catch_load_run [OF g, of env True]], goal_cases)
    case first: (1 pr st1)
    then have g1: "gd_ok c st1" and n1: "length (primary_entries (g_gpt st1)) = n" using * [OF g, of st1 True] by (auto simp: n_def)
    show ?case
    proof (rule run_thenI [OF catch_load_run [OF g1, of env False]], goal_cases)
      case (1 sr st2)
      then have g2: "gd_ok c st2" and n2: "length (primary_entries (g_gpt st2)) = n" using * [OF g1, of st2 False] n1 by auto
      let ?st = "st2\<lparr> g_gpt := (g_gpt st2)\<lparr> gpt_block_size := None \<rparr> \<rparr>"
      have g3: "gd_ok c ?st" using g2 by (simp add: gd_ok_def gpt_wf_def)
      have same: "loaded env c (g_gpt ?st) prim = loaded env c (g_gpt st2) prim" for prim
        by (simp add: loaded_def get_header_def get_entries_def)
      have "pr = Inl () \<longrightarrow> loaded env c (g_gpt st2) True"
        using loaded_half_changed [of env c "g_gpt st1" True "g_gpt st2"] 1 first n1 n2 by simp
      then have p: "pr = Inl () \<longrightarrow> loaded env c (g_gpt ?st) True" "sr = Inl () \<longrightarrow> loaded env c (g_gpt ?st) False"
        using 1 unfolding same by simp_all
      have v: "reliable \<and> valid_at env info n True c \<longrightarrow> pr = Inl ()" "reliable \<and> valid_at env info n False c \<longrightarrow> sr = Inl ()"
        using 1 first n1 by (simp_all add: n_def)
      have n3: "n = length (primary_entries (g_gpt ?st))" using n2 by simp
      show ?case
        unfolding run_then_upd_gpt
        by (rule run_thenI [OF sync_match_run [OF g3 n3 p(1) v(1) p(2) v(2)]]) (auto simp: run_simps)
    next
      case (3 st2)
      then show ?case using panic [of st2] n1 * [OF g1, of st2 False] by (auto simp: synced_def)
    qed simp
  next
    case (3 st1)
    then show ?case using panic [of st1] * [OF g, of st1 True] by (auto simp: synced_def n_def)
  qed simp
qed

end

end
