(* ===== verification/Gpt_Ram.thy ===== *)
theory Gpt_Ram
  imports Gpt_Sync Gpt_Builder
begin

text \<open>
  What loading, synchronising and updating a GPT and accessing its partitions do to a device in memory,
  from the lemmas on block devices and the two contracts of \<open>RamBlockIo\<close>.
\<close>

section \<open>Contracts\<close>

text \<open>A disk and its load buffer; with \<open>gpt_ready\<close> no error is injected.\<close>

definition gpt_usable :: "block_info \<Rightarrow> ram_block_io gpt_disk \<Rightarrow> bool" where
  "gpt_usable info st \<longleftrightarrow> ram_disk_usable info (g_disk st) \<and> gpt_wf info (g_gpt st)"

definition gpt_ready :: "block_info \<Rightarrow> ram_block_io gpt_disk \<Rightarrow> bool" where
  "gpt_ready info st \<longleftrightarrow> ram_disk_ok info (g_disk st) \<and> gpt_wf info (g_gpt st)"

abbreviation contents :: "ram_block_io gpt_disk \<Rightarrow> byte list" where
  "contents st \<equiv> storage (disk_io (g_disk st))"

lemma gpt_usable_eq: "faulty_ram.gd_ok info c st \<longleftrightarrow> gpt_usable info st \<and> contents st = c"
  by (auto simp: faulty_ram.gd_ok_def gpt_usable_def ram_disk_usable_eq)

lemma gpt_ready_eq: "ram.gd_ok info c st \<longleftrightarrow> gpt_ready info st \<and> contents st = c"
  by (auto simp: ram.gd_ok_def gpt_ready_def ram_disk_ok_eq)

text \<open>The primary half of the load buffer holds a table that passed the checks for the device.\<close>

definition gpt_valid :: "gpt_env \<Rightarrow> block_info \<Rightarrow> gpt \<Rightarrow> bool" where
  "gpt_valid env info g \<longleftrightarrow> gpt_block_size g = Some (block_size info) \<and> header_ok env info (primary_header g) True
     \<and> check_entries env (primary_header g) (entries_bytes (primary_entries g)) = Ok ()"

lemma load_and_sync_valid:
  assumes "gpt_usable info st" "load_and_sync env ram_block_ops st = (r, st')"
  shows "gpt_usable info st'" "r = Ok res \<Longrightarrow> sync_res res = Ok () \<Longrightarrow> gpt_valid env info (g_gpt st')"
  using faulty_ram.load_and_sync_run [of info "contents st" st env] assms
  by (auto simp: gpt_usable_eq run_def faulty_ram.sync_post_def gpt_valid_def Let_def)

lemma load_and_sync_ready:
  assumes "gpt_ready info st"
  obtains r st' where "load_and_sync env ram_block_ops st = (r, st')" "gpt_ready info st'"
    "length (primary_entries (g_gpt st')) = length (primary_entries (g_gpt st))"
    "r = Ok BothValid \<or> (\<exists>e. r = Ok (SecondaryRestored e))
       \<or> (\<exists>e. r = Ok (PrimaryRestored e)) \<and> h_backup (disk_header (contents st) (header_pos info False)) = 1
     \<Longrightarrow> synced env info (length (primary_entries (g_gpt st))) (contents st')"
    "synced env info (length (primary_entries (g_gpt st))) (contents st) \<Longrightarrow> r = Ok BothValid"
    "r = Ok BothValid \<Longrightarrow> contents st' = contents st"
  using ram.load_and_sync_run [of info "contents st" st env] assms
  by (auto simp: gpt_ready_eq run_def ram.sync_post_def Let_def)

section \<open>Partitions\<close>



lemma name_loop_not_Panic: "name_loop cap cs out \<noteq> Panic"
  by (induction cap cs out rule: name_loop.induct) (auto simp: Let_def)

lemma find_in_cases:
  "find_in part bs es \<noteq> Panic \<and> (find_in part bs es = Ok q \<longrightarrow> (\<exists>e \<in> set es. q = partition_new e bs))"
  by (induction part bs es rule: find_in.induct)
     (auto simp: and_then_Ok_iff and_then_Panic_iff name_to_str_def name_loop_not_Panic split: if_splits)

lemma find_partition_cases:
  "find_partition part g \<noteq> Panic"
  "find_partition part g = Ok q \<Longrightarrow> \<exists>e \<in> set (used_entries (primary_entries g)). \<exists>bs. gpt_block_size g = Some bs \<and> q = partition_new e bs"
  using find_in_cases
  by (auto simp: find_partition_def check_valid_def ok_or_def gpt_entries_def split: option.splits)

lemma partition_new_fields [simp]: "p_entry (partition_new e bs) = e" "p_block_size (partition_new e bs) = bs"
  by (simp_all add: partition_new_def)



lemma partition_check_range_eq:
  assumes "0 < bs" "e_first e * bs + off + n \<le> (e_last e + 1) * bs" "(e_last e + 1) * bs < U64"
  shows "partition_check_range off n (partition_new e bs) = Ok (e_first e * bs + off)"
proof -
  have "e_first e * bs \<le> (e_last e + 1) * bs" using assms(2) by linarith
  then have le: "e_first e \<le> e_last e + 1" using assms(1) by (metis mult_le_cancel2)
  then obtain k where k: "e_last e + 1 = e_first e + k" by (metis le_iff_add)
  have "e_last e + 1 \<le> (e_last e + 1) * bs" using assms(1) by (metis Suc_leI mult.right_neutral mult_le_mono2 One_nat_def)
  then have "e_last e + 1 < U64" using assms(3) by linarith
  moreover have "off + n \<le> k * bs" "(e_first e + k) * bs < U64" using assms(2,3) unfolding k by (simp_all add: add_mult_distrib)
  ultimately show ?thesis
    using k by (auto simp: partition_check_range_def partition_size_def absolute_range_def entry_blocks_def add_mult_distrib)
qed


lemma partition_range_ok:
  assumes "ram_disk_ok info d" "gpt_block_size g = Some (block_size info)" "find_partition part g = Ok q"
    and "e_first (p_entry q) * block_size info + off + n \<le> (e_last (p_entry q) + 1) * block_size info"
    and "e_last (p_entry q) < num_blocks info"
  shows "gpt_check_range part off n g = Ok (e_first (p_entry q) * block_size info + off)"
    "e_first (p_entry q) * block_size info + off + n \<le> num_blocks info * block_size info"
proof -
  obtain e where q: "q = partition_new e (block_size info)" using find_partition_cases(2) [OF assms(3)] assms(2) by auto
  have geo: "geometry info" using assms(1) by (auto simp: ram_disk_ok_def ram_disk_usable_def ram_ok_def)
  have le: "(e_last e + 1) * block_size info \<le> num_blocks info * block_size info"
    by (rule mult_le_mono1) (use assms(5) q in simp)
  moreover have "num_blocks info * block_size info < U64" using geo by (auto simp: geometry_def)
  ultimately have U: "(e_last e + 1) * block_size info < U64" by (rule le_less_trans)
  show "gpt_check_range part off n g = Ok (e_first (p_entry q) * block_size info + off)"
    using partition_check_range_eq [OF _ _ U, of off n] assms(3,4) q geo by (simp add: gpt_check_range_def geometry_def)
  show "e_first (p_entry q) * block_size info + off + n \<le> num_blocks info * block_size info"
    using assms(4) le q by simp
qed

lemma partition_write_ok:
  assumes "ram_disk_ok info d" "gpt_block_size g = Some (block_size info)" "find_partition part g = Ok q"
    and "e_first (p_entry q) * block_size info + off + length data \<le> (e_last (p_entry q) + 1) * block_size info"
    and "e_last (p_entry q) < num_blocks info" "p + length data + alignment info < U64"
  shows "\<exists>d'. write_gpt_partition ram_block_ops g part off p data d = (Ok (), data, d') \<and> ram_disk_ok info d'
    \<and> storage (disk_io d') = overwrite (e_first (p_entry q) * block_size info + off) data (storage (disk_io d))"
  using partition_range_ok [OF assms(1-5)] assms(1,6) ram_total_less [OF assms(1) partition_range_ok(2) [OF assms(1-5)]]
    ram.disk_write_ok [of info d "e_first (p_entry q) * block_size info + off" p data]
  by (auto simp: ram_disk_ok_eq ram.addr_ok_def ram.wr_def write_gpt_partition_def)




section \<open>A disk for the examples\<close>

text \<open>Twenty blocks of 4096 bytes with two partitions; the byte sum stands for the checksum.\<close>

definition sample_geometry :: block_info where
  "sample_geometry = \<lparr> block_size = 4096, num_blocks = 20, alignment = 8 \<rparr>"

definition sample_table :: "gpt_entry list" where
  "sample_table = [sample_entry 6 8, sample_entry 9 14]"

definition sample_header :: gpt_header where
  "sample_header = update_crc sample_env \<lparr> h_magic = GPT_MAGIC, h_revision = 0x10000, h_size = 92, h_crc32 = 0,
     h_reserved0 = 0, h_current = 1, h_backup = 19, h_first = 6, h_last = 14, h_guid = replicate 16 7, h_entries = 2,
     h_entries_count = 2, h_entries_size = 128, h_entries_crc = gpt_crc32 sample_env (entries_bytes sample_table) \<rparr>"

definition sample_primary :: "byte list" where
  "sample_primary = replicate 4096 0 @ header_bytes sample_header @ replicate 4004 0
     @ entries_bytes sample_table @ replicate 73472 0"

definition sample_storage :: "byte list" where
  "sample_storage = overwrite 61440 (entries_bytes sample_table)
     (overwrite 77824 (header_bytes (restored_secondary sample_env sample_geometry sample_header)) sample_primary)"

definition sample_gpt :: gpt where
  "sample_gpt = \<lparr> gpt_addr = 8192, gpt_len = 704, gpt_block_size = Some 4096, primary_header = sample_header,
     secondary_header = sample_header, primary_entries = sample_table, secondary_entries = sample_table \<rparr>"

definition sample_gpt_disk :: "ram_block_io gpt_disk" where
  "sample_gpt_disk = \<lparr> g_gpt = sample_gpt, g_disk = \<lparr> disk_io = \<lparr> ram_block_size = 4096, ram_alignment = 8,
       storage = sample_storage, num_writes = 0, num_reads = 0, ram_error = None \<rparr>,
     disk_scratch = replicate 4110 0, disk_scratch_addr = 1024 \<rparr> \<rparr>"

lemma gpt_crc32_less: "gpt_crc32 env bs < U32"
  using unsigned_less [where 'a = nat, of "env_crc32 env bs"] by (simp add: gpt_crc32_def U32_def)

lemma sample_wf: "\<forall>e \<in> set sample_table. entry_wf e" "header_wf sample_header"
proof -
  show "\<forall>e \<in> set sample_table. entry_wf e" by (simp add: sample_table_def sample_entry_wf U64_def)
  show "header_wf sample_header"
    unfolding sample_header_def by (rule update_crc_wf) (use gpt_crc32_less in \<open>simp add: header_wf_def U32_def U64_def GPT_MAGIC_def\<close>)
qed

lemma sample_lengths:
  "length (header_bytes sample_header) = 92" "length (entries_bytes sample_table) = 256"
  "length (header_bytes (restored_secondary sample_env sample_geometry sample_header)) = 92"
  "length sample_primary = 81920"
proof -
  have "header_wf (restored_secondary sample_env sample_geometry sample_header)"
    by (rule restored_wf(2) [OF sample_wf(2)]) (simp add: sample_geometry_def U64_def)
  then show l: "length (header_bytes sample_header) = 92" "length (entries_bytes sample_table) = 256"
    "length (header_bytes (restored_secondary sample_env sample_geometry sample_header)) = 92"
    using sample_wf length_entries_bytes [OF sample_wf(1)]
    by (simp_all add: header_wf_def length_header_bytes) (simp add: sample_table_def)
  show "length sample_primary = 81920" unfolding sample_primary_def by (simp add: l)
qed

lemma sample_header_fields:
  "h_first sample_header = 6" "h_last sample_header = 14" "h_entries sample_header = 2" "h_entries_count sample_header = 2"
  "h_entries_crc sample_header = gpt_crc32 sample_env (entries_bytes sample_table)"
  by (simp_all add: sample_header_def)

lemma sample_header_ok: "header_ok sample_env sample_geometry sample_header True"
  unfolding header_ok_def by (simp add: sample_header_fields sample_geometry_def entries_blks_def) (simp add: sample_header_def)

lemma sample_check:
  "check_entries sample_env sample_header (entries_bytes sample_table) = Ok ()" "used_entries sample_table = sample_table"
  using check_two_entries [OF sample_env_sorts, of sample_header "sample_entry 6 8" "sample_entry 9 14"]
  by (simp_all add: sample_table_def [symmetric] sample_header_fields entry_ok_def U64_def sample_entry_wf replicate_eq_replicate)

lemma sample_on_disk:
  "disk_header sample_primary (header_pos sample_geometry True) = sample_header"
  "disk_table sample_primary 4096 sample_header = entries_bytes sample_table"
  using sample_lengths header_of_bytes_bytes [OF sample_wf(2)]
  by (simp_all add: disk_header_def disk_table_def sample_primary_def header_pos_def sample_geometry_def sample_header_fields)

lemma sample_synced: "synced sample_env sample_geometry 2 sample_storage"
proof -
  have v: "valid_at sample_env sample_geometry 2 True sample_primary"
    using sample_header_ok sample_check(1) sample_on_disk sample_header_fields(4)
    by (simp add: valid_at_def Let_def) (simp add: sample_geometry_def header_pos_def)
  have g: "geometry sample_geometry" by (simp add: geometry_def sample_geometry_def U64_def)
  have "length sample_table = 2" by (simp add: sample_table_def)
  from restored_secondary_synced [OF v _ g sample_wf(1) this] show ?thesis
    using sample_on_disk sample_lengths(4) sample_header_fields(4)
    by (simp add: sample_geometry_def header_pos_def entries_blks_def sample_storage_def sample_table_def)
qed

lemma sample_ready: "gpt_ready sample_geometry sample_gpt_disk"
proof -
  have "length sample_storage = 81920" using sample_lengths by (simp add: sample_storage_def)
  then show ?thesis
    using sample_wf
    by (simp add: gpt_ready_def sample_gpt_disk_def sample_geometry_def ram_disk_ok_def ram_disk_usable_def ram_ok_def geometry_def
        scratch_fits_def align_gap_def gpt_wf_def sample_gpt_def U64_def) (simp add: sample_table_def)
qed

lemma sample_sync:
  obtains st' where "load_and_sync sample_env ram_block_ops sample_gpt_disk = (Ok BothValid, st')"
proof (rule load_and_sync_ready [OF sample_ready, of sample_env])
  fix r st'
  assume "load_and_sync sample_env ram_block_ops sample_gpt_disk = (r, st')"
    "synced sample_env sample_geometry (length (primary_entries (g_gpt sample_gpt_disk))) (contents sample_gpt_disk) \<Longrightarrow> r = Ok BothValid"
  then show thesis
    using that sample_synced by (simp add: sample_gpt_disk_def sample_gpt_def sample_table_def numeral_2_eq_2)
qed

lemma sample_find: "find_partition [] sample_gpt = Ok (partition_new (sample_entry 6 8) 4096)"
proof -
  have "replicate 36 (0 :: nat) = 0 # replicate 35 0" by code_simp
  then have "name_to_str n (sample_entry lo hi) = Ok []" for n lo hi
    by (simp add: name_to_str_def sample_entry_def)
  then show ?thesis
    using sample_check(2) by (simp add: find_partition_def check_valid_def ok_or_def gpt_entries_def sample_gpt_def)
      (simp add: sample_table_def)
qed


section \<open>Properties\<close>

text \<open>
  C8. Whatever the device holds and whenever it fails, when synchronising reports success the primary
  half of the load buffer is a header that is valid for the device with entries that pass the check, the
  block size is that of the device, and the disk can be used further.
\<close>

theorem load_and_sync_sound:
  assumes "gpt_usable info st" "load_and_sync env ram_block_ops st = (Ok res, st')" "sync_res res = Ok ()"
  shows "gpt_valid env info (g_gpt st') \<and> gpt_usable info st'"
  using load_and_sync_valid [OF assms(1,2)] assms(3) by blast

theorem load_and_sync_sound_witness:
  "\<exists>st'. load_and_sync sample_env ram_block_ops sample_gpt_disk = (Ok BothValid, st')
    \<and> gpt_valid sample_env sample_geometry (g_gpt st')"
proof (rule sample_sync)
  fix st'
  assume "load_and_sync sample_env ram_block_ops sample_gpt_disk = (Ok BothValid, st')"
  then show ?thesis
    using load_and_sync_sound [of sample_geometry sample_gpt_disk sample_env BothValid st'] sample_ready
    by (auto simp: gpt_ready_def gpt_usable_def ram_disk_ok_def)
qed





text \<open>
  C12. A write of a range inside a partition succeeds on a device without errors, stores the data at that
  offset of the partition, and a read of the same range gives the data back.
\<close>

theorem partition_write_read:
  assumes "ram_disk_ok info d" "gpt_block_size g = Some (block_size info)" "find_partition part g = Ok q"
    and "e_first (p_entry q) * block_size info + off + length data \<le> (e_last (p_entry q) + 1) * block_size info"
    and "e_last (p_entry q) < num_blocks info"
    and "p + length data + alignment info < U64" "p' + length data + alignment info < U64" "length out = length data"
  shows "\<exists>d1 d2. write_gpt_partition ram_block_ops g part off p data d = (Ok (), data, d1)
    \<and> storage (disk_io d1) = overwrite (e_first (p_entry q) * block_size info + off) data (storage (disk_io d))
    \<and> read_gpt_partition ram_block_ops g part off p' out d1 = (Ok (), data, d2)"
proof -
  define x where "x = e_first (p_entry q) * block_size info + off"
  have c: "gpt_check_range part off (length data) g = Ok x" and rng: "x + length data \<le> num_blocks info * block_size info"
    using partition_range_ok [OF assms(1-5)] by (simp_all add: x_def)
  obtain d1 where d1: "write_gpt_partition ram_block_ops g part off p data d = (Ok (), data, d1)" "ram_disk_ok info d1"
    "storage (disk_io d1) = overwrite x data (storage (disk_io d))"
    using partition_write_ok [OF assms(1-6)] by (auto simp: x_def)
  obtain d2 where d2: "disk_read ram_block_ops x p' out d1 = (Ok (), take (length out) (drop x (storage (disk_io d1))), d2)"
    using ram.disk_read_ok [of info d1 x p' out] ram_total_less [OF assms(1) rng] d1(2) assms(7,8) rng
    by (auto simp: ram_disk_ok_eq ram.addr_ok_def ram.rd_def)
  have "length (storage (disk_io d)) = num_blocks info * block_size info"
    using assms(1) by (simp add: ram_disk_ok_def ram_disk_usable_def ram_ok_def)
  then have "take (length out) (drop x (storage (disk_io d1))) = data" using rng d1(3) assms(8) by (simp add: overwrite_def)
  then show ?thesis using c d1 d2 assms(8) by (simp add: read_gpt_partition_def x_def)
qed

theorem partition_write_read_witness:
  "\<exists>d1 d2. write_gpt_partition ram_block_ops sample_gpt [] 100 33 [1, 2, 3] (g_disk sample_gpt_disk) = (Ok (), [1, 2, 3], d1)
    \<and> read_gpt_partition ram_block_ops sample_gpt [] 100 65 [0, 0, 0] d1 = (Ok (), [1, 2, 3], d2)"
  using partition_write_read [of sample_geometry "g_disk sample_gpt_disk" sample_gpt "[]" _ 100 "[1, 2, 3]" 33 65 "[0, 0, 0]"]
    sample_ready sample_find by (fastforce simp: sample_geometry_def sample_gpt_def U64_def gpt_ready_def)



text \<open>
  C36. Checking a header accepts exactly the headers that describe a table inside the device: it decides
  \<open>header_ok\<close>. It aborts only on a header with a correct magic and checksum whose last usable block is the
  largest \<open>u64\<close>.
\<close>

theorem check_header_decides:
  assumes "0 < block_size info" "num_blocks info < U64" "h_last h < U64"
  shows "(check_header env info h prim = Ok () \<longleftrightarrow> header_ok env info h prim)
    \<and> (check_header env info h prim = Panic \<longrightarrow> h_last h = U64 - 1)"
  using check_header_split [OF assms] by blast

theorem check_header_decides_witness:
  "check_header sample_env sample_geometry sample_header True = Ok ()"
  using check_header_decides [of sample_geometry sample_header sample_env True] sample_header_ok
  by (simp add: sample_geometry_def sample_header_fields U64_def)

end
