(* ===== verification/Slots.thy ===== *)
theory Slots
  imports Layout "HOL-Library.Product_Lexorder"
begin

text \<open>
  Boot slots (\<open>libgbl/src/slots.rs\<close>): the types of the \<open>Manager\<close> trait, its provided methods and the slot
  iterator, and the partition-backed cache of slot metadata (\<open>slots/partition.rs\<close>) on which both
  managers of the library are built. Slot getters never abort; their errors end the iteration.
\<close>

section \<open>Slot types\<close>

text \<open>A suffix is a character, given by its code point.\<close>

type_synonym suffix = nat

definition suffix_rank :: "suffix \<Rightarrow> int" where
  "suffix_rank self = - int self"

definition suffix_from_u32 :: "nat \<Rightarrow> suffix res" where
  "suffix_from_u32 v = (if unicode_scalar v then Ok v else Err InvalidInput)"

definition suffix_from_usize :: "nat \<Rightarrow> suffix res" where
  "suffix_from_usize v = (if v < U32 then suffix_from_u32 v else Err InvalidInput)"

definition SUFFIX_CSTR_MAX_BYTES :: nat where "SUFFIX_CSTR_MAX_BYTES = 4 + 1"

definition suffix_bytes :: "suffix \<Rightarrow> byte list" where
  "suffix_bytes val = overwrite 0 (encode_utf8 val) (replicate SUFFIX_CSTR_MAX_BYTES 0)"

datatype unbootable_reason = Unknown | NoMoreTries | SystemUpdate | UserRequested | VerificationFailure

definition reason_from_u8 :: "byte \<Rightarrow> unbootable_reason" where
  "reason_from_u8 val =
     (if val = 1 then NoMoreTries else if val = 2 then SystemUpdate else if val = 3 then UserRequested
      else if val = 4 then VerificationFailure else Unknown)"

fun reason_to_u8 :: "unbootable_reason \<Rightarrow> byte" where
  "reason_to_u8 Unknown = 0"
| "reason_to_u8 NoMoreTries = 1"
| "reason_to_u8 SystemUpdate = 2"
| "reason_to_u8 UserRequested = 3"
| "reason_to_u8 VerificationFailure = 4"

definition default_reason :: unbootable_reason where
  "default_reason = Unknown"

datatype bootability = Successful | Unbootable unbootable_reason | Retriable nat

definition default_bootability :: bootability where
  "default_bootability = Retriable 7"

record slot =
  sl_suffix :: suffix
  sl_priority :: nat
  sl_bootability :: bootability

definition is_bootable :: "slot \<Rightarrow> bool" where
  "is_bootable self = (case sl_bootability self of Unbootable _ \<Rightarrow> False | _ \<Rightarrow> True)"

datatype recovery_target = Dedicated | Slotted slot

datatype boot_target = NormalBoot slot | Recovery recovery_target

fun boot_target_suffix :: "boot_target \<Rightarrow> suffix" where
  "boot_target_suffix (NormalBoot s) = sl_suffix s"
| "boot_target_suffix (Recovery (Slotted s)) = sl_suffix s"
| "boot_target_suffix (Recovery Dedicated) = 114"

datatype one_shot = Bootloader | Continue recovery_target

section \<open>Iterating over slots\<close>

record slot_iterator =
  si_count :: nat
  si_getter :: "nat \<Rightarrow> slot res"

definition slot_iter_new :: "(nat \<Rightarrow> slot res) \<Rightarrow> slot_iterator" where
  "slot_iter_new intf = \<lparr> si_count = 0, si_getter = intf \<rparr>"

definition slot_iter_next :: "slot_iterator \<Rightarrow> slot option \<times> slot_iterator" where
  "slot_iter_next self =
     (case si_getter self (si_count self) of
        Ok s \<Rightarrow> (Some s, self\<lparr> si_count := si_count self + 1 \<rparr>)
      | _ \<Rightarrow> (None, self))"

text \<open>
  The items of an iterator. The managers name their slots \<open>a\<close> to \<open>z\<close>, so that 27 calls of \<open>next\<close>
  reach the end.
\<close>

fun iter_slots :: "nat \<Rightarrow> slot_iterator \<Rightarrow> slot list" where
  "iter_slots 0 it = []"
| "iter_slots (Suc n) it = (case slot_iter_next it of (None, _) \<Rightarrow> [] | (Some s, it') \<Rightarrow> s # iter_slots n it')"

definition slots_iter :: "(nat \<Rightarrow> slot res) \<Rightarrow> slot list" where
  "slots_iter intf = iter_slots 27 (slot_iter_new intf)"

text \<open>\<open>('a'..='z')\<close>\<close>

definition lower_ascii_suffixes :: "suffix list" where
  "lower_ascii_suffixes = [97..<123]"

text \<open>\<open>Iterator::max_by_key\<close>: the last of the items with the largest key.\<close>

fun max_by_key :: "('a \<Rightarrow> 'k :: linorder) \<Rightarrow> 'a list \<Rightarrow> 'a option" where
  "max_by_key key [] = None"
| "max_by_key key (x # xs) = Some (foldl (\<lambda>m y. if key m \<le> key y then y else m) x xs)"

definition slot_key :: "slot \<Rightarrow> nat \<times> int" where
  "slot_key s = (sl_priority s, suffix_rank (sl_suffix s))"

text \<open>The first slot with a suffix, and its index.\<close>

fun find_suffix :: "suffix \<Rightarrow> nat \<Rightarrow> slot list \<Rightarrow> (nat \<times> slot) option" where
  "find_suffix sfx i [] = None"
| "find_suffix sfx i (s # ss) = (if sl_suffix s = sfx then Some (i, s) else find_suffix sfx (i + 1) ss)"

section \<open>The Manager trait\<close>

text \<open>A closure that persists metadata; it may change the bytes, and a world of its own.\<close>

type_synonym 'w persist = "byte list \<Rightarrow> 'w \<Rightarrow> unit res \<times> byte list \<times> 'w"

record ('s, 'w) manager =
  m_get_slot_by_number :: "'s \<Rightarrow> nat \<Rightarrow> slot res"
  m_get_boot_target :: "'s \<Rightarrow> boot_target res"
  m_mark_boot_attempt :: "('s, unit) io"
  m_set_active_slot :: "suffix \<Rightarrow> ('s, unit) io"
  m_set_slot_unbootable :: "suffix \<Rightarrow> unbootable_reason \<Rightarrow> ('s, unit) io"
  m_get_oneshot_status :: "'s \<Rightarrow> one_shot option"
  m_set_oneshot_status :: "one_shot \<Rightarrow> ('s, unit) io"
  m_clear_oneshot_status :: "'s \<Rightarrow> 's"
  m_write_back :: "'w persist \<Rightarrow> ('s \<times> 'w, unit) io"

definition get_slot_last_set_active :: "(nat \<Rightarrow> slot res) \<Rightarrow> slot res" where
  "get_slot_last_set_active intf =
     ok_or (max_by_key slot_key (slots_iter intf)) (Other (Some ''Couldn't get slot last set active''))"

definition get_max_retries :: "nat res" where
  "get_max_retries = Ok 7"

definition default_get_oneshot_status :: "'s \<Rightarrow> one_shot option" where
  "default_get_oneshot_status self = None"

definition default_set_oneshot_status :: "one_shot \<Rightarrow> ('s, unit) io" where
  "default_set_oneshot_status oneshot self = (Err OperationProhibited, self)"

definition default_write_back :: "'w persist \<Rightarrow> ('s \<times> 'w, unit) io" where
  "default_write_back persist self = (Ok (), self)"

text \<open>Dropping a \<open>Cursor\<close> writes the changes back.\<close>

record ('s, 'w) cursor =
  cur_ctx :: 's
  cur_persist :: "'w persist"

definition cursor_drop :: "('s, 'w) manager \<Rightarrow> ('s, 'w) cursor \<Rightarrow> 'w \<Rightarrow> unit res \<times> 's \<times> 'w" where
  "cursor_drop m self w = m_write_back m (cur_persist self) (cur_ctx self, w)"

record slots_metadata =
  slot_count :: nat

section \<open>Partition-backed metadata\<close>

datatype cache_status = Clean | Dirty

record 'd metadata_bytes =
  md_validate :: "byte list \<Rightarrow> 'd res"
  md_prepare_for_sync :: "'d \<Rightarrow> 'd"
  md_default :: 'd
  md_bytes :: "'d \<Rightarrow> byte list"
  md_of_bytes :: "byte list \<Rightarrow> 'd"

record 'd slot_block =
  cache_status :: cache_status
  boot_token :: "unit option"
  sb_data :: 'd

definition take_boot_token :: "'d slot_block \<Rightarrow> unit option \<times> 'd slot_block" where
  "take_boot_token self = (boot_token self, self\<lparr> boot_token := None \<rparr>)"

text \<open>A change through the reference that \<open>get_mut_data\<close> hands out.\<close>

definition get_mut_data :: "('d \<Rightarrow> 'd) \<Rightarrow> 'd slot_block \<Rightarrow> 'd slot_block" where
  "get_mut_data f self = self\<lparr> cache_status := Dirty, sb_data := f (sb_data self) \<rparr>"

definition block_deserialize :: "'d metadata_bytes \<Rightarrow> byte list \<Rightarrow> 'd slot_block" where
  "block_deserialize md buffer =
     (case md_validate md buffer of
        Ok d \<Rightarrow> \<lparr> cache_status = Clean, boot_token = Some (), sb_data = d \<rparr>
      | _ \<Rightarrow> \<lparr> cache_status = Dirty, boot_token = Some (), sb_data = md_default md \<rparr>)"

definition sync_to_disk :: "'d metadata_bytes \<Rightarrow> 'w persist \<Rightarrow> ('d slot_block \<times> 'w, unit) io" where
  "sync_to_disk md persist = (\<lambda>(self, w).
     if cache_status self = Clean then (Ok (), self, w)
     else
       let self1 = self\<lparr> sb_data := md_prepare_for_sync md (sb_data self) \<rparr> in
       (case persist (md_bytes md (sb_data self1)) w of
          (r, bytes, w') \<Rightarrow>
            let self2 = get_mut_data (\<lambda>_. md_of_bytes md bytes) self1 in
            (case r of Ok _ \<Rightarrow> (Ok (), self2\<lparr> cache_status := Clean \<rparr>, w') | _ \<Rightarrow> (Panic, self2, w'))))"

definition token_or_prohibited :: "('d slot_block, unit) io" where
  "token_or_prohibited self =
     (case take_boot_token self of (t, self') \<Rightarrow> (ok_or t OperationProhibited, self'))"

end
