(* ===== verification/Slot_Manager.thy ===== *)
theory Slot_Manager
  imports Slots
begin

text \<open>
  What a slot manager promises, as operations on the list of its slots, and what its clients conclude
  from that: an activated slot is booted, an unbootable one is not, a boot token is given out once, and a
  slot that is never marked successful is given up after its seven attempts. Both managers of the
  library are shown to keep the promise in their theories.
\<close>

section \<open>Iteration\<close>

lemma iter_slots_eq:
  assumes g: "\<And>i. g i = (if i < n then Ok (f i) else Err (BadIndex i))"
  shows "n - c < k \<Longrightarrow> iter_slots k \<lparr> si_count = c, si_getter = g \<rparr> = map f [c..<n]"
proof (induction k arbitrary: c)
  case (Suc k)
  show ?case
  proof (cases "c < n")
    case True
    then have "n - Suc c < k" using Suc.prems by linarith
    then show ?thesis using Suc.IH [of "Suc c"] True by (simp add: slot_iter_next_def g [of c] upt_conv_Cons)
  qed (simp add: slot_iter_next_def g [of c])
qed simp

lemma slots_iter_eq:
  assumes "\<And>i. g i = (if i < n then Ok (f i) else Err (BadIndex i))" "n \<le> 26"
  shows "slots_iter g = map f [0..<n]"
  unfolding slots_iter_def slot_iter_new_def by (rule iter_slots_eq [OF assms(1)]) (use assms(2) in linarith)

lemma nth_suffixes [simp]: "length lower_ascii_suffixes = 26" "i < 26 \<Longrightarrow> lower_ascii_suffixes ! i = 97 + i"
  unfolding lower_ascii_suffixes_def by (simp_all del: upt_rec_numeral)

lemma find_suffix_map:
  assumes "\<And>i. sl_suffix (f i) = b + i"
  shows "find_suffix sfx k (map f [k..<n]) = (if b + k \<le> sfx \<and> sfx < b + n then Some (sfx - b, f (sfx - b)) else None)"
proof (induction "n - k" arbitrary: k)
  case (Suc m)
  then have k: "k < n" "m = n - Suc k" by simp_all
  have e: "map f [k..<n] = f k # map f [Suc k..<n]" using k by (simp add: upt_conv_Cons)
  show ?case
  proof (cases "sfx = b + k")
    case False
    then show ?thesis using Suc.hyps(1) [OF k(2)] k(1) unfolding e by (simp add: assms)
  qed (use k e assms in simp)
qed simp

section \<open>The best slot\<close>

lemma foldl_max_in: "foldl (\<lambda>m y. if key m \<le> key y then y else m) x xs \<in> set (x # xs)"
proof (induction xs arbitrary: x)
  case (Cons z xs)
  show ?case using Cons [of "if key x \<le> key z then z else x"] by (auto split: if_splits)
qed simp

lemma foldl_max_ge:
  fixes key :: "'a \<Rightarrow> 'k :: linorder"
  shows "y \<in> set (x # xs) \<Longrightarrow> key y \<le> key (foldl (\<lambda>m y. if key m \<le> key y then y else m) x xs)"
proof (induction xs arbitrary: x y)
  case (Cons z xs)
  let ?m = "if key x \<le> key z then z else x"
  let ?r = "foldl (\<lambda>m y. if key m \<le> key y then y else m) ?m xs"
  have m: "key ?m \<le> key ?r" by (rule Cons.IH) simp
  have "key y \<le> key ?r"
  proof (cases "y \<in> set xs")
    case False
    then have "key y \<le> key ?m" using Cons.prems by auto
    then show ?thesis using m by (rule order_trans)
  qed (use Cons.IH in auto)
  then show ?case by simp
qed simp

lemma max_by_key_Some:
  assumes "max_by_key key xs = Some m"
  shows "m \<in> set xs" "x \<in> set xs \<Longrightarrow> key x \<le> key m"
  using assms foldl_max_in [of key "hd xs" "tl xs"] foldl_max_ge [of x "hd xs" "tl xs" key] by (cases xs; force)+

lemma max_by_key_None: "max_by_key key xs = None \<longleftrightarrow> xs = []"
  by (cases xs) auto

lemma max_by_key_unique:
  assumes "x \<in> set xs" "\<And>y. y \<in> set xs \<Longrightarrow> y \<noteq> x \<Longrightarrow> key y < key x"
  shows "max_by_key key xs = Some x"
proof -
  obtain m where m: "max_by_key key xs = Some m" using assms(1) max_by_key_None [of key xs] by (cases "max_by_key key xs") auto
  then show ?thesis using max_by_key_Some [OF m] assms by force
qed

definition best :: "slot list \<Rightarrow> slot option" where
  "best ss = max_by_key slot_key (filter is_bootable ss)"

lemma best_Some: "best ss = Some x \<Longrightarrow> x \<in> set ss \<and> is_bootable x"
  using max_by_key_Some(1) by (fastforce simp: best_def)

lemma best_top:
  assumes "x \<in> set ss" "is_bootable x" "\<forall>y \<in> set ss. y \<noteq> x \<longrightarrow> sl_priority y < sl_priority x"
  shows "best ss = Some x"
  unfolding best_def by (rule max_by_key_unique) (use assms in \<open>auto simp: slot_key_def less_prod_simp\<close>)

section \<open>Specification\<close>

definition activate :: "nat \<Rightarrow> suffix \<Rightarrow> slot \<Rightarrow> slot" where
  "activate hi sfx s =
     (if sl_suffix s = sfx then s\<lparr> sl_priority := hi, sl_bootability := Retriable 7 \<rparr>
      else s\<lparr> sl_priority := hi - 1 \<rparr>)"

definition disable :: "unbootable_reason \<Rightarrow> suffix \<Rightarrow> slot \<Rightarrow> slot" where
  "disable r sfx s = (if sl_suffix s = sfx then s\<lparr> sl_bootability := Unbootable r \<rparr> else s)"

fun used_up :: "unbootable_reason \<Rightarrow> bootability \<Rightarrow> bootability" where
  "used_up r (Retriable t) = (if t = 1 then Unbootable r else Retriable (t - 1))"
| "used_up r b = b"

definition attempt :: "unbootable_reason \<Rightarrow> suffix \<Rightarrow> slot \<Rightarrow> slot" where
  "attempt r sfx s = (if sl_suffix s = sfx then s\<lparr> sl_bootability := used_up r (sl_bootability s) \<rparr> else s)"

lemma spec_suffix [simp]:
  "sl_suffix (activate hi sfx s) = sl_suffix s" "sl_suffix (disable r sfx s) = sl_suffix s"
  "sl_suffix (attempt r sfx s) = sl_suffix s"
  by (simp_all add: activate_def disable_def attempt_def)

text \<open>Slot \<open>sfx\<close> is ahead of all others and has used \<open>k\<close> of its seven attempts.\<close>

definition leading :: "nat \<Rightarrow> suffix \<Rightarrow> nat \<Rightarrow> slot list \<Rightarrow> bool" where
  "leading hi sfx k ss \<longleftrightarrow> (\<exists>s \<in> set ss. sl_suffix s = sfx) \<and> (\<forall>s \<in> set ss. if sl_suffix s = sfx
     then sl_priority s = hi \<and> (if k < 7 then sl_bootability s = Retriable (7 - k) else \<not> is_bootable s)
     else sl_priority s < hi)"

lemma leading_activate:
  "0 < hi \<Longrightarrow> sfx \<in> sl_suffix ` set ss \<Longrightarrow> leading hi sfx 0 (map (activate hi sfx) ss)"
  unfolding leading_def by (intro conjI) (force, auto simp: activate_def)

lemma leading_attempt:
  assumes "leading hi sfx k ss" "k < 7"
  shows "leading hi sfx (Suc k) (map (attempt r sfx) ss)"
proof -
  have "if sl_suffix s = sfx then sl_priority (attempt r sfx s) = hi
      \<and> (if Suc k < 7 then sl_bootability (attempt r sfx s) = Retriable (7 - Suc k) else \<not> is_bootable (attempt r sfx s))
    else sl_priority (attempt r sfx s) < hi" if "s \<in> set ss" for s
  proof -
    have "if sl_suffix s = sfx then sl_priority s = hi \<and> sl_bootability s = Retriable (7 - k) else sl_priority s < hi"
      using assms that by (auto simp: leading_def)
    then show ?thesis using assms(2) by (auto simp: attempt_def is_bootable_def)
  qed
  then show ?thesis using assms(1) unfolding leading_def by simp
qed

lemma leading_best:
  assumes "leading hi sfx k ss" "k < 7" "distinct (map sl_suffix ss)"
  obtains x where "best ss = Some x" "sl_suffix x = sfx" "sl_bootability x = Retriable (7 - k)"
proof -
  obtain x where x: "x \<in> set ss" "sl_suffix x = sfx" using assms(1) by (auto simp: leading_def)
  then have b: "sl_bootability x = Retriable (7 - k)" "sl_priority x = hi" using assms(1,2) by (auto simp: leading_def)
  have "sl_priority y < sl_priority x" if "y \<in> set ss" "y \<noteq> x" for y
  proof -
    have "sl_suffix y \<noteq> sfx" using assms(3) that x by (metis distinct_map inj_onD)
    then show ?thesis using assms(1) that b by (auto simp: leading_def)
  qed
  then have "best ss = Some x" using x b by (intro best_top) (auto simp: is_bootable_def)
  with x b that show thesis by blast
qed

section \<open>The contract\<close>

locale slot_manager =
  fixes wf :: "'s \<Rightarrow> bool" and slots_of :: "'s \<Rightarrow> slot list" and token :: "'s \<Rightarrow> bool"
    and target :: "'s \<Rightarrow> boot_target res" and mark :: "('s, unit) io"
    and set_active :: "suffix \<Rightarrow> ('s, unit) io" and set_unbootable :: "suffix \<Rightarrow> unbootable_reason \<Rightarrow> ('s, unit) io"
    and reboot :: "'s \<Rightarrow> 's" and hi :: nat and gone :: unbootable_reason
    and reason_of :: "unbootable_reason \<Rightarrow> unbootable_reason" and fallback :: "slot list \<Rightarrow> recovery_target"
  assumes top_pos: "0 < hi"
    and slots_law: "wf s \<Longrightarrow> distinct (map sl_suffix (slots_of s))"
    and target_law: "wf s \<Longrightarrow>
      target s = Ok (case best (slots_of s) of Some x \<Rightarrow> NormalBoot x | None \<Rightarrow> Recovery (fallback (slots_of s)))"
    and active_law: "wf s \<Longrightarrow> sfx \<in> sl_suffix ` set (slots_of s) \<Longrightarrow>
      \<exists>s'. set_active sfx s = (Ok (), s') \<and> wf s' \<and> slots_of s' = map (activate hi sfx) (slots_of s) \<and> token s' = token s"
    and active_unknown: "wf s \<Longrightarrow> sfx \<notin> sl_suffix ` set (slots_of s) \<Longrightarrow> set_active sfx s = (Err InvalidInput, s)"
    and unbootable_law: "wf s \<Longrightarrow> sfx \<in> sl_suffix ` set (slots_of s) \<Longrightarrow>
      \<exists>s'. set_unbootable sfx r s = (Ok (), s') \<and> wf s' \<and> slots_of s' = map (disable (reason_of r) sfx) (slots_of s)
        \<and> token s' = token s"
    and unbootable_unknown: "wf s \<Longrightarrow> sfx \<notin> sl_suffix ` set (slots_of s) \<Longrightarrow> set_unbootable sfx r s = (Err InvalidInput, s)"
    and mark_law: "wf s \<Longrightarrow> token s \<Longrightarrow> \<exists>s'. mark s = (Ok (), s') \<and> wf s' \<and> \<not> token s' \<and> slots_of s' =
      (case best (slots_of s) of Some x \<Rightarrow> map (attempt gone (sl_suffix x)) (slots_of s) | None \<Rightarrow> slots_of s)"
    and mark_again: "wf s \<Longrightarrow> \<not> token s \<Longrightarrow> \<exists>s'. mark s = (Err OperationProhibited, s') \<and> wf s' \<and> \<not> token s'"
    and reboot_law: "wf s \<Longrightarrow> wf (reboot s) \<and> slots_of (reboot s) = slots_of s \<and> token (reboot s)"
begin

lemma active_is_target:
  assumes "wf s" "set_active sfx s = (Ok (), s')"
  shows "wf s' \<and> token s' = token s \<and> leading hi sfx 0 (slots_of s')"
proof -
  have sfx: "sfx \<in> sl_suffix ` set (slots_of s)" using active_unknown [OF assms(1), of sfx] assms(2) by fastforce
  then show ?thesis
    using active_law [OF assms(1) sfx] leading_activate [OF top_pos sfx] assms(2) by auto
qed

lemma leading_target:
  assumes "wf s" "leading hi sfx k (slots_of s)"
  shows "k < 7 \<Longrightarrow> \<exists>x. target s = Ok (NormalBoot x) \<and> sl_suffix x = sfx \<and> sl_bootability x = Retriable (7 - k)"
    and "\<not> k < 7 \<Longrightarrow> target s \<noteq> Ok (NormalBoot x) \<or> sl_suffix x \<noteq> sfx"
proof -
  show "\<exists>x. target s = Ok (NormalBoot x) \<and> sl_suffix x = sfx \<and> sl_bootability x = Retriable (7 - k)" if k: "k < 7"
    by (rule leading_best [OF assms(2) k slots_law [OF assms(1)]]) (simp add: target_law [OF assms(1)])
  show "target s \<noteq> Ok (NormalBoot x) \<or> sl_suffix x \<noteq> sfx" if "\<not> k < 7"
    using that assms(2) best_Some [of "slots_of s" x] by (auto simp: target_law [OF assms(1)] leading_def split: option.splits)
qed

text \<open>A boot: the attempt is marked, the changes are written back, and the device restarts.\<close>

definition boot :: "'s \<Rightarrow> 's" where
  "boot s = reboot (snd (mark s))"

lemma boot_leading:
  assumes "wf s" "token s" "leading hi sfx k (slots_of s)" "k < 7"
  shows "wf (boot s) \<and> token (boot s) \<and> leading hi sfx (Suc k) (slots_of (boot s))"
proof (rule leading_best [OF assms(3,4) slots_law [OF assms(1)]])
  fix x
  assume x: "best (slots_of s) = Some x" "sl_suffix x = sfx" "sl_bootability x = Retriable (7 - k)"
  obtain s' where "mark s = (Ok (), s')" "wf s'" "slots_of s' = map (attempt gone sfx) (slots_of s)"
    using mark_law [OF assms(1,2)] x by auto
  then show ?thesis using reboot_law leading_attempt [OF assms(3,4)] by (simp add: boot_def)
qed

lemma boots_leading:
  assumes "wf s" "token s" "leading hi sfx 0 (slots_of s)" "k \<le> 7"
  shows "wf ((boot ^^ k) s) \<and> token ((boot ^^ k) s) \<and> leading hi sfx k (slots_of ((boot ^^ k) s))"
  using assms(4) boot_leading by (induction k) (use assms in auto)

lemma attempts_run_out:
  assumes "wf s" "token s" "set_active sfx s = (Ok (), s')"
  shows "k < 7 \<Longrightarrow> \<exists>x. target ((boot ^^ k) s') = Ok (NormalBoot x) \<and> sl_suffix x = sfx \<and> sl_bootability x = Retriable (7 - k)"
    and "target ((boot ^^ 7) s') \<noteq> Ok (NormalBoot x) \<or> sl_suffix x \<noteq> sfx"
proof -
  note a = active_is_target [OF assms(1,3)]
  have b: "wf ((boot ^^ k) s') \<and> leading hi sfx k (slots_of ((boot ^^ k) s'))" if "k \<le> 7" for k
    using boots_leading [of s' sfx k] a assms(2) that by blast
  show "\<exists>x. target ((boot ^^ k) s') = Ok (NormalBoot x) \<and> sl_suffix x = sfx \<and> sl_bootability x = Retriable (7 - k)" if "k < 7"
    using leading_target(1) [of _ sfx k] b [of k] that by simp
  show "target ((boot ^^ 7) s') \<noteq> Ok (NormalBoot x) \<or> sl_suffix x \<noteq> sfx"
    using leading_target(2) [of "(boot ^^ 7) s'" sfx 7 x] b [of 7] by blast
qed

lemma unbootable_not_target:
  assumes "wf s" "set_unbootable sfx r s = (Ok (), s')"
  shows "wf s' \<and> (\<forall>x. target s' = Ok (NormalBoot x) \<longrightarrow> sl_suffix x \<noteq> sfx)"
proof -
  have sfx: "sfx \<in> sl_suffix ` set (slots_of s)" using unbootable_unknown [OF assms(1), of sfx r] assms(2) by fastforce
  have w: "wf s'" and e: "slots_of s' = map (disable (reason_of r) sfx) (slots_of s)"
    using unbootable_law [OF assms(1) sfx, of r] assms(2) by simp_all
  have "sl_suffix x \<noteq> sfx" if x: "best (slots_of s') = Some x" for x
  proof -
    obtain y where "x = disable (reason_of r) sfx y" "is_bootable x" using best_Some [OF x] unfolding e by auto
    then show ?thesis by (auto simp: disable_def is_bootable_def)
  qed
  then show ?thesis using w by (simp add: target_law [OF w] split: option.splits)
qed

lemma token_once:
  assumes "wf s" "mark s = (Ok (), s')"
  shows "wf s' \<and> (\<exists>s''. mark s' = (Err OperationProhibited, s''))"
proof (cases "token s")
  case True
  then have "wf s'" "\<not> token s'" using mark_law [OF assms(1) True] assms(2) by auto
  then show ?thesis using mark_again by blast
qed (use mark_again [OF assms(1)] assms(2) in auto)

end

section \<open>Metadata on a partition\<close>

lemma token_or_prohibited_eq:
  "token_or_prohibited sb = (if boot_token sb = Some () then (Ok (), sb\<lparr> boot_token := None \<rparr>)
     else (Err OperationProhibited, sb\<lparr> boot_token := None \<rparr>))"
  by (cases "boot_token sb") (auto simp: token_or_prohibited_def take_boot_token_def)

text \<open>A partition that stores the persisted bytes at its start.\<close>

definition store_bytes :: "byte list persist" where
  "store_bytes bytes disk = (Ok (), bytes, overwrite 0 bytes disk)"

text \<open>Writing back the changes, and reading the metadata at the next start.\<close>

definition power_cycle :: "'d metadata_bytes \<Rightarrow> 'd slot_block \<times> byte list \<Rightarrow> 'd slot_block \<times> byte list" where
  "power_cycle md s = (case sync_to_disk md store_bytes s of (r, sb, disk) \<Rightarrow> (block_deserialize md disk, disk))"

text \<open>An operation on the metadata in memory.\<close>

definition on_block :: "('b, 'a) io \<Rightarrow> ('b \<times> 'w, 'a) io" where
  "on_block f s = (case f (fst s) of (r, sb) \<Rightarrow> (r, sb, snd s))"

locale metadata =
  fixes md :: "'d metadata_bytes" and good :: "'d \<Rightarrow> bool" and n :: nat
  assumes default_good: "good (md_default md)"
    and prepare_good: "good d \<Longrightarrow> good (md_prepare_for_sync md d)"
    and bytes_length: "good d \<Longrightarrow> length (md_bytes md d) = n"
    and bytes_roundtrip: "good d \<Longrightarrow> md_of_bytes md (md_bytes md d) = d"
    and validate_good: "md_validate md b = Ok d \<Longrightarrow> good d"
    and validate_prepared: "good d \<Longrightarrow>
      md_validate md (md_bytes md (md_prepare_for_sync md d) @ rest) = Ok (md_prepare_for_sync md d)"
begin

text \<open>The cache agrees with the partition when it is clean.\<close>

definition coherent :: "'d slot_block \<times> byte list \<Rightarrow> bool" where
  "coherent s \<longleftrightarrow> good (sb_data (fst s)) \<and> n \<le> length (snd s)
     \<and> (cache_status (fst s) = Clean \<longrightarrow> md_validate md (snd s) = Ok (sb_data (fst s)))"

lemma change_coherent:
  "coherent s \<Longrightarrow> good d \<Longrightarrow> coherent (get_mut_data (\<lambda>_. d) (fst s), snd s)"
  "coherent s \<Longrightarrow> coherent ((fst s)\<lparr> boot_token := t \<rparr>, snd s)"
  by (auto simp: coherent_def get_mut_data_def)

lemma deserialize_coherent: "n \<le> length disk \<Longrightarrow> coherent (block_deserialize md disk, disk)"
  using validate_good [of disk] default_good
  by (cases "md_validate md disk") (auto simp: coherent_def block_deserialize_def)

lemma deserialize_token: "boot_token (block_deserialize md disk) = Some ()"
  by (cases "md_validate md disk") (simp_all add: block_deserialize_def)

lemma sync_coherent:
  assumes "coherent s" "sync_to_disk md store_bytes s = (r, s')"
  shows "r = Ok () \<and> coherent s' \<and> cache_status (fst s') = Clean \<and> boot_token (fst s') = boot_token (fst s)
    \<and> (sb_data (fst s') = sb_data (fst s) \<or> sb_data (fst s') = md_prepare_for_sync md (sb_data (fst s)))"
proof (cases "cache_status (fst s)")
  case Clean
  then show ?thesis using assms by (cases s) (auto simp: sync_to_disk_def)
next
  case Dirty
  let ?d = "md_prepare_for_sync md (sb_data (fst s))"
  have g: "good (sb_data (fst s))" "good ?d" "n \<le> length (snd s)"
    using assms(1) prepare_good by (auto simp: coherent_def)
  have "md_validate md (overwrite 0 (md_bytes md ?d) (snd s)) = Ok ?d"
    using validate_prepared [OF g(1), of "drop n (snd s)"] by (simp add: overwrite_def bytes_length [OF g(2)])
  then show ?thesis
    using assms(2) Dirty g bytes_roundtrip [OF g(2)] bytes_length [OF g(2)]
    by (cases s) (auto simp: sync_to_disk_def store_bytes_def get_mut_data_def coherent_def Let_def)
qed

lemma power_cycle_coherent:
  assumes "coherent s"
  shows "coherent (power_cycle md s) \<and> boot_token (fst (power_cycle md s)) = Some ()
    \<and> (sb_data (fst (power_cycle md s)) = sb_data (fst s)
       \<or> sb_data (fst (power_cycle md s)) = md_prepare_for_sync md (sb_data (fst s)))"
proof -
  obtain r s' where s: "sync_to_disk md store_bytes s = (r, s')" by (meson surj_pair)
  note c = sync_coherent [OF assms s]
  have "n \<le> length (snd s')" "md_validate md (snd s') = Ok (sb_data (fst s'))" using c by (simp_all add: coherent_def)
  then show ?thesis
    using deserialize_coherent [of "snd s'"] deserialize_token [of "snd s'"] c s
    by (cases s') (simp add: power_cycle_def block_deserialize_def)
qed

end

end
