(* ===== verification/Slots_Fuchsia.thy ===== *)
theory Slots_Fuchsia
  imports Slot_Manager
begin

text \<open>
  The slot manager over Fuchsia's A/B/R metadata (\<open>libgbl/src/slots/fuchsia.rs\<close>). The checksum of the
  third-party crate \<open>crc32fast\<close> is the parameter \<open>crc\<close>.
\<close>

section \<open>Metadata\<close>

definition DEFAULT_PRIORITY :: byte where "DEFAULT_PRIORITY = 15"
definition DEFAULT_RETRIES :: byte where "DEFAULT_RETRIES = 7"

record fx_slot_data =
  fx_priority :: byte
  fx_tries :: byte
  fx_successful :: byte
  fx_unbootable_reason :: byte

definition fx_slot_default :: fx_slot_data where
  "fx_slot_default = \<lparr> fx_priority = DEFAULT_PRIORITY, fx_tries = DEFAULT_RETRIES, fx_successful = 0,
     fx_unbootable_reason = 0 \<rparr>"

definition FLAGS_NONE :: byte where "FLAGS_NONE = 0"
definition FLAGS_RECOVERY :: byte where "FLAGS_RECOVERY = 1"
definition FLAGS_BOOTLOADER :: byte where "FLAGS_BOOTLOADER = 2"

definition flags_to_oneshot :: "byte \<Rightarrow> one_shot option" where
  "flags_to_oneshot flags =
     (if flags = FLAGS_RECOVERY then Some (Continue Dedicated)
      else if flags = FLAGS_BOOTLOADER then Some Bootloader else None)"

fun oneshot_to_flags :: "one_shot option \<Rightarrow> byte" where
  "oneshot_to_flags (Some Bootloader) = FLAGS_BOOTLOADER"
| "oneshot_to_flags (Some (Continue Dedicated)) = FLAGS_RECOVERY"
| "oneshot_to_flags _ = FLAGS_NONE"

definition FX_MAGIC :: "byte list" where "FX_MAGIC = [0, 65, 66, 48]"
definition FX_VERSION_MAJOR :: byte where "FX_VERSION_MAJOR = 2"
definition FX_VERSION_MINOR :: byte where "FX_VERSION_MINOR = 3"

record fx_abr_data =
  fx_magic :: "byte list"
  fx_version_major :: byte
  fx_version_minor :: byte
  fx_reserved :: "byte list"
  fx_slots :: "fx_slot_data list"
  fx_oneshot_flag :: byte
  fx_reserved2 :: "byte list"
  fx_crc32 :: "32 word"

text \<open>The packed layout of the structures.\<close>

definition fx_slot_bytes :: "fx_slot_data \<Rightarrow> byte list" where
  "fx_slot_bytes s = [fx_priority s, fx_tries s, fx_successful s, fx_unbootable_reason s]"

definition fx_slot_of_bytes :: "byte list \<Rightarrow> fx_slot_data" where
  "fx_slot_of_bytes bs = \<lparr> fx_priority = bs ! 0, fx_tries = bs ! 1, fx_successful = bs ! 2, fx_unbootable_reason = bs ! 3 \<rparr>"

definition fx_body :: "fx_abr_data \<Rightarrow> byte list" where
  "fx_body d = fx_magic d @ [fx_version_major d, fx_version_minor d] @ fx_reserved d
     @ concat (map fx_slot_bytes (fx_slots d)) @ [fx_oneshot_flag d] @ fx_reserved2 d"

definition fx_bytes :: "fx_abr_data \<Rightarrow> byte list" where
  "fx_bytes d = fx_body d @ u32_to_be_bytes (fx_crc32 d)"

definition fx_of_bytes :: "byte list \<Rightarrow> fx_abr_data" where
  "fx_of_bytes bs = \<lparr> fx_magic = take 4 bs, fx_version_major = bs ! 4, fx_version_minor = bs ! 5,
     fx_reserved = take 2 (drop 6 bs), fx_slots = map fx_slot_of_bytes (chunks 4 2 (drop 8 bs)),
     fx_oneshot_flag = bs ! 16, fx_reserved2 = take 11 (drop 17 bs), fx_crc32 = u32_from_be_bytes (take 4 (drop 28 bs)) \<rparr>"

definition fx_calculate_crc32 :: "(byte list \<Rightarrow> 32 word) \<Rightarrow> fx_abr_data \<Rightarrow> 32 word" where
  "fx_calculate_crc32 crc self = crc (take (32 - 4) (fx_bytes self))"

definition fx_validate :: "(byte list \<Rightarrow> 32 word) \<Rightarrow> byte list \<Rightarrow> fx_abr_data res" where
  "fx_validate crc buffer =
     (if length buffer < 32 then Err (BufferTooSmall (Some 32))
      else
        let abr_data = fx_of_bytes (take 32 buffer) in
        if fx_magic abr_data \<noteq> FX_MAGIC then Err BadMagic
        else if FX_VERSION_MAJOR < fx_version_major abr_data then Err UnsupportedVersion
        else if fx_crc32 abr_data \<noteq> fx_calculate_crc32 crc abr_data then Err BadChecksum
        else Ok abr_data)"

definition fx_prepare_for_sync :: "(byte list \<Rightarrow> 32 word) \<Rightarrow> fx_abr_data \<Rightarrow> fx_abr_data" where
  "fx_prepare_for_sync crc self =
     (let d = self\<lparr> fx_version_minor := FX_VERSION_MINOR \<rparr> in d\<lparr> fx_crc32 := fx_calculate_crc32 crc d \<rparr>)"

definition fx_default :: "(byte list \<Rightarrow> 32 word) \<Rightarrow> fx_abr_data" where
  "fx_default crc =
     (let d = \<lparr> fx_magic = FX_MAGIC, fx_version_major = FX_VERSION_MAJOR, fx_version_minor = FX_VERSION_MINOR,
            fx_reserved = replicate 2 0, fx_slots = replicate 2 fx_slot_default, fx_oneshot_flag = FLAGS_NONE,
            fx_reserved2 = replicate 11 0, fx_crc32 = 0 \<rparr>
      in d\<lparr> fx_crc32 := fx_calculate_crc32 crc d \<rparr>)"

definition fx_metadata :: "(byte list \<Rightarrow> 32 word) \<Rightarrow> fx_abr_data metadata_bytes" where
  "fx_metadata crc = \<lparr> md_validate = fx_validate crc, md_prepare_for_sync = fx_prepare_for_sync crc,
     md_default = fx_default crc, md_bytes = fx_bytes, md_of_bytes = fx_of_bytes \<rparr>"

section \<open>Manager\<close>

type_synonym fx_block = "fx_abr_data slot_block"

definition fx_bootability :: "fx_slot_data \<Rightarrow> bootability" where
  "fx_bootability s =
     (if fx_successful s \<noteq> 0 then Successful
      else if 0 < fx_tries s then Retriable (unat (fx_tries s))
      else Unbootable (reason_from_u8 (fx_unbootable_reason s)))"

definition fx_get_slot_by_number :: "fx_block \<Rightarrow> nat \<Rightarrow> slot res" where
  "fx_get_slot_by_number self number =
     (let pairs = zip lower_ascii_suffixes (fx_slots (sb_data self)) in
      if number < length pairs
      then case pairs ! number of (sfx, abr_slot) \<Rightarrow>
             Ok \<lparr> sl_suffix = sfx, sl_priority = unat (fx_priority abr_slot), sl_bootability = fx_bootability abr_slot \<rparr>
      else Err (BadIndex number))"

definition fx_slots_iter :: "fx_block \<Rightarrow> slot list" where
  "fx_slots_iter self = slots_iter (fx_get_slot_by_number self)"

definition fx_get_boot_target :: "fx_block \<Rightarrow> boot_target res" where
  "fx_get_boot_target self =
     Ok (case max_by_key slot_key (filter is_bootable (fx_slots_iter self)) of
           None \<Rightarrow> Recovery Dedicated | Some s \<Rightarrow> NormalBoot s)"

definition fx_get_index_and_slot_with_suffix :: "fx_block \<Rightarrow> suffix \<Rightarrow> (nat \<times> slot) res" where
  "fx_get_index_and_slot_with_suffix self slot_suffix =
     ok_or (find_suffix slot_suffix 0 (fx_slots_iter self)) InvalidInput"

text \<open>A change of the entry \<open>idx\<close>; the index is checked.\<close>

definition fx_change_slot :: "nat \<Rightarrow> (fx_slot_data \<Rightarrow> fx_slot_data) \<Rightarrow> (fx_block, unit) io" where
  "fx_change_slot idx f self =
     (let self' = get_mut_data (\<lambda>d. d\<lparr> fx_slots := (fx_slots d)[idx := f (fx_slots d ! idx)] \<rparr>) self in
      if idx < length (fx_slots (sb_data self)) then (Ok (), self') else (Panic, get_mut_data id self))"

definition fx_set_slot_unbootable :: "suffix \<Rightarrow> unbootable_reason \<Rightarrow> (fx_block, unit) io" where
  "fx_set_slot_unbootable slot_suffix reason =
     st_then (\<lambda>self. (fx_get_index_and_slot_with_suffix self slot_suffix, self)) (\<lambda>(idx, s).
       if sl_bootability s = Unbootable reason then st_lift (Ok ())
       else fx_change_slot idx (\<lambda>d. d\<lparr> fx_unbootable_reason := reason_to_u8 reason, fx_tries := 0, fx_successful := 0 \<rparr>))"

definition fx_get_oneshot_status :: "fx_block \<Rightarrow> one_shot option" where
  "fx_get_oneshot_status self = flags_to_oneshot (fx_oneshot_flag (sb_data self))"

text \<open>\<open>tries -= 1\<close>, with the reason when no attempt is left; only used on a slot with attempts.\<close>

definition fx_use_attempt :: "fx_slot_data \<Rightarrow> fx_slot_data" where
  "fx_use_attempt d =
     (let d' = d\<lparr> fx_tries := fx_tries d - 1 \<rparr> in
      if fx_tries d' = 0 then d'\<lparr> fx_unbootable_reason := reason_to_u8 NoMoreTries \<rparr> else d')"

definition fx_mark_boot_attempt :: "(fx_block, unit) io" where
  "fx_mark_boot_attempt =
     st_then (\<lambda>self. (case fx_get_oneshot_status self of
         Some (Continue r) \<Rightarrow> Ok (Recovery r) | _ \<Rightarrow> fx_get_boot_target self, self)) (\<lambda>target.
     case target of
       Recovery (Slotted _) \<Rightarrow> st_lift (Err OperationProhibited)
     | Recovery Dedicated \<Rightarrow> token_or_prohibited
     | NormalBoot target_slot \<Rightarrow>
         st_then (\<lambda>self. (fx_get_index_and_slot_with_suffix self (sl_suffix target_slot), self)) (\<lambda>(idx, s).
         case sl_bootability s of
           Unbootable _ \<Rightarrow> st_lift (Err OperationProhibited)
         | Retriable _ \<Rightarrow> st_then (fx_change_slot idx fx_use_attempt) (\<lambda>_. token_or_prohibited)
         | Successful \<Rightarrow> token_or_prohibited))"

definition fx_set_active_slot :: "suffix \<Rightarrow> (fx_block, unit) io" where
  "fx_set_active_slot slot_suffix =
     st_then (\<lambda>self. (fx_get_index_and_slot_with_suffix self slot_suffix, self)) (\<lambda>(idx, _) self.
       (Ok (), get_mut_data (\<lambda>d. d\<lparr> fx_slots :=
          map (\<lambda>i. if i = idx then fx_slot_default else (fx_slots d ! i)\<lparr> fx_priority := DEFAULT_PRIORITY - 1 \<rparr>)
            [0..<length (fx_slots d)] \<rparr>) self))"

definition fx_set_oneshot_status :: "one_shot \<Rightarrow> (fx_block, unit) io" where
  "fx_set_oneshot_status oneshot self =
     (if Some oneshot = fx_get_oneshot_status self then (Ok (), self)
      else
        let oneshot_flag = oneshot_to_flags (Some oneshot) in
        if oneshot_flag = FLAGS_NONE then (Err OperationProhibited, self)
        else (Ok (), get_mut_data (\<lambda>d. d\<lparr> fx_oneshot_flag := oneshot_flag \<rparr>) self))"

definition fx_clear_oneshot_status :: "fx_block \<Rightarrow> fx_block" where
  "fx_clear_oneshot_status self =
     (if fx_get_oneshot_status self \<noteq> None then get_mut_data (\<lambda>d. d\<lparr> fx_oneshot_flag := FLAGS_NONE \<rparr>) self else self)"

definition fx_write_back :: "(byte list \<Rightarrow> 32 word) \<Rightarrow> 'w persist \<Rightarrow> (fx_block \<times> 'w, unit) io" where
  "fx_write_back crc persist = sync_to_disk (fx_metadata crc) persist"

definition fx_manager :: "(byte list \<Rightarrow> 32 word) \<Rightarrow> (fx_block, 'w) manager" where
  "fx_manager crc = \<lparr> m_get_slot_by_number = fx_get_slot_by_number, m_get_boot_target = fx_get_boot_target,
     m_mark_boot_attempt = fx_mark_boot_attempt, m_set_active_slot = fx_set_active_slot,
     m_set_slot_unbootable = fx_set_slot_unbootable, m_get_oneshot_status = fx_get_oneshot_status,
     m_set_oneshot_status = fx_set_oneshot_status, m_clear_oneshot_status = fx_clear_oneshot_status,
     m_write_back = fx_write_back crc \<rparr>"

section \<open>Lemmas\<close>

text \<open>The slots of the two entries.\<close>

definition fx_slot :: "suffix \<Rightarrow> fx_slot_data \<Rightarrow> slot" where
  "fx_slot sfx d = \<lparr> sl_suffix = sfx, sl_priority = unat (fx_priority d), sl_bootability = fx_bootability d \<rparr>"

definition fx_good :: "fx_abr_data \<Rightarrow> bool" where
  "fx_good d \<longleftrightarrow> fx_magic d = FX_MAGIC \<and> fx_version_major d \<le> FX_VERSION_MAJOR \<and> length (fx_reserved d) = 2
     \<and> length (fx_slots d) = 2 \<and> length (fx_reserved2 d) = 11"

lemma fx_good_slots:
  assumes "fx_good d"
  obtains a b where "fx_slots d = [a, b]"
  using assms by (auto simp: fx_good_def length_Suc_conv numeral_2_eq_2)

lemma suffixes_split: "lower_ascii_suffixes = 97 # 98 # [99..<123]"
  by (simp add: lower_ascii_suffixes_def upt_conv_Cons)

lemma fx_slots_iter_eq:
  assumes "fx_slots (sb_data self) = [a, b]"
  shows "fx_slots_iter self = [fx_slot 97 a, fx_slot 98 b]"
proof -
  have "fx_get_slot_by_number self n = (if n = 0 then Ok (fx_slot 97 a) else if n = 1 then Ok (fx_slot 98 b) else Err (BadIndex n))" for n
    using assms by (auto simp: fx_get_slot_by_number_def suffixes_split Let_def fx_slot_def nth_Cons split: nat.splits)
  then show ?thesis
    by (simp add: fx_slots_iter_def slots_iter_def slot_iter_new_def eval_nat_numeral slot_iter_next_def)
qed

lemma fx_layout:
  assumes "length (fx_magic d) = 4" "length (fx_reserved d) = 2" "fx_slots d = [a, b]" "length (fx_reserved2 d) = 11"
  shows "length (fx_body d) = 28" "fx_of_bytes (fx_bytes d) = d"
proof -
  show "length (fx_body d) = 28" using assms by (simp add: fx_body_def fx_slot_bytes_def)
  have "chunks 4 2 (fx_slot_bytes a @ fx_slot_bytes b @ rest) = [fx_slot_bytes a, fx_slot_bytes b]" for rest
    using chunks_concat [of "[fx_slot_bytes a, fx_slot_bytes b]" 4 rest] by (simp add: fx_slot_bytes_def numeral_2_eq_2)
  moreover have "fx_slot_of_bytes (fx_slot_bytes s) = s" for s by (simp add: fx_slot_of_bytes_def fx_slot_bytes_def)
  ultimately show "fx_of_bytes (fx_bytes d) = d"
    using assms by (simp add: fx_of_bytes_def fx_bytes_def fx_body_def nth_append fx_slot_bytes_def) 
qed

lemma fx_good_layout:
  assumes "fx_good d"
  shows "length (fx_bytes d) = 32" "fx_of_bytes (fx_bytes d) = d" "fx_calculate_crc32 crc d = crc (fx_body d)"
proof -
  have "length (fx_magic d) = 4" "length (fx_reserved d) = 2" "length (fx_reserved2 d) = 11"
    using assms by (simp_all add: fx_good_def FX_MAGIC_def)
  with fx_good_slots [OF assms] fx_layout [of d]
  have l: "length (fx_body d) = 28" "fx_of_bytes (fx_bytes d) = d" by metis+
  then show "length (fx_bytes d) = 32" "fx_of_bytes (fx_bytes d) = d" "fx_calculate_crc32 crc d = crc (fx_body d)"
    by (simp_all add: fx_bytes_def fx_calculate_crc32_def)
qed

interpretation fx_md: metadata "fx_metadata crc" fx_good 32 for crc :: "byte list \<Rightarrow> 32 word"
proof unfold_locales
  show "fx_good (md_default (fx_metadata crc))"
    by (simp add: fx_metadata_def fx_default_def fx_good_def Let_def)
next
  fix d assume g: "fx_good d"
  then show "length (md_bytes (fx_metadata crc) d) = 32" "md_of_bytes (fx_metadata crc) (md_bytes (fx_metadata crc) d) = d"
    by (simp_all add: fx_metadata_def fx_good_layout)
  let ?p = "fx_prepare_for_sync crc d"
  have p: "fx_good ?p" using g by (simp add: fx_prepare_for_sync_def fx_good_def Let_def)
  then show "fx_good (md_prepare_for_sync (fx_metadata crc) d)" by (simp add: fx_metadata_def)
  have "fx_calculate_crc32 crc ?p = fx_crc32 ?p"
    using fx_good_layout(3) [OF p] fx_good_layout(3) [of "d\<lparr> fx_version_minor := FX_VERSION_MINOR \<rparr>"] g
    by (simp add: fx_prepare_for_sync_def Let_def fx_good_def fx_body_def)
  then show "md_validate (fx_metadata crc) (md_bytes (fx_metadata crc) (md_prepare_for_sync (fx_metadata crc) d) @ rest)
      = Ok (md_prepare_for_sync (fx_metadata crc) d)" for rest
    using fx_good_layout(1,2) [OF p] p by (simp add: fx_metadata_def fx_validate_def Let_def fx_good_def not_less)
next
  fix b d assume "md_validate (fx_metadata crc) b = Ok d"
  then have "d = fx_of_bytes (take 32 b)" "fx_magic d = FX_MAGIC" "fx_version_major d \<le> FX_VERSION_MAJOR" "32 \<le> length b"
    by (auto simp: fx_metadata_def fx_validate_def Let_def not_less split: if_splits)
  then show "fx_good d" unfolding fx_good_def by (simp add: fx_of_bytes_def)
qed

text \<open>The operations on a block with the entries \<open>a\<close> and \<open>b\<close>.\<close>

lemma fx_slot_simps [simp]:
  "sl_suffix (fx_slot sfx d) = sfx" "sl_bootability (fx_slot sfx d) = fx_bootability d"
  by (simp_all add: fx_slot_def)

lemma fx_bootable_fields:
  "fx_bootability fx_slot_default = Retriable 7" "unat (fx_priority fx_slot_default) = 15"
  "fx_bootability (d\<lparr> fx_unbootable_reason := reason_to_u8 r, fx_tries := 0, fx_successful := 0 \<rparr>) = Unbootable r"
  "fx_bootability (d\<lparr> fx_priority := p \<rparr>) = fx_bootability d"
  by (simp_all add: fx_slot_default_def fx_bootability_def DEFAULT_RETRIES_def DEFAULT_PRIORITY_def)
     (cases r; simp add: reason_from_u8_def)

lemma fx_use_attempt_slot:
  assumes "fx_bootability d = Retriable t"
  shows "fx_slot sfx (fx_use_attempt d) = attempt NoMoreTries sfx (fx_slot sfx d)"
proof -
  have s: "fx_successful d = 0" "0 < fx_tries d" "t = unat (fx_tries d)"
    using assms by (auto simp: fx_bootability_def split: if_splits)
  then have "unat (fx_tries d - 1) = t - 1" "fx_tries d - 1 = 0 \<longleftrightarrow> t = 1"
    by (auto simp: unat_sub_if' word_gt_0 word_unat_eq_iff)
  then show ?thesis
    using s by (auto simp: fx_use_attempt_def fx_slot_def attempt_def fx_bootability_def Let_def reason_from_u8_def word_gt_0)
qed

lemma fx_find:
  assumes "fx_slots (sb_data self) = [a, b]"
  shows "fx_get_index_and_slot_with_suffix self sfx =
    (if sfx = 97 then Ok (0, fx_slot 97 a) else if sfx = 98 then Ok (1, fx_slot 98 b) else Err InvalidInput)"
  using assms by (simp add: fx_get_index_and_slot_with_suffix_def fx_slots_iter_eq)

lemma fx_set_active_eq:
  assumes "fx_slots (sb_data self) = [a, b]" "sfx \<in> {97, 98}"
  obtains d where "fx_set_active_slot sfx self = (Ok (), get_mut_data (\<lambda>_. d) self)" "fx_good (sb_data self) \<Longrightarrow> fx_good d"
    "fx_oneshot_flag d = fx_oneshot_flag (sb_data self)"
    "fx_slots_iter (get_mut_data (\<lambda>_. d) self) = map (activate 15 sfx) [fx_slot 97 a, fx_slot 98 b]"
proof -
  define d where "d = (sb_data self)\<lparr> fx_slots := if sfx = 97 then [fx_slot_default, b\<lparr> fx_priority := 14 \<rparr>]
    else [a\<lparr> fx_priority := 14 \<rparr>, fx_slot_default] \<rparr>"
  have "fx_set_active_slot sfx self = (Ok (), get_mut_data (\<lambda>_. d) self)"
    using assms by (auto simp: fx_set_active_slot_def st_then_def fx_find d_def get_mut_data_def DEFAULT_PRIORITY_def)
  moreover have "fx_slots_iter (get_mut_data (\<lambda>_. d) self) = map (activate 15 sfx) [fx_slot 97 a, fx_slot 98 b]"
    using assms(2) by (auto simp: fx_slots_iter_eq get_mut_data_def d_def activate_def fx_bootable_fields)
       (simp_all add: fx_slot_def fx_bootable_fields)
  ultimately show thesis using that by (simp add: d_def fx_good_def)
qed

lemma fx_change_eq:
  assumes "fx_slots (sb_data self) = [a, b]" "sfx = 97 \<and> i = 0 \<or> sfx = 98 \<and> i = 1"
  obtains d where "fx_change_slot i f self = (Ok (), get_mut_data (\<lambda>_. d) self)" "fx_good (sb_data self) \<Longrightarrow> fx_good d"
    "fx_oneshot_flag d = fx_oneshot_flag (sb_data self)"
    "fx_slots_iter (get_mut_data (\<lambda>_. d) self) =
      map (\<lambda>s. if sl_suffix s = sfx then fx_slot sfx (f (if sfx = 97 then a else b)) else s) [fx_slot 97 a, fx_slot 98 b]"
proof -
  define d where "d = (sb_data self)\<lparr> fx_slots := [a, b][i := f ([a, b] ! i)] \<rparr>"
  have "fx_change_slot i f self = (Ok (), get_mut_data (\<lambda>_. d) self)"
    using assms by (auto simp: fx_change_slot_def d_def get_mut_data_def Let_def)
  moreover have "fx_slots_iter (get_mut_data (\<lambda>_. d) self) =
      map (\<lambda>s. if sl_suffix s = sfx then fx_slot sfx (f (if sfx = 97 then a else b)) else s) [fx_slot 97 a, fx_slot 98 b]"
    using assms(2) by (auto simp: fx_slots_iter_eq get_mut_data_def d_def)
  ultimately show thesis using that assms by (auto simp: d_def fx_good_def)
qed

lemma fx_best_in:
  assumes "best [fx_slot 97 a, fx_slot 98 b] = Some x"
  shows "x = fx_slot 97 a \<or> x = fx_slot 98 b"
  using best_Some [OF assms] by auto

section \<open>The contract\<close>

text \<open>The metadata in memory agrees with the partition, and no recovery boot is requested.\<close>

definition fx_wf :: "(byte list \<Rightarrow> 32 word) \<Rightarrow> fx_block \<times> byte list \<Rightarrow> bool" where
  "fx_wf crc s \<longleftrightarrow> fx_md.coherent crc s \<and> fx_oneshot_flag (sb_data (fst s)) \<noteq> FLAGS_RECOVERY"

lemma fx_wf_slots:
  assumes "fx_wf crc s"
  obtains a b where "fx_slots (sb_data (fst s)) = [a, b]" "fx_slots_iter (fst s) = [fx_slot 97 a, fx_slot 98 b]"
  using assms fx_good_slots fx_slots_iter_eq by (metis fx_md.coherent_def fx_wf_def)

lemma fx_wf_change:
  assumes "fx_wf crc s" "fx_good (sb_data (fst s)) \<Longrightarrow> fx_good d" "fx_oneshot_flag d = fx_oneshot_flag (sb_data (fst s))"
  shows "fx_wf crc (get_mut_data (\<lambda>_. d) (fst s), snd s)" "fx_wf crc ((fst s)\<lparr> boot_token := t \<rparr>, snd s)"
    "fx_wf crc ((get_mut_data (\<lambda>_. d) (fst s))\<lparr> boot_token := t \<rparr>, snd s)"
proof -
  have c: "fx_md.coherent crc s" "fx_good (sb_data (fst s))" using assms(1) by (simp_all add: fx_wf_def fx_md.coherent_def)
  show 1: "fx_wf crc (get_mut_data (\<lambda>_. d) (fst s), snd s)"
    using fx_md.change_coherent(1) [OF c(1) assms(2) [OF c(2)]] assms(1,3) by (simp add: fx_wf_def get_mut_data_def)
  show "fx_wf crc ((fst s)\<lparr> boot_token := t \<rparr>, snd s)"
    using fx_md.change_coherent(2) [OF c(1)] assms(1) by (simp add: fx_wf_def)
  show "fx_wf crc ((get_mut_data (\<lambda>_. d) (fst s))\<lparr> boot_token := t \<rparr>, snd s)"
    using fx_md.change_coherent(2) [of crc "(get_mut_data (\<lambda>_. d) (fst s), snd s)"] 1 by (simp add: fx_wf_def)
qed

lemma fx_slots_iter_token [simp]: "fx_slots_iter (sb\<lparr> boot_token := t \<rparr>) = fx_slots_iter sb"
proof -
  have "fx_get_slot_by_number (sb\<lparr> boot_token := t \<rparr>) = fx_get_slot_by_number sb"
    by (rule ext) (simp add: fx_get_slot_by_number_def)
  then show ?thesis by (simp add: fx_slots_iter_def)
qed

lemma fx_mark_eq:
  assumes w: "fx_wf crc s"
  shows "\<exists>sb. fx_wf crc (sb, snd s) \<and> boot_token sb = None
    \<and> fx_slots_iter sb = (case best (fx_slots_iter (fst s)) of
        Some x \<Rightarrow> map (attempt NoMoreTries (sl_suffix x)) (fx_slots_iter (fst s)) | None \<Rightarrow> fx_slots_iter (fst s))
    \<and> fx_mark_boot_attempt (fst s) = (if boot_token (fst s) = Some () then Ok () else Err OperationProhibited, sb)"
proof (rule fx_wf_slots [OF w])
  fix a b
  assume ab: "fx_slots (sb_data (fst s)) = [a, b]" and it: "fx_slots_iter (fst s) = [fx_slot 97 a, fx_slot 98 b]"
  have os: "fx_get_oneshot_status (fst s) \<noteq> Some (Continue r)" for r
    using w by (auto simp: fx_wf_def fx_get_oneshot_status_def flags_to_oneshot_def)
  then have tgt: "(case fx_get_oneshot_status (fst s) of Some (Continue r) \<Rightarrow> Ok (Recovery r) | _ \<Rightarrow> fx_get_boot_target (fst s))
      = Ok (case best (fx_slots_iter (fst s)) of None \<Rightarrow> Recovery Dedicated | Some x \<Rightarrow> NormalBoot x)"
    by (auto simp: fx_get_boot_target_def best_def split: option.split one_shot.split)
  have tk: "fx_wf crc ((fst s)\<lparr> boot_token := None \<rparr>, snd s)" using fx_wf_change(2) [OF w] by blast
  show ?thesis
  proof (cases "best (fx_slots_iter (fst s))")
    case None
    then show ?thesis
      using tk by (auto simp: fx_mark_boot_attempt_def st_then_def tgt token_or_prohibited_eq intro!: exI [of _ "(fst s)\<lparr> boot_token := None \<rparr>"])
  next
    case (Some x)
    then have x: "best [fx_slot 97 a, fx_slot 98 b] = Some x" by (simp add: it)
    obtain sfx i where i: "sfx = 97 \<and> i = 0 \<or> sfx = 98 \<and> i = (1 :: nat)" "x = fx_slot sfx (if sfx = 97 then a else b)"
      using fx_best_in [OF x] by fastforce
    let ?d = "if sfx = 97 then a else b"
    have find: "fx_get_index_and_slot_with_suffix (fst s) (sl_suffix x) = Ok (i, x)" using i fx_find [OF ab] by auto
    have boot: "is_bootable x" using best_Some [OF x] by simp
    show ?thesis
    proof (cases "sl_bootability x")
      case Successful
      then have "map (attempt NoMoreTries (sl_suffix x)) (fx_slots_iter (fst s)) = fx_slots_iter (fst s)"
        using i unfolding it by (auto simp: attempt_def fx_slot_def)
      then show ?thesis
        using tk Some Successful find
        by (auto simp: fx_mark_boot_attempt_def st_then_def tgt token_or_prohibited_eq intro!: exI [of _ "(fst s)\<lparr> boot_token := None \<rparr>"])
    next
      case (Unbootable r)
      then show ?thesis using boot by (simp add: is_bootable_def)
    next
      case (Retriable t)
      then have t: "fx_bootability ?d = Retriable t" using i(2) by simp
      obtain d where d: "fx_change_slot i fx_use_attempt (fst s) = (Ok (), get_mut_data (\<lambda>_. d) (fst s))"
        "fx_good (sb_data (fst s)) \<Longrightarrow> fx_good d" "fx_oneshot_flag d = fx_oneshot_flag (sb_data (fst s))"
        "fx_slots_iter (get_mut_data (\<lambda>_. d) (fst s)) =
          map (\<lambda>s. if sl_suffix s = sfx then fx_slot sfx (fx_use_attempt ?d) else s) [fx_slot 97 a, fx_slot 98 b]"
        by (rule fx_change_eq [OF ab i(1), of fx_use_attempt]) blast
      let ?sb = "(get_mut_data (\<lambda>_. d) (fst s))\<lparr> boot_token := None \<rparr>"
      have "fx_slots_iter ?sb = map (attempt NoMoreTries (sl_suffix x)) (fx_slots_iter (fst s))"
        using i unfolding it fx_slots_iter_token d(4) fx_use_attempt_slot [OF t] by (auto simp: attempt_def)
      moreover have "boot_token (get_mut_data (\<lambda>_. d) (fst s)) = boot_token (fst s)" by (simp add: get_mut_data_def)
      ultimately show ?thesis
        using fx_wf_change(3) [OF w d(2,3), of None] Some Retriable find d(1)
        by (auto simp: fx_mark_boot_attempt_def st_then_def tgt token_or_prohibited_eq intro!: exI [of _ ?sb])
    qed
  qed
qed

lemma fx_active_law:
  assumes w: "fx_wf crc s" and ab: "fx_slots (sb_data (fst s)) = [a, b]" and sfx: "sfx \<in> {97, 98}"
  shows "\<exists>s'. on_block (fx_set_active_slot sfx) s = (Ok (), s') \<and> fx_wf crc s'
    \<and> fx_slots_iter (fst s') = map (activate 15 sfx) [fx_slot 97 a, fx_slot 98 b] \<and> boot_token (fst s') = boot_token (fst s)"
proof (rule fx_set_active_eq [OF ab sfx])
  fix d
  assume d: "fx_set_active_slot sfx (fst s) = (Ok (), get_mut_data (\<lambda>_. d) (fst s))" "fx_good (sb_data (fst s)) \<Longrightarrow> fx_good d"
    "fx_oneshot_flag d = fx_oneshot_flag (sb_data (fst s))"
    "fx_slots_iter (get_mut_data (\<lambda>_. d) (fst s)) = map (activate 15 sfx) [fx_slot 97 a, fx_slot 98 b]"
  moreover have "boot_token (get_mut_data (\<lambda>_. d) (fst s)) = boot_token (fst s)" by (simp add: get_mut_data_def)
  ultimately show ?thesis using fx_wf_change(1) [OF w d(2,3)] by (simp add: on_block_def)
qed

lemma fx_unbootable_law:
  assumes w: "fx_wf crc s" and ab: "fx_slots (sb_data (fst s)) = [a, b]" and sfx: "sfx \<in> {97, 98}"
  shows "\<exists>s'. on_block (fx_set_slot_unbootable sfx r) s = (Ok (), s') \<and> fx_wf crc s'
    \<and> fx_slots_iter (fst s') = map (disable r sfx) [fx_slot 97 a, fx_slot 98 b] \<and> boot_token (fst s') = boot_token (fst s)"
proof -
  let ?d = "if sfx = 97 then a else b" and ?i = "if sfx = 97 then 0 else 1 :: nat"
  let ?f = "\<lambda>d. d\<lparr> fx_unbootable_reason := reason_to_u8 r, fx_tries := 0, fx_successful := 0 \<rparr>"
  have find: "fx_get_index_and_slot_with_suffix (fst s) sfx = Ok (?i, fx_slot sfx ?d)" using sfx fx_find [OF ab] by auto
  show ?thesis
  proof (cases "fx_bootability ?d = Unbootable r")
    case True
    have "fx_slots_iter (fst s) = map (disable r sfx) [fx_slot 97 a, fx_slot 98 b]"
      using True sfx by (auto simp: fx_slots_iter_eq [OF ab] disable_def fx_slot_def)
    then show ?thesis using True find w by (simp add: on_block_def fx_set_slot_unbootable_def st_then_def st_lift_def)
  next
    case False
    have i: "sfx = 97 \<and> ?i = 0 \<or> sfx = 98 \<and> ?i = 1" using sfx by auto
    obtain d where d: "fx_change_slot ?i ?f (fst s) = (Ok (), get_mut_data (\<lambda>_. d) (fst s))"
      "fx_good (sb_data (fst s)) \<Longrightarrow> fx_good d" "fx_oneshot_flag d = fx_oneshot_flag (sb_data (fst s))"
      "fx_slots_iter (get_mut_data (\<lambda>_. d) (fst s)) =
        map (\<lambda>s. if sl_suffix s = sfx then fx_slot sfx (?f ?d) else s) [fx_slot 97 a, fx_slot 98 b]"
      by (rule fx_change_eq [OF ab i, of ?f]) blast
    have "fx_slots_iter (get_mut_data (\<lambda>_. d) (fst s)) = map (disable r sfx) [fx_slot 97 a, fx_slot 98 b]"
      unfolding d(4) using sfx by (auto simp: disable_def fx_slot_def fx_bootable_fields)
    moreover have "boot_token (get_mut_data (\<lambda>_. d) (fst s)) = boot_token (fst s)" by (simp add: get_mut_data_def)
    ultimately show ?thesis
      using fx_wf_change(1) [OF w d(2,3)] False find d(1) by (simp add: on_block_def fx_set_slot_unbootable_def st_then_def)
  qed
qed

lemma fx_power_law:
  assumes "fx_wf crc s"
  defines "s' \<equiv> power_cycle (fx_metadata crc) s"
  shows "fx_wf crc s' \<and> fx_slots_iter (fst s') = fx_slots_iter (fst s) \<and> boot_token (fst s') = Some ()"
proof -
  have c: "fx_md.coherent crc s" using assms(1) by (simp add: fx_wf_def)
  note p = fx_md.power_cycle_coherent [OF c, folded s'_def]
  then have d: "fx_slots (sb_data (fst s')) = fx_slots (sb_data (fst s))" "fx_oneshot_flag (sb_data (fst s')) = fx_oneshot_flag (sb_data (fst s))"
    by (auto simp: fx_metadata_def fx_prepare_for_sync_def Let_def)
  have "fx_get_slot_by_number (fst s') = fx_get_slot_by_number (fst s)"
    by (rule ext) (simp add: fx_get_slot_by_number_def d)
  then show ?thesis using p d(2) assms(1) by (simp add: fx_wf_def fx_slots_iter_def)
qed

interpretation fx_mgr: slot_manager "fx_wf crc" "\<lambda>s. fx_slots_iter (fst s)" "\<lambda>s. boot_token (fst s) = Some ()"
    "\<lambda>s. fx_get_boot_target (fst s)" "on_block fx_mark_boot_attempt" "\<lambda>sfx. on_block (fx_set_active_slot sfx)"
    "\<lambda>sfx r. on_block (fx_set_slot_unbootable sfx r)" "power_cycle (fx_metadata crc)" 15 NoMoreTries id "\<lambda>_. Dedicated"
    for crc :: "byte list \<Rightarrow> 32 word"
proof unfold_locales
  fix s assume w: "fx_wf crc s"
  show "distinct (map sl_suffix (fx_slots_iter (fst s)))" by (rule fx_wf_slots [OF w]) simp
  show "fx_get_boot_target (fst s) = Ok (case best (fx_slots_iter (fst s)) of
      Some x \<Rightarrow> NormalBoot x | None \<Rightarrow> Recovery Dedicated)"
    by (auto simp: fx_get_boot_target_def best_def split: option.split)
  obtain a b where ab: "fx_slots (sb_data (fst s)) = [a, b]" "fx_slots_iter (fst s) = [fx_slot 97 a, fx_slot 98 b]"
    by (rule fx_wf_slots [OF w])
  fix sfx :: suffix
  show "on_block (fx_set_active_slot sfx) s = (Err InvalidInput, s)" if "sfx \<notin> sl_suffix ` set (fx_slots_iter (fst s))"
    using that ab by (simp add: on_block_def fx_set_active_slot_def st_then_def fx_find)
  show "on_block (fx_set_slot_unbootable sfx r) s = (Err InvalidInput, s)" if "sfx \<notin> sl_suffix ` set (fx_slots_iter (fst s))" for r
    using that ab by (simp add: on_block_def fx_set_slot_unbootable_def st_then_def fx_find)
  {
    assume "sfx \<in> sl_suffix ` set (fx_slots_iter (fst s))"
    then have sfx: "sfx \<in> {97, 98}" using ab by auto
    show "\<exists>s'. on_block (fx_set_active_slot sfx) s = (Ok (), s') \<and> fx_wf crc s'
      \<and> fx_slots_iter (fst s') = map (activate 15 sfx) (fx_slots_iter (fst s))
      \<and> (boot_token (fst s') = Some ()) = (boot_token (fst s) = Some ())"
      using fx_active_law [OF w ab(1) sfx] unfolding ab(2) by auto
    show "\<exists>s'. on_block (fx_set_slot_unbootable sfx r) s = (Ok (), s') \<and> fx_wf crc s'
      \<and> fx_slots_iter (fst s') = map (disable (id r) sfx) (fx_slots_iter (fst s))
      \<and> (boot_token (fst s') = Some ()) = (boot_token (fst s) = Some ())" for r
      using fx_unbootable_law [OF w ab(1) sfx, of r] unfolding ab(2) by auto
  }
  obtain sb where "fx_wf crc (sb, snd s)" "boot_token sb = None"
    "fx_slots_iter sb = (case best (fx_slots_iter (fst s)) of
        Some x \<Rightarrow> map (attempt NoMoreTries (sl_suffix x)) (fx_slots_iter (fst s)) | None \<Rightarrow> fx_slots_iter (fst s))"
    "fx_mark_boot_attempt (fst s) = (if boot_token (fst s) = Some () then Ok () else Err OperationProhibited, sb)"
    using fx_mark_eq [OF w] by blast
  then show "boot_token (fst s) = Some () \<Longrightarrow> \<exists>s'. on_block fx_mark_boot_attempt s = (Ok (), s') \<and> fx_wf crc s'
      \<and> boot_token (fst s') \<noteq> Some () \<and> fx_slots_iter (fst s') = (case best (fx_slots_iter (fst s)) of
        Some x \<Rightarrow> map (attempt NoMoreTries (sl_suffix x)) (fx_slots_iter (fst s)) | None \<Rightarrow> fx_slots_iter (fst s))"
    "boot_token (fst s) \<noteq> Some () \<Longrightarrow> \<exists>s'. on_block fx_mark_boot_attempt s = (Err OperationProhibited, s') \<and> fx_wf crc s'
      \<and> boot_token (fst s') \<noteq> Some ()"
    by (simp_all add: on_block_def)
  show "fx_wf crc (power_cycle (fx_metadata crc) s) \<and> fx_slots_iter (fst (power_cycle (fx_metadata crc) s)) = fx_slots_iter (fst s)
      \<and> boot_token (fst (power_cycle (fx_metadata crc) s)) = Some ()"
    by (rule fx_power_law [OF w])
qed simp

end
