(* ===== verification/Slots_Android.thy ===== *)
theory Slots_Android
  imports Slot_Manager
begin

unbundle bit_operations_syntax

text \<open>
  The slot manager over Android's bootloader control block (\<open>libgbl/src/slots/android.rs\<close>), with its bit
  fields. The checksum of the third-party crate \<open>crc32fast\<close> is the parameter \<open>crc\<close>; the target is little
  endian.
\<close>

section \<open>Bit fields\<close>

definition MAX_SLOTS :: byte where "MAX_SLOTS = 4"

definition get_field :: "16 word \<Rightarrow> nat \<Rightarrow> 16 word \<Rightarrow> byte" where
  "get_field base offset m =
     (let v = drop_bit offset base AND m in if v < 256 then ucast v else 0)"

definition set_field :: "16 word \<Rightarrow> 16 word \<Rightarrow> nat \<Rightarrow> 16 word \<Rightarrow> 16 word" where
  "set_field base val offset m = (base AND NOT (push_bit offset m)) OR push_bit offset (val AND m)"

definition ANDROID_DEFAULT_PRIORITY :: byte where "ANDROID_DEFAULT_PRIORITY = 7"
definition ANDROID_DEFAULT_RETRIES :: byte where "ANDROID_DEFAULT_RETRIES = 7"

definition PRIORITY_MASK :: "16 word" where "PRIORITY_MASK = 0b1111"
definition PRIORITY_OFFSET :: nat where "PRIORITY_OFFSET = 0"
definition TRIES_MASK :: "16 word" where "TRIES_MASK = 0b111"
definition TRIES_OFFSET :: nat where "TRIES_OFFSET = 4"
definition SUCCESSFUL_MASK :: "16 word" where "SUCCESSFUL_MASK = 0b1"
definition SUCCESSFUL_OFFSET :: nat where "SUCCESSFUL_OFFSET = 7"
definition VERITY_CORRUPTED_MASK :: "16 word" where "VERITY_CORRUPTED_MASK = 0b1"
definition VERITY_CORRUPTED_OFFSET :: nat where "VERITY_CORRUPTED_OFFSET = 8"

type_synonym slot_meta_data = "16 word"

definition sm_priority :: "slot_meta_data \<Rightarrow> byte" where
  "sm_priority self = get_field self PRIORITY_OFFSET PRIORITY_MASK"

definition sm_set_priority :: "byte \<Rightarrow> slot_meta_data \<Rightarrow> slot_meta_data" where
  "sm_set_priority p self = set_field self (ucast p) PRIORITY_OFFSET PRIORITY_MASK"

definition sm_tries :: "slot_meta_data \<Rightarrow> byte" where
  "sm_tries self = get_field self TRIES_OFFSET TRIES_MASK"

definition sm_set_tries :: "byte \<Rightarrow> slot_meta_data \<Rightarrow> slot_meta_data" where
  "sm_set_tries t self = set_field self (ucast t) TRIES_OFFSET TRIES_MASK"

definition sm_successful :: "slot_meta_data \<Rightarrow> bool" where
  "sm_successful self \<longleftrightarrow> get_field self SUCCESSFUL_OFFSET SUCCESSFUL_MASK \<noteq> 0"

definition sm_set_successful :: "bool \<Rightarrow> slot_meta_data \<Rightarrow> slot_meta_data" where
  "sm_set_successful b self = set_field self (of_bool b) SUCCESSFUL_OFFSET SUCCESSFUL_MASK"

definition sm_verity_corrupted :: "slot_meta_data \<Rightarrow> bool" where
  "sm_verity_corrupted self \<longleftrightarrow> get_field self VERITY_CORRUPTED_OFFSET VERITY_CORRUPTED_MASK \<noteq> 0"

definition sm_set_verity_corrupted :: "bool \<Rightarrow> slot_meta_data \<Rightarrow> slot_meta_data" where
  "sm_set_verity_corrupted b self = set_field self (of_bool b) VERITY_CORRUPTED_OFFSET VERITY_CORRUPTED_MASK"

definition sm_default :: slot_meta_data where
  "sm_default = sm_set_tries ANDROID_DEFAULT_RETRIES (sm_set_priority ANDROID_DEFAULT_PRIORITY 0)"

type_synonym control_bits = "16 word"

definition NB_SLOT_MASK :: "16 word" where "NB_SLOT_MASK = 0b111"
definition NB_SLOT_OFFSET :: nat where "NB_SLOT_OFFSET = 0"
definition RECOVERY_TRIES_MASK :: "16 word" where "RECOVERY_TRIES_MASK = 0b111"
definition RECOVERY_TRIES_OFFSET :: nat where "RECOVERY_TRIES_OFFSET = 3"
definition MERGE_STATUS_MASK :: "16 word" where "MERGE_STATUS_MASK = 0b111"
definition MERGE_STATUS_OFFSET :: nat where "MERGE_STATUS_OFFSET = 6"

definition nb_slots :: "control_bits \<Rightarrow> byte" where
  "nb_slots self = min (get_field self NB_SLOT_OFFSET NB_SLOT_MASK) MAX_SLOTS"

definition set_nb_slots :: "byte \<Rightarrow> control_bits \<Rightarrow> control_bits" where
  "set_nb_slots n self = set_field self (ucast (min n MAX_SLOTS)) NB_SLOT_OFFSET NB_SLOT_MASK"

definition recovery_tries :: "control_bits \<Rightarrow> byte" where
  "recovery_tries self = get_field self RECOVERY_TRIES_OFFSET RECOVERY_TRIES_MASK"

definition set_recovery_tries :: "byte \<Rightarrow> control_bits \<Rightarrow> control_bits" where
  "set_recovery_tries n self = set_field self (ucast n) RECOVERY_TRIES_OFFSET RECOVERY_TRIES_MASK"

definition merge_status :: "control_bits \<Rightarrow> byte" where
  "merge_status self = get_field self MERGE_STATUS_OFFSET MERGE_STATUS_MASK"

definition set_merge_status :: "byte \<Rightarrow> control_bits \<Rightarrow> control_bits" where
  "set_merge_status n self = set_field self (ucast n) MERGE_STATUS_OFFSET MERGE_STATUS_MASK"

section \<open>Metadata\<close>

definition BOOT_CTRL_MAGIC :: "32 word" where "BOOT_CTRL_MAGIC = 0x42414342"
definition BOOT_CTRL_VERSION :: byte where "BOOT_CTRL_VERSION = 1"

record bootloader_control =
  bc_slot_suffix :: "byte list"
  bc_magic :: "32 word"
  bc_version :: byte
  bc_control_bits :: control_bits
  bc_reserved0 :: "byte list"
  bc_slot_metadata :: "slot_meta_data list"
  bc_reserved1 :: "byte list"
  bc_crc32 :: "32 word"

definition u16_to_le_bytes :: "16 word \<Rightarrow> byte list" where
  "u16_to_le_bytes w = nat_to_le 2 (unat w)"

definition u16_from_le_bytes :: "byte list \<Rightarrow> 16 word" where
  "u16_from_le_bytes bs = of_nat (nat_from_le bs)"

definition bc_body :: "bootloader_control \<Rightarrow> byte list" where
  "bc_body d = bc_slot_suffix d @ u32_to_le_bytes (bc_magic d) @ [bc_version d] @ u16_to_le_bytes (bc_control_bits d)
     @ bc_reserved0 d @ concat (map u16_to_le_bytes (bc_slot_metadata d)) @ bc_reserved1 d"

definition bc_bytes :: "bootloader_control \<Rightarrow> byte list" where
  "bc_bytes d = bc_body d @ u32_to_le_bytes (bc_crc32 d)"

definition bc_of_bytes :: "byte list \<Rightarrow> bootloader_control" where
  "bc_of_bytes bs = \<lparr> bc_slot_suffix = take 4 bs, bc_magic = u32_from_le_bytes (take 4 (drop 4 bs)), bc_version = bs ! 8,
     bc_control_bits = u16_from_le_bytes (take 2 (drop 9 bs)), bc_reserved0 = take 1 (drop 11 bs),
     bc_slot_metadata = map u16_from_le_bytes (chunks 2 4 (drop 12 bs)), bc_reserved1 = take 8 (drop 20 bs),
     bc_crc32 = u32_from_le_bytes (take 4 (drop 28 bs)) \<rparr>"

definition bc_calculate_crc32 :: "(byte list \<Rightarrow> 32 word) \<Rightarrow> bootloader_control \<Rightarrow> 32 word" where
  "bc_calculate_crc32 crc self = crc (take (32 - 4) (bc_bytes self))"

definition bc_default :: "(byte list \<Rightarrow> 32 word) \<Rightarrow> bootloader_control" where
  "bc_default crc =
     (let d = \<lparr> bc_slot_suffix = overwrite 1 (encode_utf8 97) (overwrite 0 (encode_utf8 95) (replicate 4 0)),
            bc_magic = BOOT_CTRL_MAGIC, bc_version = BOOT_CTRL_VERSION, bc_control_bits = set_nb_slots 4 0,
            bc_reserved0 = replicate 1 0, bc_slot_metadata = replicate (unat MAX_SLOTS) sm_default,
            bc_reserved1 = replicate 8 0, bc_crc32 = 0 \<rparr>
      in d\<lparr> bc_crc32 := bc_calculate_crc32 crc d \<rparr>)"

definition bc_validate :: "(byte list \<Rightarrow> 32 word) \<Rightarrow> byte list \<Rightarrow> bootloader_control res" where
  "bc_validate crc buffer =
     (if length buffer < 32 then Err (BufferTooSmall (Some 32))
      else
        let d = bc_of_bytes (take 32 buffer) in
        if bc_magic d \<noteq> BOOT_CTRL_MAGIC then Err BadMagic
        else if BOOT_CTRL_VERSION < bc_version d then Err UnsupportedVersion
        else if bc_crc32 d \<noteq> bc_calculate_crc32 crc d then Err BadChecksum
        else Ok d)"

definition bc_prepare_for_sync :: "(byte list \<Rightarrow> 32 word) \<Rightarrow> bootloader_control \<Rightarrow> bootloader_control" where
  "bc_prepare_for_sync crc self = self\<lparr> bc_crc32 := bc_calculate_crc32 crc self \<rparr>"

definition bc_metadata :: "(byte list \<Rightarrow> 32 word) \<Rightarrow> bootloader_control metadata_bytes" where
  "bc_metadata crc = \<lparr> md_validate = bc_validate crc, md_prepare_for_sync = bc_prepare_for_sync crc,
     md_default = bc_default crc, md_bytes = bc_bytes, md_of_bytes = bc_of_bytes \<rparr>"

section \<open>Manager\<close>

type_synonym bc_block = "bootloader_control slot_block"

definition bc_bootability :: "slot_meta_data \<Rightarrow> bootability" where
  "bc_bootability w =
     (if sm_successful w then Successful
      else if 0 < sm_tries w then Retriable (unat (sm_tries w))
      else Unbootable Unknown)"

definition bc_get_slot_by_number :: "bc_block \<Rightarrow> nat \<Rightarrow> slot res" where
  "bc_get_slot_by_number self number =
     (let control = sb_data self;
          pairs = take (unat (nb_slots (bc_control_bits control))) (zip lower_ascii_suffixes (bc_slot_metadata control)) in
      if number < length pairs
      then case pairs ! number of (sfx, slot_data) \<Rightarrow>
             Ok \<lparr> sl_suffix = sfx, sl_priority = unat (sm_priority slot_data), sl_bootability = bc_bootability slot_data \<rparr>
      else Err (BadIndex number))"

definition bc_slots_iter :: "bc_block \<Rightarrow> slot list" where
  "bc_slots_iter self = slots_iter (bc_get_slot_by_number self)"

definition bc_get_boot_target :: "bc_block \<Rightarrow> boot_target res" where
  "bc_get_boot_target self =
     and_then (get_slot_last_set_active (bc_get_slot_by_number self)) (\<lambda>r.
       Ok (case max_by_key slot_key (filter is_bootable (bc_slots_iter self)) of
             None \<Rightarrow> Recovery (Slotted r) | Some s \<Rightarrow> NormalBoot s))"

definition bc_find :: "bc_block \<Rightarrow> suffix \<Rightarrow> (nat \<times> slot) res" where
  "bc_find self slot_suffix = ok_or (find_suffix slot_suffix 0 (bc_slots_iter self)) InvalidInput"

text \<open>A change of the entry \<open>idx\<close>; the index is checked.\<close>

definition bc_change_slot :: "nat \<Rightarrow> (slot_meta_data \<Rightarrow> slot_meta_data) \<Rightarrow> (bc_block, unit) io" where
  "bc_change_slot idx f self =
     (if idx < length (bc_slot_metadata (sb_data self))
      then (Ok (), get_mut_data (\<lambda>d. d\<lparr> bc_slot_metadata := (bc_slot_metadata d)[idx := f (bc_slot_metadata d ! idx)] \<rparr>) self)
      else (Panic, get_mut_data id self))"

definition bc_set_slot_unbootable :: "suffix \<Rightarrow> unbootable_reason \<Rightarrow> (bc_block, unit) io" where
  "bc_set_slot_unbootable slot_suffix reason =
     st_then (\<lambda>self. (bc_find self slot_suffix, self)) (\<lambda>(idx, s).
       if sl_bootability s = Unbootable reason then st_lift (Ok ())
       else bc_change_slot idx (\<lambda>w. sm_set_successful False (sm_set_tries 0 w)))"

definition bc_mark_boot_attempt :: "(bc_block, unit) io" where
  "bc_mark_boot_attempt =
     st_then (\<lambda>self. (bc_get_boot_target self, self)) (\<lambda>target.
     case target of
       Recovery Dedicated \<Rightarrow> st_lift (Err OperationProhibited)
     | Recovery (Slotted s) \<Rightarrow>
         st_then (\<lambda>self. (bc_find self (sl_suffix s), self)) (\<lambda>_. token_or_prohibited)
     | NormalBoot target_slot \<Rightarrow>
         st_then (\<lambda>self. (bc_find self (sl_suffix target_slot), self)) (\<lambda>(idx, s).
         case sl_bootability s of
           Unbootable _ \<Rightarrow> st_lift (Err OperationProhibited)
         | Retriable _ \<Rightarrow> st_then (bc_change_slot idx (\<lambda>w. sm_set_tries (sm_tries w - 1) w)) (\<lambda>_. token_or_prohibited)
         | Successful \<Rightarrow> token_or_prohibited))"

definition bc_set_active_slot :: "suffix \<Rightarrow> (bc_block, unit) io" where
  "bc_set_active_slot slot_suffix =
     st_then (\<lambda>self. (bc_find self slot_suffix, self)) (\<lambda>(idx, _).
     st_then (\<lambda>self. (Ok (), get_mut_data (\<lambda>d. d\<lparr> bc_slot_metadata :=
         map (\<lambda>i. if i = idx then sm_default else sm_set_priority (ANDROID_DEFAULT_PRIORITY - 1) (bc_slot_metadata d ! i))
           [0..<length (bc_slot_metadata d)] \<rparr>) self)) (\<lambda>_ self.
       if 1 + length (encode_utf8 slot_suffix) \<le> length (bc_slot_suffix (sb_data self))
       then (Ok (), get_mut_data (\<lambda>d. d\<lparr> bc_slot_suffix := overwrite 1 (encode_utf8 slot_suffix) (bc_slot_suffix d) \<rparr>) self)
       else (Panic, get_mut_data id self)))"

definition bc_set_oneshot_status :: "one_shot \<Rightarrow> (bc_block, unit) io" where
  "bc_set_oneshot_status oneshot self = (Err OperationProhibited, self)"

definition bc_clear_oneshot_status :: "bc_block \<Rightarrow> bc_block" where
  "bc_clear_oneshot_status self = self"

definition bc_write_back :: "(byte list \<Rightarrow> 32 word) \<Rightarrow> 'w persist \<Rightarrow> (bc_block \<times> 'w, unit) io" where
  "bc_write_back crc persist = sync_to_disk (bc_metadata crc) persist"

definition bc_manager :: "(byte list \<Rightarrow> 32 word) \<Rightarrow> (bc_block, 'w) manager" where
  "bc_manager crc = \<lparr> m_get_slot_by_number = bc_get_slot_by_number, m_get_boot_target = bc_get_boot_target,
     m_mark_boot_attempt = bc_mark_boot_attempt, m_set_active_slot = bc_set_active_slot,
     m_set_slot_unbootable = bc_set_slot_unbootable, m_get_oneshot_status = default_get_oneshot_status,
     m_set_oneshot_status = bc_set_oneshot_status, m_clear_oneshot_status = bc_clear_oneshot_status,
     m_write_back = bc_write_back crc \<rparr>"

section \<open>Lemmas on bit fields\<close>

lemmas sm_defs = PRIORITY_MASK_def PRIORITY_OFFSET_def TRIES_MASK_def TRIES_OFFSET_def SUCCESSFUL_MASK_def
  SUCCESSFUL_OFFSET_def NB_SLOT_MASK_def NB_SLOT_OFFSET_def

lemma field_masks: "(0b1111 :: 16 word) = mask 4" "(0b111 :: 16 word) = mask 3" "(0b1 :: 16 word) = mask 1"
  by (simp_all add: mask_eq_exp_minus_1)

lemma bit_get_field:
  assumes "k \<le> 8"
  shows "bit (get_field w off (mask k)) n \<longleftrightarrow> n < k \<and> bit w (off + n)"
proof -
  have v: "drop_bit off w AND mask k = take_bit k (drop_bit off w)" by (simp add: take_bit_eq_mask)
  have "unat (take_bit k (drop_bit off w)) < 2 ^ k" by (simp add: unsigned_take_bit_eq)
  also have "(2 :: nat) ^ k \<le> 2 ^ 8" by (rule power_increasing) (use assms in auto)
  finally have "take_bit k (drop_bit off w) < 256" by (simp add: word_less_nat_alt)
  then show ?thesis using assms by (auto simp: get_field_def v bit_simps)
qed

lemma bit_set_field:
  "bit (set_field w v off (mask k)) n \<longleftrightarrow> n < 16 \<and> (if off \<le> n \<and> n < off + k then bit v (n - off) else bit w n)"
  by (auto simp: set_field_def bit_simps)

lemma sm_successful_bit: "sm_successful w \<longleftrightarrow> bit w 7"
proof -
  have b: "bit (get_field w 7 1) n \<longleftrightarrow> n = 0 \<and> bit w 7" for n
    using bit_get_field [of 1 w 7 n] by (cases n) simp_all
  have "get_field w 7 1 \<noteq> 0 \<longleftrightarrow> (\<exists>n. bit (get_field w 7 1) n)" by (metis bit_eqI bit_0_eq bot_apply bot_bool_def)
  then show ?thesis by (simp add: sm_successful_def sm_defs b)
qed

lemma bit_set_successful: "bit (sm_set_successful b w) n \<longleftrightarrow> n < 16 \<and> (if n = 7 then b else bit w n)"
  using bit_set_field [of w "of_bool b" 7 1 n]
  by (cases "n = 7") (simp add: sm_set_successful_def sm_defs bit_simps, auto simp add: sm_set_successful_def sm_defs)

lemma sm_fields:
  "sm_priority (sm_set_priority p w) = take_bit 4 p" "sm_tries (sm_set_priority p w) = sm_tries w"
  "sm_successful (sm_set_priority p w) = sm_successful w"
  "sm_priority (sm_set_tries t w) = sm_priority w" "sm_tries (sm_set_tries t w) = take_bit 3 t"
  "sm_successful (sm_set_tries t w) = sm_successful w"
  "sm_priority (sm_set_successful b w) = sm_priority w" "sm_tries (sm_set_successful b w) = sm_tries w"
  "sm_successful (sm_set_successful b w) = b"
  unfolding sm_priority_def sm_set_priority_def sm_tries_def sm_set_tries_def sm_successful_bit bit_set_successful
    PRIORITY_MASK_def PRIORITY_OFFSET_def TRIES_MASK_def TRIES_OFFSET_def field_masks
  by (auto intro!: bit_eqI simp: bit_get_field bit_set_field bit_set_successful bit_take_bit_iff bit_unsigned_iff)

lemma sm_default_fields: "sm_priority sm_default = 7" "sm_tries sm_default = 7" "\<not> sm_successful sm_default"
proof -
  have "take_bit 4 (7 :: byte) = 7" "take_bit 3 (7 :: byte) = 7" by (simp_all add: take_bit_eq_mod)
  then show "sm_priority sm_default = 7" "sm_tries sm_default = 7"
    by (simp_all add: sm_default_def sm_fields ANDROID_DEFAULT_PRIORITY_def ANDROID_DEFAULT_RETRIES_def)
  show "\<not> sm_successful sm_default" by (simp add: sm_default_def sm_fields) (simp add: sm_successful_bit)
qed

lemma sm_tries_bound: "take_bit 3 (sm_tries w) = sm_tries w"
  unfolding sm_tries_def TRIES_MASK_def TRIES_OFFSET_def field_masks
  by (auto intro!: bit_eqI simp: bit_get_field bit_take_bit_iff)

text \<open>A decrement of a field that is not zero stays in the field.\<close>

lemma sm_tries_dec:
  assumes "0 < sm_tries w"
  shows "take_bit 3 (sm_tries w - 1) = sm_tries w - 1" "unat (sm_tries w - 1) = unat (sm_tries w) - 1"
proof -
  have "take_bit 3 (unat (sm_tries w)) = unat (sm_tries w)"
    using arg_cong [OF sm_tries_bound [of w], of unat] by (simp add: unsigned_take_bit_eq)
  then have b: "unat (sm_tries w) < 2 ^ 3" by (simp only: take_bit_nat_eq_self_iff)
  show u: "unat (sm_tries w - 1) = unat (sm_tries w) - 1" using assms by (simp add: unat_sub_if' word_gt_0 word_unat_eq_iff)
  have "unat (take_bit 3 (sm_tries w - 1)) = unat (sm_tries w - 1)"
    using b u by (simp add: unsigned_take_bit_eq take_bit_nat_eq_self_iff)
  then show "take_bit 3 (sm_tries w - 1) = sm_tries w - 1" by (simp add: word_unat_eq_iff)
qed

lemma nb_slots_le: "unat (nb_slots c) \<le> 4"
  by (simp add: nb_slots_def MAX_SLOTS_def min_def word_le_nat_alt)

lemma nb_slots_default: "nb_slots (set_nb_slots 4 0) = 4"
  by (simp add: nb_slots_def set_nb_slots_def NB_SLOT_MASK_def NB_SLOT_OFFSET_def MAX_SLOTS_def get_field_def set_field_def)

section \<open>Layout and slots\<close>

definition bc_good :: "bootloader_control \<Rightarrow> bool" where
  "bc_good d \<longleftrightarrow> bc_magic d = BOOT_CTRL_MAGIC \<and> bc_version d \<le> BOOT_CTRL_VERSION \<and> length (bc_slot_suffix d) = 4
     \<and> length (bc_reserved0 d) = 1 \<and> length (bc_slot_metadata d) = 4 \<and> length (bc_reserved1 d) = 8"

lemma u16_roundtrip [simp]: "u16_from_le_bytes (u16_to_le_bytes w) = w" "length (u16_to_le_bytes w) = 2"
proof -
  have "unat w < 2 ^ LENGTH(16)" by (rule unsigned_less)
  then show "u16_from_le_bytes (u16_to_le_bytes w) = w" by (simp add: u16_from_le_bytes_def u16_to_le_bytes_def)
qed (simp add: u16_to_le_bytes_def)

lemma bc_layout:
  assumes "bc_good d"
  shows "length (bc_bytes d) = 32" "bc_of_bytes (bc_bytes d) = d" "bc_calculate_crc32 crc d = crc (bc_body d)"
proof -
  have l: "length (bc_slot_suffix d) = 4" "length (bc_reserved0 d) = 1" "length (bc_slot_metadata d) = 4" "length (bc_reserved1 d) = 8"
    using assms by (simp_all add: bc_good_def)
  have m: "length (concat (map u16_to_le_bytes (bc_slot_metadata d))) = 8"
    using length_concat_same [of "map u16_to_le_bytes (bc_slot_metadata d)" 2] l by simp
  have "chunks 2 4 (concat (map u16_to_le_bytes (bc_slot_metadata d)) @ rest) = map u16_to_le_bytes (bc_slot_metadata d)" for rest
    using chunks_concat [of "map u16_to_le_bytes (bc_slot_metadata d)" 2 rest] l by simp
  then have "map u16_from_le_bytes (chunks 2 4 (concat (map u16_to_le_bytes (bc_slot_metadata d)) @ rest)) = bc_slot_metadata d" for rest
    by (simp add: o_def)
  then show "bc_of_bytes (bc_bytes d) = d"
    using l m by (simp add: bc_of_bytes_def bc_bytes_def bc_body_def nth_append)
  show "length (bc_bytes d) = 32" "bc_calculate_crc32 crc d = crc (bc_body d)"
    using l m by (simp_all add: bc_bytes_def bc_body_def bc_calculate_crc32_def)
qed

interpretation bc_md: metadata "bc_metadata crc" bc_good 32 for crc :: "byte list \<Rightarrow> 32 word"
proof unfold_locales
  show "bc_good (md_default (bc_metadata crc))"
    by (simp add: bc_metadata_def bc_default_def bc_good_def Let_def MAX_SLOTS_def encode_utf8_def)
next
  fix d assume g: "bc_good d"
  then show "length (md_bytes (bc_metadata crc) d) = 32" "md_of_bytes (bc_metadata crc) (md_bytes (bc_metadata crc) d) = d"
    by (simp_all add: bc_metadata_def bc_layout)
  let ?p = "bc_prepare_for_sync crc d"
  have p: "bc_good ?p" using g by (simp add: bc_prepare_for_sync_def bc_good_def)
  then show "bc_good (md_prepare_for_sync (bc_metadata crc) d)" by (simp add: bc_metadata_def)
  have "bc_calculate_crc32 crc ?p = bc_crc32 ?p"
    using bc_layout(3) [OF p] bc_layout(3) [OF g] by (simp add: bc_prepare_for_sync_def bc_body_def)
  then show "md_validate (bc_metadata crc) (md_bytes (bc_metadata crc) (md_prepare_for_sync (bc_metadata crc) d) @ rest)
      = Ok (md_prepare_for_sync (bc_metadata crc) d)" for rest
    using bc_layout(1,2) [OF p] p by (simp add: bc_metadata_def bc_validate_def Let_def bc_good_def not_less)
next
  fix b d assume "md_validate (bc_metadata crc) b = Ok d"
  then have "d = bc_of_bytes (take 32 b)" "bc_magic d = BOOT_CTRL_MAGIC" "bc_version d \<le> BOOT_CTRL_VERSION" "32 \<le> length b"
    by (auto simp: bc_metadata_def bc_validate_def Let_def not_less split: if_splits)
  then show "bc_good d" unfolding bc_good_def by (simp add: bc_of_bytes_def)
qed

definition bc_slot :: "suffix \<Rightarrow> slot_meta_data \<Rightarrow> slot" where
  "bc_slot sfx w = \<lparr> sl_suffix = sfx, sl_priority = unat (sm_priority w), sl_bootability = bc_bootability w \<rparr>"

lemma bc_slot_simps [simp]:
  "sl_suffix (bc_slot sfx w) = sfx" "sl_bootability (bc_slot sfx w) = bc_bootability w" "sl_priority (bc_slot sfx w) = unat (sm_priority w)"
  by (simp_all add: bc_slot_def)

abbreviation bc_count :: "bootloader_control \<Rightarrow> nat" where
  "bc_count d \<equiv> unat (nb_slots (bc_control_bits d))"

lemma bc_slots_iter_eq:
  assumes "length (bc_slot_metadata (sb_data self)) = 4"
  shows "bc_slots_iter self = map (\<lambda>i. bc_slot (97 + i) (bc_slot_metadata (sb_data self) ! i)) [0..<bc_count (sb_data self)]"
proof -
  let ?n = "bc_count (sb_data self)"
  have n: "?n \<le> 4" by (rule nb_slots_le)
  have "bc_get_slot_by_number self i = (if i < ?n then Ok (bc_slot (97 + i) (bc_slot_metadata (sb_data self) ! i)) else Err (BadIndex i))" for i
    using n assms by (auto simp: bc_get_slot_by_number_def bc_slot_def Let_def)
  then show ?thesis unfolding bc_slots_iter_def by (rule slots_iter_eq) (use n in simp)
qed

lemma bc_find_eq:
  assumes "length (bc_slot_metadata (sb_data self)) = 4"
  shows "bc_find self sfx = (if 97 \<le> sfx \<and> sfx < 97 + bc_count (sb_data self)
    then Ok (sfx - 97, bc_slot sfx (bc_slot_metadata (sb_data self) ! (sfx - 97))) else Err InvalidInput)"
  using find_suffix_map [of "\<lambda>i. bc_slot (97 + i) (bc_slot_metadata (sb_data self) ! i)" 97 sfx 0]
  by (simp add: bc_find_def bc_slots_iter_eq [OF assms])

section \<open>The contract\<close>

text \<open>The metadata in memory agrees with the partition, and there is a slot.\<close>

definition bc_wf :: "(byte list \<Rightarrow> 32 word) \<Rightarrow> bc_block \<times> byte list \<Rightarrow> bool" where
  "bc_wf crc s \<longleftrightarrow> bc_md.coherent crc s \<and> 0 < bc_count (sb_data (fst s))"

lemma bc_wfD:
  assumes "bc_wf crc s"
  shows "length (bc_slot_metadata (sb_data (fst s))) = 4" "length (bc_slot_suffix (sb_data (fst s))) = 4"
    "bc_good (sb_data (fst s))" "0 < bc_count (sb_data (fst s))" "bc_count (sb_data (fst s)) \<le> 4"
  using assms nb_slots_le by (simp_all add: bc_wf_def bc_md.coherent_def bc_good_def)

lemma bc_wf_change:
  assumes "bc_wf crc s" "bc_good (sb_data (fst s)) \<Longrightarrow> bc_good d" "bc_control_bits d = bc_control_bits (sb_data (fst s))"
  shows "bc_wf crc (get_mut_data (\<lambda>_. d) (fst s), snd s)" "bc_wf crc ((fst s)\<lparr> boot_token := t \<rparr>, snd s)"
    "bc_wf crc ((get_mut_data (\<lambda>_. d) (fst s))\<lparr> boot_token := t \<rparr>, snd s)"
proof -
  have c: "bc_md.coherent crc s" "bc_good (sb_data (fst s))" using assms(1) by (simp_all add: bc_wf_def bc_md.coherent_def)
  show 1: "bc_wf crc (get_mut_data (\<lambda>_. d) (fst s), snd s)"
    using bc_md.change_coherent(1) [OF c(1) assms(2) [OF c(2)]] assms(1,3) by (simp add: bc_wf_def get_mut_data_def)
  show "bc_wf crc ((fst s)\<lparr> boot_token := t \<rparr>, snd s)"
    using bc_md.change_coherent(2) [OF c(1)] assms(1) by (simp add: bc_wf_def)
  show "bc_wf crc ((get_mut_data (\<lambda>_. d) (fst s))\<lparr> boot_token := t \<rparr>, snd s)"
    using bc_md.change_coherent(2) [of crc "(get_mut_data (\<lambda>_. d) (fst s), snd s)"] 1 by (simp add: bc_wf_def)
qed

lemma bc_slots_iter_token [simp]: "bc_slots_iter (sb\<lparr> boot_token := t \<rparr>) = bc_slots_iter sb"
proof -
  have "bc_get_slot_by_number (sb\<lparr> boot_token := t \<rparr>) = bc_get_slot_by_number sb"
    by (rule ext) (simp add: bc_get_slot_by_number_def)
  then show ?thesis by (simp add: bc_slots_iter_def)
qed

lemma bc_suffixes:
  assumes "length (bc_slot_metadata (sb_data self)) = 4"
  shows "sfx \<in> sl_suffix ` set (bc_slots_iter self) \<longleftrightarrow> 97 \<le> sfx \<and> sfx < 97 + bc_count (sb_data self)"
proof -
  have "sl_suffix ` set (bc_slots_iter self) = (\<lambda>i. 97 + i) ` {0..<bc_count (sb_data self)}"
    by (simp add: bc_slots_iter_eq [OF assms] image_image)
  then show ?thesis by (auto simp: image_iff)
qed

lemma bc_change_eq:
  assumes w: "bc_wf crc s" and sfx: "97 \<le> sfx" "sfx < 97 + bc_count (sb_data (fst s))"
  obtains d where "bc_change_slot (sfx - 97) f (fst s) = (Ok (), get_mut_data (\<lambda>_. d) (fst s))"
    "bc_good (sb_data (fst s)) \<Longrightarrow> bc_good d" "bc_control_bits d = bc_control_bits (sb_data (fst s))"
    "bc_slots_iter (get_mut_data (\<lambda>_. d) (fst s)) = map (\<lambda>x. if sl_suffix x = sfx
       then bc_slot sfx (f (bc_slot_metadata (sb_data (fst s)) ! (sfx - 97))) else x) (bc_slots_iter (fst s))"
proof -
  let ?ms = "bc_slot_metadata (sb_data (fst s))" and ?i = "sfx - 97"
  define d where "d = (sb_data (fst s))\<lparr> bc_slot_metadata := ?ms[?i := f (?ms ! ?i)] \<rparr>"
  note W = bc_wfD [OF w]
  have i: "?i < 4" using sfx W(5) by linarith
  have "bc_change_slot ?i f (fst s) = (Ok (), get_mut_data (\<lambda>_. d) (fst s))"
    using i W(1) by (simp add: bc_change_slot_def d_def get_mut_data_def)
  moreover have "bc_slots_iter (get_mut_data (\<lambda>_. d) (fst s)) = map (\<lambda>x. if sl_suffix x = sfx
       then bc_slot sfx (f (?ms ! ?i)) else x) (bc_slots_iter (fst s))"
    using W(1) W(5) sfx(1) i
    by (simp add: bc_slots_iter_eq get_mut_data_def d_def) (auto simp: nth_list_update)
  ultimately show thesis using that by (simp add: d_def bc_good_def)
qed

lemma bc_set_active_eq:
  assumes w: "bc_wf crc s" and sfx: "97 \<le> sfx" "sfx < 97 + bc_count (sb_data (fst s))"
  obtains d where "bc_set_active_slot sfx (fst s) = (Ok (), get_mut_data (\<lambda>_. d) (fst s))"
    "bc_good (sb_data (fst s)) \<Longrightarrow> bc_good d" "bc_control_bits d = bc_control_bits (sb_data (fst s))"
    "bc_slots_iter (get_mut_data (\<lambda>_. d) (fst s)) = map (activate 7 sfx) (bc_slots_iter (fst s))"
proof -
  let ?d = "sb_data (fst s)"
  let ?ms = "bc_slot_metadata ?d" and ?i = "sfx - 97"
  note W = bc_wfD [OF w]
  define d where "d = ?d\<lparr> bc_slot_metadata := map (\<lambda>i. if i = ?i then sm_default else sm_set_priority 6 (?ms ! i)) [0..<length ?ms],
    bc_slot_suffix := overwrite 1 (encode_utf8 sfx) (bc_slot_suffix ?d) \<rparr>"
  have e: "length (encode_utf8 sfx) = 1" using sfx W(5) by (simp add: encode_utf8_def)
  have "bc_set_active_slot sfx (fst s) = (Ok (), get_mut_data (\<lambda>_. d) (fst s))"
    using W sfx e by (simp add: bc_set_active_slot_def st_then_def bc_find_eq get_mut_data_def d_def ANDROID_DEFAULT_PRIORITY_def)
  moreover have "bc_slots_iter (get_mut_data (\<lambda>_. d) (fst s)) = map (activate 7 sfx) (bc_slots_iter (fst s))"
  proof -
    have p: "take_bit 4 (6 :: byte) = 6" by (simp add: take_bit_eq_mod)
    have "bc_slot sfx sm_default = activate 7 sfx (bc_slot sfx w)" for w
      by (simp add: activate_def bc_slot_def bc_bootability_def sm_default_fields)
    moreover have "bc_slot (97 + i) (sm_set_priority 6 w) = activate 7 sfx (bc_slot (97 + i) w)" if "i \<noteq> ?i" for i w
      using sfx(1) that by (auto simp: activate_def bc_slot_def bc_bootability_def sm_fields p)
    ultimately show ?thesis using W(1,5) sfx(1) by (auto simp: bc_slots_iter_eq get_mut_data_def d_def)
  qed
  ultimately show thesis using that e W(2) by (simp add: d_def bc_good_def)
qed

lemma bc_target_eq:
  assumes "bc_wf crc s"
  shows "bc_get_boot_target (fst s) = Ok (case best (bc_slots_iter (fst s)) of Some x \<Rightarrow> NormalBoot x
    | None \<Rightarrow> Recovery (Slotted (the (max_by_key slot_key (bc_slots_iter (fst s))))))"
proof -
  have "bc_slots_iter (fst s) \<noteq> []" using bc_wfD [OF assms] by (simp add: bc_slots_iter_eq)
  then obtain r where "max_by_key slot_key (bc_slots_iter (fst s)) = Some r"
    using max_by_key_None [of slot_key "bc_slots_iter (fst s)"] by blast
  then show ?thesis
    by (auto simp: bc_get_boot_target_def get_slot_last_set_active_def bc_slots_iter_def [symmetric] best_def split: option.split)
qed

lemma bc_use_attempt_slot:
  assumes "bc_bootability w = Retriable t"
  shows "bc_slot sfx (sm_set_tries (sm_tries w - 1) w) = attempt Unknown sfx (bc_slot sfx w)"
proof -
  have s: "\<not> sm_successful w" "0 < sm_tries w" "t = unat (sm_tries w)"
    using assms by (auto simp: bc_bootability_def split: if_splits)
  note d = sm_tries_dec [OF s(2)]
  have "0 < sm_tries w - 1 \<longleftrightarrow> t \<noteq> 1"
    using d(2) s by (auto simp: word_gt_0 word_unat_eq_iff)
  then show ?thesis
    using s d by (auto simp: bc_slot_def attempt_def bc_bootability_def sm_fields)
qed

lemma bc_member:
  assumes "length (bc_slot_metadata (sb_data self)) = 4" "x \<in> set (bc_slots_iter self)"
  shows "97 \<le> sl_suffix x \<and> sl_suffix x < 97 + bc_count (sb_data self)
    \<and> x = bc_slot (sl_suffix x) (bc_slot_metadata (sb_data self) ! (sl_suffix x - 97))"
  using assms by (auto simp: bc_slots_iter_eq)

lemma bc_mark_eq:
  assumes w: "bc_wf crc s"
  shows "\<exists>sb. bc_wf crc (sb, snd s) \<and> boot_token sb = None
    \<and> bc_slots_iter sb = (case best (bc_slots_iter (fst s)) of
        Some x \<Rightarrow> map (attempt Unknown (sl_suffix x)) (bc_slots_iter (fst s)) | None \<Rightarrow> bc_slots_iter (fst s))
    \<and> bc_mark_boot_attempt (fst s) = (if boot_token (fst s) = Some () then Ok () else Err OperationProhibited, sb)"
proof -
  note W = bc_wfD [OF w]
  let ?ss = "bc_slots_iter (fst s)"
  have tk: "bc_wf crc ((fst s)\<lparr> boot_token := None \<rparr>, snd s)" using bc_wf_change(2) [OF w] by blast
  show ?thesis
  proof (cases "best ?ss")
    case None
    have "?ss \<noteq> []" using W by (simp add: bc_slots_iter_eq)
    then obtain r where r: "max_by_key slot_key ?ss = Some r" using max_by_key_None [of slot_key ?ss] by blast
    have "bc_find (fst s) (sl_suffix r) \<noteq> Err InvalidInput" "\<exists>y. bc_find (fst s) (sl_suffix r) = Ok y"
      using bc_member [OF W(1) max_by_key_Some(1) [OF r]] by (simp_all add: bc_find_eq [OF W(1)])
    then show ?thesis
      using tk None r
      by (auto simp: bc_mark_boot_attempt_def st_then_def bc_target_eq [OF w] token_or_prohibited_eq
          intro!: exI [of _ "(fst s)\<lparr> boot_token := None \<rparr>"])
  next
    case (Some x)
    let ?w = "bc_slot_metadata (sb_data (fst s)) ! (sl_suffix x - 97)"
    have m: "97 \<le> sl_suffix x" "sl_suffix x < 97 + bc_count (sb_data (fst s))" "x = bc_slot (sl_suffix x) ?w"
      using bc_member [OF W(1), of x] best_Some [OF Some] by auto
    have find: "bc_find (fst s) (sl_suffix x) = Ok (sl_suffix x - 97, x)" using m by (simp add: bc_find_eq [OF W(1)])
    have u: "y = x" if "y \<in> set ?ss" "sl_suffix y = sl_suffix x" for y
      using bc_member [OF W(1) that(1)] that(2) m(3) by simp
    show ?thesis
    proof (cases "sl_bootability x")
      case Successful
      then have "attempt Unknown (sl_suffix x) x = x" by (cases x) (simp add: attempt_def)
      then have "map (attempt Unknown (sl_suffix x)) ?ss = ?ss"
        using u by (intro map_idI) (metis attempt_def)
      then show ?thesis
        using tk Some Successful find
        by (auto simp: bc_mark_boot_attempt_def st_then_def bc_target_eq [OF w] token_or_prohibited_eq
            intro!: exI [of _ "(fst s)\<lparr> boot_token := None \<rparr>"])
    next
      case (Unbootable r)
      then show ?thesis using best_Some [OF Some] by (simp add: is_bootable_def)
    next
      case (Retriable t)
      then have t: "bc_bootability ?w = Retriable t" by (metis m(3) bc_slot_simps(2))
      let ?f = "\<lambda>w. sm_set_tries (sm_tries w - 1) w"
      obtain d where d: "bc_change_slot (sl_suffix x - 97) ?f (fst s) = (Ok (), get_mut_data (\<lambda>_. d) (fst s))"
        "bc_good (sb_data (fst s)) \<Longrightarrow> bc_good d" "bc_control_bits d = bc_control_bits (sb_data (fst s))"
        "bc_slots_iter (get_mut_data (\<lambda>_. d) (fst s)) =
          map (\<lambda>y. if sl_suffix y = sl_suffix x then bc_slot (sl_suffix x) (?f ?w) else y) ?ss"
        by (rule bc_change_eq [OF w m(1,2), of ?f]) blast
      let ?sb = "(get_mut_data (\<lambda>_. d) (fst s))\<lparr> boot_token := None \<rparr>"
      have "bc_slots_iter ?sb = map (attempt Unknown (sl_suffix x)) ?ss"
        unfolding bc_slots_iter_token d(4) bc_use_attempt_slot [OF t] using u m(3) by (auto simp: attempt_def)
      moreover have "boot_token (get_mut_data (\<lambda>_. d) (fst s)) = boot_token (fst s)" by (simp add: get_mut_data_def)
      ultimately show ?thesis
        using bc_wf_change(3) [OF w d(2,3), of None] Some Retriable find d(1)
        by (auto simp: bc_mark_boot_attempt_def st_then_def bc_target_eq [OF w] token_or_prohibited_eq intro!: exI [of _ ?sb])
    qed
  qed
qed

lemma bc_active_law:
  assumes w: "bc_wf crc s" and sfx: "sfx \<in> sl_suffix ` set (bc_slots_iter (fst s))"
  shows "\<exists>s'. on_block (bc_set_active_slot sfx) s = (Ok (), s') \<and> bc_wf crc s'
    \<and> bc_slots_iter (fst s') = map (activate 7 sfx) (bc_slots_iter (fst s)) \<and> boot_token (fst s') = boot_token (fst s)"
proof -
  have r: "97 \<le> sfx" "sfx < 97 + bc_count (sb_data (fst s))" using sfx bc_suffixes [OF bc_wfD(1) [OF w]] by auto
  obtain d where d: "bc_set_active_slot sfx (fst s) = (Ok (), get_mut_data (\<lambda>_. d) (fst s))"
    "bc_good (sb_data (fst s)) \<Longrightarrow> bc_good d" "bc_control_bits d = bc_control_bits (sb_data (fst s))"
    "bc_slots_iter (get_mut_data (\<lambda>_. d) (fst s)) = map (activate 7 sfx) (bc_slots_iter (fst s))"
    by (rule bc_set_active_eq [OF w r]) blast
  have "boot_token (get_mut_data (\<lambda>_. d) (fst s)) = boot_token (fst s)" by (simp add: get_mut_data_def)
  then show ?thesis using bc_wf_change(1) [OF w d(2,3)] d by (simp add: on_block_def)
qed

lemma bc_unbootable_law:
  assumes w: "bc_wf crc s" and sfx: "sfx \<in> sl_suffix ` set (bc_slots_iter (fst s))"
  shows "\<exists>s'. on_block (bc_set_slot_unbootable sfx r) s = (Ok (), s') \<and> bc_wf crc s'
    \<and> bc_slots_iter (fst s') = map (disable Unknown sfx) (bc_slots_iter (fst s)) \<and> boot_token (fst s') = boot_token (fst s)"
proof -
  note W = bc_wfD [OF w]
  let ?w = "bc_slot_metadata (sb_data (fst s)) ! (sfx - 97)" and ?f = "\<lambda>w. sm_set_successful False (sm_set_tries 0 w)"
  have m: "97 \<le> sfx" "sfx < 97 + bc_count (sb_data (fst s))" using sfx bc_suffixes [OF W(1)] by auto
  then have find: "bc_find (fst s) sfx = Ok (sfx - 97, bc_slot sfx ?w)" by (simp add: bc_find_eq [OF W(1)])
  have x: "y = bc_slot sfx ?w" if "y \<in> set (bc_slots_iter (fst s))" "sl_suffix y = sfx" for y
    using bc_member [OF W(1) that(1)] that(2) by simp
  show ?thesis
  proof (cases "bc_bootability ?w = Unbootable r")
    case True
    moreover from this have "bc_bootability ?w = Unbootable Unknown" by (auto simp: bc_bootability_def split: if_splits)
    then have "disable Unknown sfx (bc_slot sfx ?w) = bc_slot sfx ?w" by (simp add: disable_def bc_slot_def)
    then have "map (disable Unknown sfx) (bc_slots_iter (fst s)) = bc_slots_iter (fst s)"
      using x by (intro map_idI) (metis disable_def)
    ultimately show ?thesis using find w by (simp add: on_block_def bc_set_slot_unbootable_def st_then_def st_lift_def)
  next
    case False
    obtain d where d: "bc_change_slot (sfx - 97) ?f (fst s) = (Ok (), get_mut_data (\<lambda>_. d) (fst s))"
      "bc_good (sb_data (fst s)) \<Longrightarrow> bc_good d" "bc_control_bits d = bc_control_bits (sb_data (fst s))"
      "bc_slots_iter (get_mut_data (\<lambda>_. d) (fst s)) =
        map (\<lambda>y. if sl_suffix y = sfx then bc_slot sfx (?f ?w) else y) (bc_slots_iter (fst s))"
      by (rule bc_change_eq [OF w m, of ?f]) blast
    have "bc_slot sfx (?f ?w) = disable Unknown sfx (bc_slot sfx ?w)"
      by (simp add: bc_slot_def disable_def bc_bootability_def sm_fields)
    then have "bc_slots_iter (get_mut_data (\<lambda>_. d) (fst s)) = map (disable Unknown sfx) (bc_slots_iter (fst s))"
      unfolding d(4) using x by (intro map_cong) (auto simp: disable_def)
    moreover have "boot_token (get_mut_data (\<lambda>_. d) (fst s)) = boot_token (fst s)" by (simp add: get_mut_data_def)
    ultimately show ?thesis
      using bc_wf_change(1) [OF w d(2,3)] False find d(1) by (simp add: on_block_def bc_set_slot_unbootable_def st_then_def)
  qed
qed

lemma bc_power_law:
  assumes "bc_wf crc s"
  defines "s' \<equiv> power_cycle (bc_metadata crc) s"
  shows "bc_wf crc s' \<and> bc_slots_iter (fst s') = bc_slots_iter (fst s) \<and> boot_token (fst s') = Some ()"
proof -
  have c: "bc_md.coherent crc s" using assms(1) by (simp add: bc_wf_def)
  note p = bc_md.power_cycle_coherent [OF c, folded s'_def]
  then have d: "bc_slot_metadata (sb_data (fst s')) = bc_slot_metadata (sb_data (fst s))" "bc_control_bits (sb_data (fst s')) = bc_control_bits (sb_data (fst s))"
    by (auto simp: bc_metadata_def bc_prepare_for_sync_def)
  have "bc_get_slot_by_number (fst s') = bc_get_slot_by_number (fst s)"
    by (rule ext) (simp add: bc_get_slot_by_number_def Let_def d)
  then show ?thesis using p d(2) assms(1) by (simp add: bc_wf_def bc_slots_iter_def)
qed

interpretation bc_mgr: slot_manager "bc_wf crc" "\<lambda>s. bc_slots_iter (fst s)" "\<lambda>s. boot_token (fst s) = Some ()"
    "\<lambda>s. bc_get_boot_target (fst s)" "on_block bc_mark_boot_attempt" "\<lambda>sfx. on_block (bc_set_active_slot sfx)"
    "\<lambda>sfx r. on_block (bc_set_slot_unbootable sfx r)" "power_cycle (bc_metadata crc)" 7 Unknown "\<lambda>_. Unknown"
    "\<lambda>ss. Slotted (the (max_by_key slot_key ss))"
    for crc :: "byte list \<Rightarrow> 32 word"
proof unfold_locales
  fix s assume w: "bc_wf crc s"
  note W = bc_wfD [OF w]
  show "distinct (map sl_suffix (bc_slots_iter (fst s)))"
    by (simp add: bc_slots_iter_eq [OF W(1)] distinct_map o_def inj_on_def)
  show "bc_get_boot_target (fst s) = Ok (case best (bc_slots_iter (fst s)) of Some x \<Rightarrow> NormalBoot x
      | None \<Rightarrow> Recovery (Slotted (the (max_by_key slot_key (bc_slots_iter (fst s))))))"
    by (rule bc_target_eq [OF w])
  fix sfx :: suffix
  show "on_block (bc_set_active_slot sfx) s = (Err InvalidInput, s)" if "sfx \<notin> sl_suffix ` set (bc_slots_iter (fst s))"
    using that unfolding bc_suffixes [OF W(1)] by (auto simp: on_block_def bc_set_active_slot_def st_then_def bc_find_eq [OF W(1)])
  show "on_block (bc_set_slot_unbootable sfx r) s = (Err InvalidInput, s)" if "sfx \<notin> sl_suffix ` set (bc_slots_iter (fst s))" for r
    using that unfolding bc_suffixes [OF W(1)] by (auto simp: on_block_def bc_set_slot_unbootable_def st_then_def bc_find_eq [OF W(1)])
  {
    assume sfx: "sfx \<in> sl_suffix ` set (bc_slots_iter (fst s))"
    show "\<exists>s'. on_block (bc_set_active_slot sfx) s = (Ok (), s') \<and> bc_wf crc s'
      \<and> bc_slots_iter (fst s') = map (activate 7 sfx) (bc_slots_iter (fst s))
      \<and> (boot_token (fst s') = Some ()) = (boot_token (fst s) = Some ())"
      using bc_active_law [OF w sfx] by auto
    show "\<exists>s'. on_block (bc_set_slot_unbootable sfx r) s = (Ok (), s') \<and> bc_wf crc s'
      \<and> bc_slots_iter (fst s') = map (disable Unknown sfx) (bc_slots_iter (fst s))
      \<and> (boot_token (fst s') = Some ()) = (boot_token (fst s) = Some ())" for r
      using bc_unbootable_law [OF w sfx, of r] by auto
  }
  obtain sb where "bc_wf crc (sb, snd s)" "boot_token sb = None"
    "bc_slots_iter sb = (case best (bc_slots_iter (fst s)) of
        Some x \<Rightarrow> map (attempt Unknown (sl_suffix x)) (bc_slots_iter (fst s)) | None \<Rightarrow> bc_slots_iter (fst s))"
    "bc_mark_boot_attempt (fst s) = (if boot_token (fst s) = Some () then Ok () else Err OperationProhibited, sb)"
    using bc_mark_eq [OF w] by blast
  then show "boot_token (fst s) = Some () \<Longrightarrow> \<exists>s'. on_block bc_mark_boot_attempt s = (Ok (), s') \<and> bc_wf crc s'
      \<and> boot_token (fst s') \<noteq> Some () \<and> bc_slots_iter (fst s') = (case best (bc_slots_iter (fst s)) of
        Some x \<Rightarrow> map (attempt Unknown (sl_suffix x)) (bc_slots_iter (fst s)) | None \<Rightarrow> bc_slots_iter (fst s))"
    "boot_token (fst s) \<noteq> Some () \<Longrightarrow> \<exists>s'. on_block bc_mark_boot_attempt s = (Err OperationProhibited, s') \<and> bc_wf crc s'
      \<and> boot_token (fst s') \<noteq> Some ()"
    by (simp_all add: on_block_def)
  show "bc_wf crc (power_cycle (bc_metadata crc) s) \<and> bc_slots_iter (fst (power_cycle (bc_metadata crc) s)) = bc_slots_iter (fst s)
      \<and> boot_token (fst (power_cycle (bc_metadata crc) s)) = Some ()"
    by (rule bc_power_law [OF w])
qed simp

end
