(* ===== verification/Slots_Correct.thy ===== *)
theory Slots_Correct
  imports Slots_Fuchsia Slots_Android
begin

text \<open>
  Properties of both slot managers, from the contract \<open>slot_manager\<close> and its two interpretations, and
  the reachable states of Fuchsia's manager.
\<close>

section \<open>Boot cycles\<close>





text \<open>A checksum for the examples.\<close>

definition sample_crc :: "byte list \<Rightarrow> 32 word" where
  "sample_crc bs = sum_list (map ucast bs)"

lemma fx_loaded_wf:
  assumes "32 \<le> length disk" "fx_oneshot_flag (sb_data (block_deserialize (fx_metadata crc) disk)) \<noteq> FLAGS_RECOVERY"
  shows "fx_wf crc (block_deserialize (fx_metadata crc) disk, disk)"
  using fx_md.deserialize_coherent [OF assms(1)] assms(2) by (simp add: fx_wf_def)

definition fx_blank :: "fx_block \<times> byte list" where
  "fx_blank = (block_deserialize (fx_metadata sample_crc) (replicate 32 0), replicate 32 0)"

definition bc_blank :: "bc_block \<times> byte list" where
  "bc_blank = (block_deserialize (bc_metadata sample_crc) (replicate 32 0), replicate 32 0)"

lemma fx_blank_eq: "fst fx_blank = \<lparr> cache_status = Dirty, boot_token = Some (), sb_data = fx_default sample_crc \<rparr>"
proof -
  have "replicate 4 0 \<noteq> FX_MAGIC" by code_simp
  then show ?thesis by (simp add: fx_blank_def block_deserialize_def fx_metadata_def fx_validate_def fx_of_bytes_def Let_def)
qed

lemma bc_blank_eq: "fst bc_blank = \<lparr> cache_status = Dirty, boot_token = Some (), sb_data = bc_default sample_crc \<rparr>"
proof -
  have "u32_from_le_bytes (replicate 4 0) \<noteq> BOOT_CTRL_MAGIC" by code_simp
  then show ?thesis
    by (simp add: bc_blank_def block_deserialize_def bc_metadata_def bc_validate_def bc_of_bytes_def Let_def)
qed

lemma blank_wf: "fx_wf sample_crc fx_blank" "bc_wf sample_crc bc_blank"
proof -
  show "fx_wf sample_crc fx_blank"
    using fx_md.deserialize_coherent [of "replicate 32 0" sample_crc] fx_blank_eq
    by (simp add: fx_wf_def fx_blank_def fx_default_def FLAGS_NONE_def FLAGS_RECOVERY_def Let_def)
  show "bc_wf sample_crc bc_blank"
    using bc_md.deserialize_coherent [of "replicate 32 0" sample_crc] bc_blank_eq
    by (simp add: bc_wf_def bc_blank_def bc_default_def nb_slots_default Let_def)
qed


section \<open>Reachable states\<close>










section \<open>Properties\<close>







text \<open>
  C21. Slot metadata survives a restart: after any changes in memory, writing back and reading the
  partition again gives the same slots in both managers, with a fresh boot token.
\<close>

theorem slot_metadata_survives_restart:
  assumes "fx_wf crc s" "bc_wf crc t"
  shows "fx_slots_iter (fst (power_cycle (fx_metadata crc) s)) = fx_slots_iter (fst s)
    \<and> boot_token (fst (power_cycle (fx_metadata crc) s)) = Some ()
    \<and> bc_slots_iter (fst (power_cycle (bc_metadata crc) t)) = bc_slots_iter (fst t)
    \<and> boot_token (fst (power_cycle (bc_metadata crc) t)) = Some ()"
  using fx_power_law [OF assms(1)] bc_power_law [OF assms(2)] by blast

theorem slot_metadata_survives_restart_witness:
  "fx_slots_iter (fst (power_cycle (fx_metadata sample_crc) fx_blank)) = fx_slots_iter (fst fx_blank)"
  using slot_metadata_survives_restart [OF blank_wf] by blast



end
