(* ===== verification/Slots_Abr.thy ===== *)
theory Slots_Abr
  imports Slots_Correct Abr_Storage
begin

text \<open>
  Two components read Fuchsia's A/B/R metadata: \<open>libabr\<close>, and the slot manager of \<open>libgbl\<close>. With the checksum
  of \<open>libabr\<close> in place of the one of \<open>crc32fast\<close>, both accept the same bytes, and choose the same slot as
  long as the priorities are not zero.
\<close>

lemma take_nth_drop:
  "i < length b \<Longrightarrow> take 1 (drop i b) = [b ! i]"
  "Suc i < length b \<Longrightarrow> take 2 (drop i b) = [b ! i, b ! Suc i]"
  by (simp_all add: numeral_2_eq_2 take_Suc hd_drop_conv_nth tl_drop [symmetric] drop_Suc [symmetric]
      flip: Cons_nth_drop_Suc)

lemma fx_slot_bytes_of_bytes:
  assumes "length c = 4"
  shows "fx_slot_bytes (fx_slot_of_bytes c) = c"
proof -
  obtain w x y z where "c = [w, x, y, z]" using assms by (auto simp: length_Suc_conv numeral_eq_Suc)
  then show ?thesis by (simp add: fx_slot_bytes_def fx_slot_of_bytes_def)
qed

lemma fx_parse_body:
  assumes "length b = 32"
  shows "take 28 (fx_bytes (fx_of_bytes b)) = take 28 b"
proof -
  have "chunks 4 2 (drop 8 b) = [take 4 (drop 8 b), take 4 (drop 12 b)]"
    by (simp add: numeral_2_eq_2 chunks_Suc) (simp add: chunks_def)
  then have "fx_body (fx_of_bytes b) = take 4 b @ take 2 (drop 4 b) @ take 2 (drop 6 b) @ take 4 (drop 8 b) @ take 4 (drop 12 b)
      @ take 1 (drop 16 b) @ take 11 (drop 17 b)"
    using assms take_nth_drop(2) [of 4 b] take_nth_drop(1) [of 16 b]
    by (simp add: fx_body_def fx_of_bytes_def fx_slot_bytes_of_bytes)
  also have "\<dots> = take 28 b"
    using take_add [of 4 24 b] take_add [of 2 22 "drop 4 b"] take_add [of 2 20 "drop 6 b"] take_add [of 4 16 "drop 8 b"]
      take_add [of 4 12 "drop 12 b"] take_add [of 1 11 "drop 16 b"] by simp
  finally show ?thesis using assms by (simp add: fx_bytes_def)
qed

text \<open>The entry of a slot in the two readings.\<close>

definition same_slot :: "fx_slot_data \<Rightarrow> abr_slot_data \<Rightarrow> bool" where
  "same_slot f d \<longleftrightarrow> fx_priority f = priority d \<and> fx_tries f = tries_remaining d \<and> fx_successful f = successful_boot d"

lemma fx_slots_parse:
  assumes "length b = 32"
  obtains f g where "fx_slots (fx_of_bytes b) = [f, g]" "same_slot f (fst (slots (abr_parse b)))" "same_slot g (snd (slots (abr_parse b)))"
proof -
  have "chunks 4 2 (drop 8 b) = [take 4 (drop 8 b), take 4 (drop 12 b)]"
    by (simp add: numeral_2_eq_2 chunks_Suc) (simp add: chunks_def)
  then show thesis
    using that by (simp add: fx_of_bytes_def abr_parse_def same_slot_def fx_slot_of_bytes_def slot_deserialize_def)
qed

lemma fx_accepts_iff:
  assumes "length b = 32"
  shows "is_ok (fx_validate crc32 b) \<longleftrightarrow> is_ok (abr_check b)"
proof -
  have "fx_calculate_crc32 crc32 (fx_of_bytes b) = crc32 (take 28 b)"
    by (simp add: fx_calculate_crc32_def fx_parse_body [OF assms])
  then show ?thesis
    using assms by (auto simp: fx_validate_def abr_check_def abr_parse_def fx_of_bytes_def Let_def FX_MAGIC_def ABR_MAGIC_def
        FX_VERSION_MAJOR_def ABR_MAJOR_VERSION_def)
qed


text \<open>Metadata written by the slot manager, as both read it.\<close>

lemma fx_written:
  assumes "fx_good d" "fx_slots d = [f, g]"
  defines "b \<equiv> fx_bytes (fx_prepare_for_sync crc32 d)"
  shows "length b = 32" "fx_validate crc32 b = Ok (fx_of_bytes b)"
    "same_slot f (fst (slots (abr_parse b)))" "same_slot g (snd (slots (abr_parse b)))"
    "fx_slots_iter (block_deserialize (fx_metadata crc32) b) = [fx_slot 97 f, fx_slot 98 g]"
proof -
  let ?p = "fx_prepare_for_sync crc32 d"
  have p: "fx_good ?p" using fx_md.prepare_good [OF assms(1), of crc32] by (simp add: fx_metadata_def)
  show l: "length b = 32" unfolding b_def by (rule fx_good_layout(1) [OF p])
  have o: "fx_of_bytes b = ?p" unfolding b_def by (rule fx_good_layout(2) [OF p])
  show v: "fx_validate crc32 b = Ok (fx_of_bytes b)"
    using fx_md.validate_prepared [OF assms(1), of crc32 "[]"] unfolding o by (simp add: fx_metadata_def b_def)
  have sl: "fx_slots (fx_of_bytes b) = [f, g]" unfolding o using assms(2) by (simp add: fx_prepare_for_sync_def Let_def)
  show "same_slot f (fst (slots (abr_parse b)))" "same_slot g (snd (slots (abr_parse b)))"
    using fx_slots_parse [OF l] sl by (metis list.inject)+
  show "fx_slots_iter (block_deserialize (fx_metadata crc32) b) = [fx_slot 97 f, fx_slot 98 g]"
    by (rule fx_slots_iter_eq) (use v sl in \<open>simp add: block_deserialize_def fx_metadata_def\<close>)
qed

lemma fx_default_good: "fx_good (fx_default crc32)" "fx_slots (fx_default crc32) = [fx_slot_default, fx_slot_default]"
  by (simp_all add: fx_default_def fx_good_def Let_def numeral_2_eq_2)

section \<open>Properties\<close>



text \<open>
  C39. With a priority of zero they disagree: \<open>libabr\<close> treats such a slot as unbootable and chooses recovery,
  the slot manager boots it.
\<close>

theorem fuchsia_boots_priority_zero:
  "\<exists>b x. fx_get_boot_target (block_deserialize (fx_metadata crc32) b) = Ok (NormalBoot x) \<and> sl_priority x = 0
    \<and> is_ok (abr_check b) \<and> get_active_slot (abr_parse b) = Ok SlotR"
proof -
  define f where "f = fx_slot_default\<lparr> fx_priority := 0 \<rparr>"
  define d where "d = (fx_default crc32)\<lparr> fx_slots := [f, f] \<rparr>"
  define b where "b = fx_bytes (fx_prepare_for_sync crc32 d)"
  have g: "fx_good d" "fx_slots d = [f, f]" using fx_default_good(1) by (simp_all add: d_def fx_good_def)
  note w = fx_written [OF g, folded b_def]
  have "priority (fst (slots (abr_parse b))) = 0" "priority (snd (slots (abr_parse b))) = 0"
    using w(3,4) by (simp_all add: same_slot_def f_def)
  then have "get_active_slot (abr_parse b) = Ok SlotR"
    by (simp add: get_active_slot_def slot_data_def get_normalized_priority_def is_slot_bootable_def)
  moreover have "is_ok (abr_check b)" using fx_accepts_iff [OF w(1)] w(2) by simp
  moreover have "fx_get_boot_target (block_deserialize (fx_metadata crc32) b) = Ok (NormalBoot (fx_slot 97 f))"
    unfolding fx_get_boot_target_def w(5)
    by (simp add: is_bootable_def f_def fx_bootable_fields slot_key_def suffix_rank_def less_eq_prod_simp fx_slot_def)
  moreover have "sl_priority (fx_slot 97 f) = 0" by (simp add: fx_slot_def f_def)
  ultimately show ?thesis by blast
qed

end
