(* ===== verification/Sparse.thy ===== *)
theory Sparse
  imports Layout Block_Io
begin

text \<open>
  Writing of Android sparse images (\<open>libgbl/src/fastboot/sparse.rs\<close>). The image buffer at address \<open>p\<close> is part
  of the state: the first pass writes the raw chunks and records every chunk as a \<open>FillInfo\<close> at the start of
  the same buffer, the second pass uses the rest of the buffer to write the fill chunks. Unsigned fields are
  natural numbers.
\<close>

section \<open>Computations that may not end\<close>

text \<open>\<open>None\<close>: the computation does not return.\<close>

type_synonym ('s, 'a) dio = "'s \<Rightarrow> ('a res \<times> 's) option"

definition d_io :: "('s, 'a) io \<Rightarrow> ('s, 'a) dio" where
  "d_io m s = Some (m s)"

definition d_then :: "('s, 'a) dio \<Rightarrow> ('a \<Rightarrow> ('s, 'b) dio) \<Rightarrow> ('s, 'b) dio" where
  "d_then m k s = (case m s of
      None \<Rightarrow> None
    | Some (Ok v, s') \<Rightarrow> k v s'
    | Some (Err e, s') \<Rightarrow> Some (Err e, s')
    | Some (Panic, s') \<Rightarrow> Some (Panic, s'))"

section \<open>Checked conversions and slices\<close>

definition ERR_ARITHMETIC_OVERFLOW :: string where "ERR_ARITHMETIC_OVERFLOW = ''Arithmetic Overflow''"
definition ERR_IMAGE_SIZE :: string where "ERR_IMAGE_SIZE = ''Bad image. Invalid image size''"

definition to_usize :: "nat \<Rightarrow> nat res" where
  "to_usize v = (if v < U64 then Ok v else Err (Other (Some ERR_ARITHMETIC_OVERFLOW)))"

definition to_u64 :: "nat \<Rightarrow> nat res" where
  "to_u64 v = (if v < U64 then Ok v else Err (Other (Some ERR_ARITHMETIC_OVERFLOW)))"

definition usize_add :: "nat \<Rightarrow> nat \<Rightarrow> nat res" where
  "usize_add lhs rhs =
     and_then (to_usize lhs) (\<lambda>l. and_then (to_usize rhs) (\<lambda>r.
       if l + r < U64 then Ok (l + r) else Err (Other (Some ERR_ARITHMETIC_OVERFLOW))))"

definition u64_add :: "nat \<Rightarrow> nat \<Rightarrow> nat res" where
  "u64_add lhs rhs =
     and_then (to_u64 lhs) (\<lambda>l. and_then (to_u64 rhs) (\<lambda>r.
       if l + r < U64 then Ok (l + r) else Err (Other (Some ERR_ARITHMETIC_OVERFLOW))))"

definition u64_mul :: "nat \<Rightarrow> nat \<Rightarrow> nat res" where
  "u64_mul lhs rhs =
     and_then (to_u64 lhs) (\<lambda>l. and_then (to_u64 rhs) (\<lambda>r.
       if l * r < U64 then Ok (l * r) else Err (Other (Some ERR_ARITHMETIC_OVERFLOW))))"

text \<open>\<open>get\<close> and \<open>get_mut\<close> differ only in the mutability of the slice.\<close>

definition sparse_get :: "byte list \<Rightarrow> nat \<Rightarrow> nat \<Rightarrow> byte list res" where
  "sparse_get bytes start stop =
     and_then (to_usize start) (\<lambda>a. and_then (to_usize stop) (\<lambda>b.
       ok_or (slice_get a b bytes) (Other (Some ERR_IMAGE_SIZE))))"

definition copy_from :: "nat \<Rightarrow> (byte list \<Rightarrow> 'a) \<Rightarrow> byte list \<Rightarrow> 'a res" where
  "copy_from sz of_bytes bytes = map_ok of_bytes (sparse_get bytes 0 sz)"

section \<open>Headers\<close>

definition HEADER_MAGIC :: nat where "HEADER_MAGIC = 0xED26FF3A"
definition CHUNK_TYPE_RAW :: nat where "CHUNK_TYPE_RAW = 0xCAC1"
definition CHUNK_TYPE_FILL :: nat where "CHUNK_TYPE_FILL = 0xCAC2"
definition CHUNK_TYPE_DONT_CARE :: nat where "CHUNK_TYPE_DONT_CARE = 0xCAC3"
definition CHUNK_TYPE_CRC32 :: nat where "CHUNK_TYPE_CRC32 = 0xCAC4"
definition SPARSE_HEADER_MAJOR_VER :: nat where "SPARSE_HEADER_MAJOR_VER = 1"
definition SPARSE_HEADER_MINOR_VER :: nat where "SPARSE_HEADER_MINOR_VER = 0"

record sparse_header =
  sh_magic :: nat
  major_version :: nat
  minor_version :: nat
  file_hdr_sz :: nat
  chunk_hdr_sz :: nat
  blk_sz :: nat
  total_blks :: nat
  total_chunks :: nat
  image_checksum :: nat

definition SPARSE_HEADER_SIZE :: nat where "SPARSE_HEADER_SIZE = 28"

definition sparse_header_of_bytes :: "byte list \<Rightarrow> sparse_header" where
  "sparse_header_of_bytes bs = \<lparr> sh_magic = le_at 0 4 bs, major_version = le_at 4 2 bs,
     minor_version = le_at 6 2 bs, file_hdr_sz = le_at 8 2 bs, chunk_hdr_sz = le_at 10 2 bs, blk_sz = le_at 12 4 bs,
     total_blks = le_at 16 4 bs, total_chunks = le_at 20 4 bs, image_checksum = le_at 24 4 bs \<rparr>"

definition data_size :: "sparse_header \<Rightarrow> nat" where
  "data_size self = total_blks self * blk_sz self"

record chunk_header =
  chunk_type :: nat
  reserved1 :: nat
  chunk_sz :: nat
  total_sz :: nat

definition CHUNK_HEADER_SIZE :: nat where "CHUNK_HEADER_SIZE = 12"

definition chunk_header_of_bytes :: "byte list \<Rightarrow> chunk_header" where
  "chunk_header_of_bytes bs = \<lparr> chunk_type = le_at 0 2 bs, reserved1 = le_at 2 2 bs, chunk_sz = le_at 4 4 bs,
     total_sz = le_at 8 4 bs \<rparr>"

definition is_sparse_image :: "byte list \<Rightarrow> sparse_header res" where
  "is_sparse_image sparse_img =
     and_then (copy_from SPARSE_HEADER_SIZE sparse_header_of_bytes sparse_img) (\<lambda>h.
       if sh_magic h \<noteq> HEADER_MAGIC then Err (Other (Some ''Sparse magic mismatch''))
       else if major_version h \<noteq> SPARSE_HEADER_MAJOR_VER then Err (Other (Some ''Sparse major version mismatch''))
       else if minor_version h \<noteq> SPARSE_HEADER_MINOR_VER then Err (Other (Some ''Sparse minor version mismatch''))
       else Ok h)"

section \<open>Fill records\<close>

record fill_info =
  fill_blocks :: nat
  fill_value_or_skip_blocks :: nat

definition FILL_INFO_SIZE :: nat where "FILL_INFO_SIZE = 8"

definition fill_info_bytes :: "fill_info \<Rightarrow> byte list" where
  "fill_info_bytes f = nat_to_le 4 (fill_blocks f) @ nat_to_le 4 (fill_value_or_skip_blocks f)"

definition fill_info_of_bytes :: "byte list \<Rightarrow> fill_info" where
  "fill_info_of_bytes bs = \<lparr> fill_blocks = le_at 0 4 bs, fill_value_or_skip_blocks = le_at 4 4 bs \<rparr>"

definition new_fill :: "nat \<Rightarrow> nat \<Rightarrow> fill_info res" where
  "new_fill blocks v =
     and_then (rust_assert (blocks \<noteq> 0)) (\<lambda>_. Ok \<lparr> fill_blocks = blocks, fill_value_or_skip_blocks = v \<rparr>)"

definition new_skip :: "nat \<Rightarrow> fill_info" where
  "new_skip blocks = \<lparr> fill_blocks = 0, fill_value_or_skip_blocks = blocks \<rparr>"

definition get_blocks_and_value :: "fill_info \<Rightarrow> nat \<times> nat option" where
  "get_blocks_and_value self =
     (if fill_blocks self = 0 then (fill_value_or_skip_blocks self, None)
      else (fill_blocks self, Some (fill_value_or_skip_blocks self)))"

section \<open>First pass\<close>

text \<open>\<open>SparseRawWriter::write\<close>: offset, address and contents of the buffer; it returns the buffer's new contents.\<close>

type_synonym 's raw_writer = "nat \<Rightarrow> nat \<Rightarrow> byte list \<Rightarrow> 's \<Rightarrow> unit res \<times> byte list \<times> 's"

text \<open>Writing from the part of \<open>n\<close> bytes at \<open>a\<close> of the image buffer.\<close>

definition write_image_part :: "'s raw_writer \<Rightarrow> nat \<Rightarrow> nat \<Rightarrow> nat \<Rightarrow> nat \<Rightarrow> (byte list \<times> 's, unit) io" where
  "write_image_part w off p a n st =
     (case w off (p + a) (take n (drop a (fst st))) (snd st) of
        (r, b, s') \<Rightarrow> (r, overwrite a b (fst st), s'))"

text \<open>The chunk at \<open>here\<close>, whose payload follows its header: what is recorded for the second pass.\<close>

definition write_chunk ::
  "'s raw_writer \<Rightarrow> nat \<Rightarrow> chunk_header \<Rightarrow> nat \<Rightarrow> byte list \<Rightarrow> nat \<Rightarrow> nat \<Rightarrow> (byte list \<times> 's, fill_info) io" where
  "write_chunk w p header here payload payload_sz write_offset =
     (if chunk_type header = CHUNK_TYPE_RAW then
        st_then (st_lift (and_then (to_usize payload_sz) (\<lambda>n. map_ok length (sparse_get payload 0 n)))) (\<lambda>n.
        st_then (write_image_part w write_offset p (here + CHUNK_HEADER_SIZE) n) (\<lambda>_.
          st_lift (Ok (new_skip (chunk_sz header)))))
      else if chunk_type header = CHUNK_TYPE_FILL \<and> chunk_sz header \<noteq> 0 then
        st_lift (and_then (sparse_get payload 0 4) (\<lambda>bs. new_fill (chunk_sz header) (nat_from_le bs)))
      else if chunk_type header = CHUNK_TYPE_DONT_CARE \<or> chunk_type header = CHUNK_TYPE_CRC32 then
        st_lift (Ok (new_skip (chunk_sz header)))
      else st_lift (Err (Other (Some ''Invalid Chunk Type''))))"

definition put_fill_info :: "nat \<Rightarrow> fill_info \<Rightarrow> (byte list \<times> 's, unit) io" where
  "put_fill_info fill_off f st =
     (case clone_into fill_off (fill_off + FILL_INFO_SIZE) (fill_info_bytes f) (fst st) of
        Ok img \<Rightarrow> (Ok (), img, snd st) | Err e \<Rightarrow> (Err e, st) | Panic \<Rightarrow> (Panic, st))"

definition first_pass_step ::
  "'s raw_writer \<Rightarrow> nat \<Rightarrow> sparse_header \<Rightarrow> nat \<times> nat \<times> nat \<Rightarrow> (byte list \<times> 's, nat \<times> nat \<times> nat) io" where
  "first_pass_step w p sh pos =
     (case pos of (here, write_offset, fill_off) \<Rightarrow>
      st_then (st_gets (\<lambda>st. and_then (slice_index here (length (fst st)) (fst st))
        (copy_from CHUNK_HEADER_SIZE chunk_header_of_bytes))) (\<lambda>header.
      st_then (st_gets (\<lambda>st. and_then (padd here CHUNK_HEADER_SIZE)
        (\<lambda>a. slice_index a (length (fst st)) (fst st)))) (\<lambda>payload.
      st_then (st_lift (u64_mul (chunk_sz header) (blk_sz sh))) (\<lambda>payload_sz.
      st_then (write_chunk w p header here payload payload_sz write_offset) (\<lambda>fill.
      st_then (st_lift (u64_add write_offset payload_sz)) (\<lambda>write_offset'.
      st_then (put_fill_info fill_off fill) (\<lambda>_.
      st_then (st_lift (usize_add fill_off FILL_INFO_SIZE)) (\<lambda>fill_off'.
      st_then (st_lift (usize_add here (total_sz header))) (\<lambda>here'.
        st_lift (Ok (here', write_offset', fill_off')))))))))))"

primrec first_pass ::
  "'s raw_writer \<Rightarrow> nat \<Rightarrow> sparse_header \<Rightarrow> nat \<Rightarrow> nat \<times> nat \<times> nat \<Rightarrow> (byte list \<times> 's, nat \<times> nat \<times> nat) io" where
  "first_pass w p sh 0 pos = st_lift (Ok pos)"
| "first_pass w p sh (Suc n) pos = st_then (first_pass_step w p sh pos) (\<lambda>pos'. first_pass w p sh n pos')"

section \<open>Second pass\<close>

record fill_buffer =
  curr_val :: "nat option"
  curr_size :: nat
  fb_buffer :: "byte list"

text \<open>The length of the prefix of the buffer that is handed out, filled with the value.\<close>

definition fill_buffer_get :: "nat \<Rightarrow> nat \<Rightarrow> (fill_buffer \<times> 's, nat) io" where
  "fill_buffer_get val sz st =
     (let self = fst st;
          len = length (fb_buffer self);
          aligned_len = len - len mod 4;
          n = min aligned_len sz;
          cur = (if Some val \<noteq> curr_val self then 0 else curr_size self);
          gap = max cur n - cur
      in if cur + gap \<le> len \<and> gap mod 4 = 0
         then (Ok n, \<lparr> curr_val = Some val, curr_size = cur + gap,
                       fb_buffer = overwrite cur (concat (replicate (gap div 4) (nat_to_le 4 val))) (fb_buffer self) \<rparr>,
               snd st)
         else (Panic, st))"

partial_function (option) fill_write_loop ::
  "'s raw_writer \<Rightarrow> nat \<Rightarrow> nat \<Rightarrow> nat \<Rightarrow> nat \<Rightarrow> fill_buffer \<times> 's \<Rightarrow> (nat res \<times> fill_buffer \<times> 's) option" where
  "fill_write_loop w q buffer_len write_offset stop st =
     (if write_offset < stop then
        let to_write = min buffer_len (stop - write_offset) in
        case w write_offset q (take to_write (fb_buffer (fst st))) (snd st) of
          (Ok u, b, s') \<Rightarrow> fill_write_loop w q buffer_len (write_offset + to_write) stop
             ((fst st)\<lparr> fb_buffer := overwrite 0 b (fb_buffer (fst st)) \<rparr>, s')
        | (Err e, b, s') \<Rightarrow> Some (Err e, (fst st)\<lparr> fb_buffer := overwrite 0 b (fb_buffer (fst st)) \<rparr>, s')
        | (Panic, b, s') \<Rightarrow> Some (Panic, (fst st)\<lparr> fb_buffer := overwrite 0 b (fb_buffer (fst st)) \<rparr>, s')
      else Some (Ok write_offset, st))"

definition second_pass_step ::
  "'s raw_writer \<Rightarrow> nat \<Rightarrow> sparse_header \<Rightarrow> fill_info \<Rightarrow> nat \<Rightarrow> (fill_buffer \<times> 's, nat) dio" where
  "second_pass_step w q sh ele write_offset =
     (case get_blocks_and_value ele of
        (blks, None) \<Rightarrow>
          d_io (st_lift (and_then (u64_mul blks (blk_sz sh)) (u64_add write_offset)))
      | (blks, Some v) \<Rightarrow>
          d_then (d_io (st_lift (u64_mul blks (blk_sz sh)))) (\<lambda>sz.
          d_then (d_io (fill_buffer_get v sz)) (\<lambda>n.
          d_then (d_io (st_lift (to_u64 n))) (\<lambda>buffer_len.
          d_then (d_io (st_lift (u64_add write_offset sz))) (\<lambda>stop.
            fill_write_loop w q buffer_len write_offset stop)))))"

primrec second_pass ::
  "'s raw_writer \<Rightarrow> nat \<Rightarrow> sparse_header \<Rightarrow> fill_info list \<Rightarrow> nat \<Rightarrow> (fill_buffer \<times> 's, nat) dio" where
  "second_pass w q sh [] write_offset = d_io (st_lift (Ok write_offset))"
| "second_pass w q sh (ele # fill_infos) write_offset =
     d_then (second_pass_step w q sh ele write_offset) (\<lambda>write_offset'. second_pass w q sh fill_infos write_offset')"

text \<open>Splitting the image buffer into the records and the fill buffer.\<close>

definition write_fills :: "'s raw_writer \<Rightarrow> nat \<Rightarrow> sparse_header \<Rightarrow> nat \<Rightarrow> (byte list \<times> 's, nat) dio" where
  "write_fills w p sh fill_off st =
     (if fill_off \<le> length (fst st) \<and> fill_off mod FILL_INFO_SIZE = 0 then
        map_option (\<lambda>(r, fb, s'). (r, take fill_off (fst st) @ fb_buffer fb, s'))
          (second_pass w (p + fill_off) sh
             (map fill_info_of_bytes (chunks FILL_INFO_SIZE (fill_off div FILL_INFO_SIZE) (fst st))) 0
             (\<lparr> curr_val = None, curr_size = 0, fb_buffer = drop fill_off (fst st) \<rparr>, snd st))
      else Some (Panic, st))"

definition write_sparse_image :: "'s raw_writer \<Rightarrow> nat \<Rightarrow> (byte list \<times> 's, nat) dio" where
  "write_sparse_image w p =
     d_then (d_io (st_gets (\<lambda>st. is_sparse_image (fst st)))) (\<lambda>sparse_header.
     d_then (d_io (first_pass w p sparse_header (total_chunks sparse_header) (SPARSE_HEADER_SIZE, 0, 0)))
       (\<lambda>(here, total, fill_off).
     d_then (write_fills w p sparse_header fill_off) (\<lambda>_. d_io (st_lift (Ok total)))))"

end
