(* ===== verification/Gbl_Partition.thy ===== *)
theory Gbl_Partition
  imports Gpt_Builder Sparse
begin

text \<open>
  Disks and partitions as the boot logic sees them (\<open>libgbl/src/partition.rs\<close>): a disk with either a GPT or a
  single raw partition, input and output on one partition, and look-up of partitions over several disks. The
  two \<open>RefCell\<close>s of a disk are flags that tell whether another task holds the borrow.
\<close>

section \<open>Partitions\<close>

definition RAW_PARTITION_NAME_LEN :: nat where "RAW_PARTITION_NAME_LEN = 72"

type_synonym raw_name = "byte list"

text \<open>The argument is a C string without its terminator.\<close>

definition raw_name_new :: "byte list \<Rightarrow> raw_name res" where
  "raw_name_new name =
     (if \<not> utf8_valid name then Err InvalidInput
      else if length (name @ [0]) \<le> RAW_PARTITION_NAME_LEN
      then Ok (overwrite 0 (name @ [0]) (replicate RAW_PARTITION_NAME_LEN 0)) else Err InvalidInput)"

definition raw_name_to_str :: "raw_name \<Rightarrow> byte list res" where
  "raw_name_to_str self =
     (let s = takeWhile (\<lambda>b. b \<noteq> 0) self
      in if 0 \<in> set self \<and> utf8_valid s then Ok s else Panic)"

datatype gbl_partition = Raw_Partition raw_name nat | Gpt_Partition partition

fun gbl_absolute_range :: "gbl_partition \<Rightarrow> (nat \<times> nat) res" where
  "gbl_absolute_range (Gpt_Partition p) = absolute_range p"
| "gbl_absolute_range (Raw_Partition _ sz) = Ok (0, sz)"

definition gbl_partition_size :: "gbl_partition \<Rightarrow> nat res" where
  "gbl_partition_size self = and_then (gbl_absolute_range self) (\<lambda>(start, stop). sn_try (sn_sub (sn stop) (sn start)))"

fun gbl_partition_name :: "gbl_partition \<Rightarrow> byte list res" where
  "gbl_partition_name (Gpt_Partition p) = and_then (partition_name p) (\<lambda>n. ok_or n InvalidInput)"
| "gbl_partition_name (Raw_Partition name _) = raw_name_to_str name"

datatype partition_table = Raw_Table raw_name nat | Gpt_Table gpt

datatype block_status = Idle | Pending

fun block_status_to_str :: "block_status \<Rightarrow> string" where
  "block_status_to_str Idle = ''idle''"
| "block_status_to_str Pending = ''IO pending''"

section \<open>Input and output on a partition\<close>

record 's partition_io =
  pio_disk :: "'s disk"
  part_start :: nat
  part_end :: nat

definition pio_size :: "'s partition_io \<Rightarrow> nat res" where
  "pio_size self = psub (part_end self) (part_start self)"

text \<open>The offset on the disk; every failure of the computation is \<open>OutOfRange\<close>.\<close>

definition check_rw_range :: "nat \<Rightarrow> nat \<Rightarrow> 's partition_io \<Rightarrow> nat res" where
  "check_rw_range off sz self =
     (let ab_range_end = sn_add (sn_add (sn (part_start self)) (sn off)) (sn sz) in
      case and_then (sn_try (sn_sub (sn (part_end self)) ab_range_end))
             (\<lambda>_. sn_try (sn_add (sn (part_start self)) (sn off))) of
        Ok v \<Rightarrow> Ok v | Err _ \<Rightarrow> Err OutOfRange | Panic \<Rightarrow> Panic)"

definition pio_write ::
  "'s block_io \<Rightarrow> nat \<Rightarrow> nat \<Rightarrow> byte list \<Rightarrow> 's partition_io \<Rightarrow> unit res \<times> byte list \<times> 's partition_io" where
  "pio_write io off p data self =
     (case check_rw_range off (length data) self of
        Ok pos \<Rightarrow> (case disk_write io pos p data (pio_disk self) of (r, b, d) \<Rightarrow> (r, b, self\<lparr> pio_disk := d \<rparr>))
      | Err e \<Rightarrow> (Err e, data, self)
      | Panic \<Rightarrow> (Panic, data, self))"

definition pio_read ::
  "'s block_io \<Rightarrow> nat \<Rightarrow> nat \<Rightarrow> byte list \<Rightarrow> 's partition_io \<Rightarrow> unit res \<times> byte list \<times> 's partition_io" where
  "pio_read io off p out self =
     (case check_rw_range off (length out) self of
        Ok pos \<Rightarrow> (case disk_read io pos p out (pio_disk self) of (r, b, d) \<Rightarrow> (r, b, self\<lparr> pio_disk := d \<rparr>))
      | Err e \<Rightarrow> (Err e, out, self)
      | Panic \<Rightarrow> (Panic, out, self))"

definition pio_zeroize ::
  "'s block_io \<Rightarrow> nat \<Rightarrow> byte list \<Rightarrow> 's partition_io \<Rightarrow> (unit res \<times> byte list \<times> 's partition_io) option" where
  "pio_zeroize io q scratch self =
     (case pio_size self of
        Ok sz \<Rightarrow> map_option (\<lambda>(r, b, d). (r, b, self\<lparr> pio_disk := d \<rparr>))
          (disk_fill io (part_start self) sz 0 q scratch (pio_disk self))
      | Err e \<Rightarrow> Some (Err e, scratch, self)
      | Panic \<Rightarrow> Some (Panic, scratch, self))"

text \<open>\<open>SparseRawWriter\<close> for a pair of an offset and a disk.\<close>

definition disk_raw_write :: "'s block_io \<Rightarrow> nat \<Rightarrow> 's disk raw_writer" where
  "disk_raw_write io base off p data d =
     (case sn_try (sn_add (sn off) (sn base)) of
        Ok pos \<Rightarrow> disk_write io pos p data d
      | Err e \<Rightarrow> (Err e, data, d)
      | Panic \<Rightarrow> (Panic, data, d))"

definition pio_write_sparse :: "'s block_io \<Rightarrow> nat \<Rightarrow> nat \<Rightarrow> (byte list \<times> 's partition_io, unit) dio" where
  "pio_write_sparse io off p st =
     (case st of (img, self) \<Rightarrow>
      (case (case is_sparse_image img of
               Ok h \<Rightarrow> check_rw_range off (data_size h) self | Err _ \<Rightarrow> Err InvalidInput | Panic \<Rightarrow> Panic) of
         Ok base \<Rightarrow> map_option (\<lambda>(r, img', d). (map_ok (\<lambda>_. ()) r, img', self\<lparr> pio_disk := d \<rparr>))
           (write_sparse_image (disk_raw_write io base) p (img, pio_disk self))
       | Err e \<Rightarrow> Some (Err e, st)
       | Panic \<Rightarrow> Some (Panic, st)))"

definition pio_sub :: "nat \<Rightarrow> nat \<Rightarrow> 's partition_io \<Rightarrow> 's partition_io res" where
  "pio_sub off sz self =
     and_then (check_rw_range off sz self) (\<lambda>_.
     and_then (padd (part_start self) off) (\<lambda>start.
     and_then (padd start sz) (\<lambda>stop. Ok (self\<lparr> part_start := start, part_end := stop \<rparr>))))"

section \<open>Disks\<close>

record 's gbl_disk =
  gd_disk :: "'s disk"
  gd_disk_borrowed :: bool
  gd_partitions :: partition_table
  gd_partitions_borrowed :: bool
  gd_info_cache :: block_info

definition gbl_new_gpt :: "'s block_io \<Rightarrow> 's disk \<Rightarrow> gpt \<Rightarrow> 's gbl_disk" where
  "gbl_new_gpt io d g = \<lparr> gd_disk = d, gd_disk_borrowed = False, gd_partitions = Gpt_Table g,
     gd_partitions_borrowed = False, gd_info_cache = disk_block_info io d \<rparr>"

definition gbl_new_raw :: "'s block_io \<Rightarrow> 's disk \<Rightarrow> byte list \<Rightarrow> 's gbl_disk res" where
  "gbl_new_raw io d name =
     (let info_cache = disk_block_info io d in
      and_then (raw_name_new name) (\<lambda>n.
      map_ok (\<lambda>sz. \<lparr> gd_disk = d, gd_disk_borrowed = False, gd_partitions = Raw_Table n sz,
          gd_partitions_borrowed = False, gd_info_cache = info_cache \<rparr>) (total_size info_cache)))"

definition gbl_block_info :: "'s gbl_disk \<Rightarrow> block_info" where
  "gbl_block_info self = gd_info_cache self"

definition gbl_status :: "'s gbl_disk \<Rightarrow> block_status" where
  "gbl_status self = (if gd_disk_borrowed self then Pending else Idle)"

definition get_disk :: "'s gbl_disk \<Rightarrow> 's disk res" where
  "get_disk self = (if gd_disk_borrowed self then Err NotReady else Ok (gd_disk self))"

definition get_partitions :: "'s gbl_disk \<Rightarrow> partition_table res" where
  "get_partitions self = (if gd_partitions_borrowed self then Err NotReady else Ok (gd_partitions self))"

definition gbl_find_partition :: "byte list option \<Rightarrow> 's gbl_disk \<Rightarrow> gbl_partition res" where
  "gbl_find_partition part self = (case part of
      None \<Rightarrow> and_then (unwrap (raw_name_new [])) (\<lambda>n.
        map_ok (Raw_Partition n) (total_size (gd_info_cache self)))
    | Some part \<Rightarrow> and_then (get_partitions self) (\<lambda>t. case t of
          Gpt_Table g \<Rightarrow> map_ok Gpt_Partition (find_partition part g)
        | Raw_Table name sz \<Rightarrow> and_then (raw_name_to_str name) (\<lambda>s.
            if s = part then Ok (Raw_Partition name sz) else Err NotFound)))"

definition gbl_partition_io :: "byte list option \<Rightarrow> 's gbl_disk \<Rightarrow> 's partition_io res" where
  "gbl_partition_io part self =
     and_then (and_then (gbl_find_partition part self) gbl_absolute_range) (\<lambda>(start, stop).
     map_ok (\<lambda>d. \<lparr> pio_disk = d, part_start = start, part_end = stop \<rparr>) (get_disk self))"

definition gbl_num_partitions :: "'s gbl_disk \<Rightarrow> nat res" where
  "gbl_num_partitions self = and_then (get_partitions self) (\<lambda>t. case t of
      Raw_Table _ _ \<Rightarrow> Ok 1 | Gpt_Table g \<Rightarrow> num_partitions g)"

definition get_partition_by_idx :: "nat \<Rightarrow> 's gbl_disk \<Rightarrow> gbl_partition res" where
  "get_partition_by_idx idx self = and_then (get_partitions self) (\<lambda>t. case t of
      Raw_Table name v \<Rightarrow> if idx = 0 then Ok (Raw_Partition name v) else Err InvalidInput
    | Gpt_Table g \<Rightarrow> map_ok Gpt_Partition (get_partition idx g))"

text \<open>The table and the disk of a GPT device, both borrowed; the other outcomes of borrowing them.\<close>

definition borrow_gpt :: "error + 'a \<Rightarrow> 's gbl_disk \<Rightarrow> ((error + 'a) + 's gpt_disk) res" where
  "borrow_gpt raw self = and_then (get_partitions self) (\<lambda>t. case t of
      Raw_Table _ _ \<Rightarrow> Ok (Inl raw)
    | Gpt_Table g \<Rightarrow> map_ok (\<lambda>d. Inr \<lparr> g_gpt = g, g_disk = d \<rparr>) (get_disk self))"

definition return_gpt :: "'s gpt_disk \<Rightarrow> 's gbl_disk \<Rightarrow> 's gbl_disk" where
  "return_gpt st self = self\<lparr> gd_disk := g_disk st, gd_partitions := Gpt_Table (g_gpt st) \<rparr>"

definition gbl_sync_gpt :: "gpt_env \<Rightarrow> 's block_io \<Rightarrow> ('s gbl_disk, gpt_sync_result option) io" where
  "gbl_sync_gpt env io self = (case borrow_gpt (Inr None) self of
      Ok (Inr st) \<Rightarrow> (case sync_gpt env io st of (r, st') \<Rightarrow> (map_ok Some r, return_gpt st' self))
    | Ok (Inl (Inr v)) \<Rightarrow> (Ok v, self)
    | Ok (Inl (Inl e)) \<Rightarrow> (Err e, self)
    | Err e \<Rightarrow> (Err e, self)
    | Panic \<Rightarrow> (Panic, self))"

definition gbl_update_gpt ::
  "gpt_env \<Rightarrow> 's block_io \<Rightarrow> nat \<Rightarrow> byte list \<Rightarrow> bool \<Rightarrow> 's gbl_disk \<Rightarrow> unit res \<times> byte list \<times> 's gbl_disk" where
  "gbl_update_gpt env io p mbr_primary resize self = (case borrow_gpt (Inl Unsupported) self of
      Ok (Inr st) \<Rightarrow> (case disk_update_gpt env io p mbr_primary resize st of (r, b, st') \<Rightarrow> (r, b, return_gpt st' self))
    | Ok (Inl (Inr v)) \<Rightarrow> (Ok v, mbr_primary, self)
    | Ok (Inl (Inl e)) \<Rightarrow> (Err e, mbr_primary, self)
    | Err e \<Rightarrow> (Err e, mbr_primary, self)
    | Panic \<Rightarrow> (Panic, mbr_primary, self))"

definition gbl_erase_gpt :: "gpt_env \<Rightarrow> 's block_io \<Rightarrow> ('s gbl_disk, unit) dio" where
  "gbl_erase_gpt env io self = (case borrow_gpt (Inl Unsupported) self of
      Ok (Inr st) \<Rightarrow> map_option (\<lambda>(r, st'). (r, return_gpt st' self)) (disk_erase_gpt env io st)
    | Ok (Inl (Inr v)) \<Rightarrow> Some (Ok v, self)
    | Ok (Inl (Inl e)) \<Rightarrow> Some (Err e, self)
    | Err e \<Rightarrow> Some (Err e, self)
    | Panic \<Rightarrow> Some (Panic, self))"

text \<open>The builder works on the table and the disk in place.\<close>

definition gbl_gpt_builder :: "gpt_env \<Rightarrow> 's block_io \<Rightarrow> ('s gbl_disk, unit) io" where
  "gbl_gpt_builder env io self = (case borrow_gpt (Inl Unsupported) self of
      Ok (Inr st) \<Rightarrow> (case builder_new env io st of (r, st') \<Rightarrow> (map_ok (\<lambda>_. ()) r, return_gpt st' self))
    | Ok (Inl (Inr v)) \<Rightarrow> (Ok v, self)
    | Ok (Inl (Inl e)) \<Rightarrow> (Err e, self)
    | Err e \<Rightarrow> (Err e, self)
    | Panic \<Rightarrow> (Panic, self))"

section \<open>Several disks\<close>

text \<open>\<open>filtered.next()\<close>: the next disk with the partition, and the disks after it.\<close>

fun next_match :: "byte list \<Rightarrow> nat \<Rightarrow> 's gbl_disk list \<Rightarrow> (nat \<times> gbl_partition \<times> 's gbl_disk list) option res" where
  "next_match part i [] = Ok None"
| "next_match part i (v # devs) = (case gbl_find_partition (Some part) v of
      Ok q \<Rightarrow> Ok (Some (i, q, devs))
    | Err _ \<Rightarrow> next_match part (i + 1) devs
    | Panic \<Rightarrow> Panic)"

definition check_part_unique :: "'s gbl_disk list \<Rightarrow> byte list \<Rightarrow> (nat \<times> gbl_partition) res" where
  "check_part_unique devs part =
     and_then (next_match part 0 devs) (\<lambda>m. case m of
       None \<Rightarrow> Err NotFound
     | Some (i, q, devs') \<Rightarrow> and_then (next_match part (i + 1) devs') (\<lambda>m'. case m' of
         None \<Rightarrow> Ok (i, q) | Some _ \<Rightarrow> Err NotUnique))"

definition read_unique_partition ::
  "'s block_io \<Rightarrow> byte list \<Rightarrow> nat \<Rightarrow> nat \<Rightarrow> byte list \<Rightarrow> 's gbl_disk list \<Rightarrow> unit res \<times> byte list \<times> 's gbl_disk list" where
  "read_unique_partition io part off p out devs =
     (case check_part_unique devs part of
        Ok (i, _) \<Rightarrow> (case gbl_partition_io (Some part) (devs ! i) of
            Ok pio \<Rightarrow> (case pio_read io off p out pio of
              (r, b, pio') \<Rightarrow> (r, b, devs[i := (devs ! i)\<lparr> gd_disk := pio_disk pio' \<rparr>]))
          | Err e \<Rightarrow> (Err e, out, devs)
          | Panic \<Rightarrow> (Panic, out, devs))
      | Err e \<Rightarrow> (Err e, out, devs)
      | Panic \<Rightarrow> (Panic, out, devs))"

definition write_unique_partition ::
  "'s block_io \<Rightarrow> byte list \<Rightarrow> nat \<Rightarrow> nat \<Rightarrow> byte list \<Rightarrow> 's gbl_disk list \<Rightarrow> unit res \<times> byte list \<times> 's gbl_disk list" where
  "write_unique_partition io part off p data devs =
     (case check_part_unique devs part of
        Ok (i, _) \<Rightarrow> (case gbl_partition_io (Some part) (devs ! i) of
            Ok pio \<Rightarrow> (case pio_write io off p data pio of
              (r, b, pio') \<Rightarrow> (r, b, devs[i := (devs ! i)\<lparr> gd_disk := pio_disk pio' \<rparr>]))
          | Err e \<Rightarrow> (Err e, data, devs)
          | Panic \<Rightarrow> (Panic, data, devs))
      | Err e \<Rightarrow> (Err e, data, devs)
      | Panic \<Rightarrow> (Panic, data, devs))"

fun sync_all_gpt :: "gpt_env \<Rightarrow> 's block_io \<Rightarrow> ('s gbl_disk list, unit) io" where
  "sync_all_gpt env io [] = (Ok (), [])"
| "sync_all_gpt env io (ele # devs) = (case gbl_sync_gpt env io ele of
      (Ok _, ele') \<Rightarrow> (case sync_all_gpt env io devs of (r, devs') \<Rightarrow> (r, ele' # devs'))
    | (Err e, ele') \<Rightarrow> (Err e, ele' # devs)
    | (Panic, ele') \<Rightarrow> (Panic, ele' # devs))"

end
