(* ===== verification/Sparse_Correct.thy ===== *)
theory Sparse_Correct
  imports Sparse
begin

text \<open>
  What writing a sparse image does to the storage. An image is described by its list of chunks; writing its
  encoding sets the cells that raw and fill chunks describe and keeps the others, on any storage that meets
  the contract \<open>raw_sink\<close>. Storage errors leave everything outside the described range as it was.
\<close>

section \<open>Chunks\<close>

datatype chunk = Raw "byte list" | Fill nat nat | Dont_care nat | Crc32 nat nat

fun chunk_blocks :: "nat \<Rightarrow> chunk \<Rightarrow> nat" where
  "chunk_blocks blk (Raw d) = length d div blk"
| "chunk_blocks blk (Fill n v) = n"
| "chunk_blocks blk (Dont_care n) = n"
| "chunk_blocks blk (Crc32 n v) = n"

fun chunk_code :: "chunk \<Rightarrow> nat" where
  "chunk_code (Raw d) = CHUNK_TYPE_RAW"
| "chunk_code (Fill n v) = CHUNK_TYPE_FILL"
| "chunk_code (Dont_care n) = CHUNK_TYPE_DONT_CARE"
| "chunk_code (Crc32 n v) = CHUNK_TYPE_CRC32"

fun chunk_payload :: "chunk \<Rightarrow> byte list" where
  "chunk_payload (Raw d) = d"
| "chunk_payload (Fill n v) = nat_to_le 4 v"
| "chunk_payload (Dont_care n) = []"
| "chunk_payload (Crc32 n v) = nat_to_le 4 v"

definition chunk_bytes :: "nat \<Rightarrow> chunk \<Rightarrow> byte list" where
  "chunk_bytes blk c = nat_to_le 2 (chunk_code c) @ nat_to_le 2 0 @ nat_to_le 4 (chunk_blocks blk c)
     @ nat_to_le 4 (12 + length (chunk_payload c)) @ chunk_payload c"

fun chunk_wf :: "nat \<Rightarrow> chunk \<Rightarrow> bool" where
  "chunk_wf blk (Raw d) \<longleftrightarrow> blk dvd length d \<and> 12 + length d < U32"
| "chunk_wf blk (Fill n v) \<longleftrightarrow> 0 < n \<and> n < U32 \<and> v < U32"
| "chunk_wf blk (Dont_care n) \<longleftrightarrow> n < U32"
| "chunk_wf blk (Crc32 n v) \<longleftrightarrow> n < U32 \<and> v < U32"

text \<open>The bytes a chunk stands for; \<open>None\<close> is a byte that the image does not determine.\<close>

definition fill_bytes :: "nat \<Rightarrow> nat \<Rightarrow> byte list" where
  "fill_bytes n v = concat (replicate (n div 4) (nat_to_le 4 v))"

fun raw_cells :: "nat \<Rightarrow> chunk \<Rightarrow> byte option list" where
  "raw_cells blk (Raw d) = map Some d"
| "raw_cells blk c = replicate (chunk_blocks blk c * blk) None"

fun fill_cells :: "nat \<Rightarrow> chunk \<Rightarrow> byte option list" where
  "fill_cells blk (Fill n v) = map Some (fill_bytes (n * blk) v)"
| "fill_cells blk c = replicate (chunk_blocks blk c * blk) None"

fun cells :: "nat \<Rightarrow> chunk \<Rightarrow> byte option list" where
  "cells blk (Raw d) = map Some d"
| "cells blk (Fill n v) = map Some (fill_bytes (n * blk) v)"
| "cells blk c = replicate (chunk_blocks blk c * blk) None"

abbreviation all_cells :: "nat \<Rightarrow> chunk list \<Rightarrow> byte option list" where
  "all_cells blk cs \<equiv> concat (map (cells blk) cs)"

fun chunk_info :: "nat \<Rightarrow> chunk \<Rightarrow> fill_info" where
  "chunk_info blk (Fill n v) = \<lparr> fill_blocks = n, fill_value_or_skip_blocks = v \<rparr>"
| "chunk_info blk c = new_skip (chunk_blocks blk c)"

definition sparse_header_bytes :: "sparse_header \<Rightarrow> byte list" where
  "sparse_header_bytes h = nat_to_le 4 (sh_magic h) @ nat_to_le 2 (major_version h) @ nat_to_le 2 (minor_version h)
     @ nat_to_le 2 (file_hdr_sz h) @ nat_to_le 2 (chunk_hdr_sz h) @ nat_to_le 4 (blk_sz h) @ nat_to_le 4 (total_blks h)
     @ nat_to_le 4 (total_chunks h) @ nat_to_le 4 (image_checksum h)"

definition sparse_header_wf :: "sparse_header \<Rightarrow> bool" where
  "sparse_header_wf h \<longleftrightarrow> sh_magic h = HEADER_MAGIC \<and> major_version h = SPARSE_HEADER_MAJOR_VER
     \<and> minor_version h = SPARSE_HEADER_MINOR_VER \<and> file_hdr_sz h < 2 ^ 16 \<and> chunk_hdr_sz h < 2 ^ 16 \<and> blk_sz h < U32
     \<and> total_blks h < U32 \<and> total_chunks h < U32 \<and> image_checksum h < U32"

text \<open>\<open>img\<close> is an image with header \<open>h\<close> and chunks \<open>cs\<close>, possibly followed by other bytes.\<close>

definition sparse_image :: "sparse_header \<Rightarrow> chunk list \<Rightarrow> byte list \<Rightarrow> bool" where
  "sparse_image h cs img \<longleftrightarrow> sparse_header_wf h \<and> 4 dvd blk_sz h \<and> total_chunks h = length cs
     \<and> list_all (chunk_wf (blk_sz h)) cs
     \<and> take (SPARSE_HEADER_SIZE + length (concat (map (chunk_bytes (blk_sz h)) cs))) img
         = sparse_header_bytes h @ concat (map (chunk_bytes (blk_sz h)) cs)"

section \<open>Patching a byte sequence\<close>

definition patch :: "nat \<Rightarrow> byte option list \<Rightarrow> byte list \<Rightarrow> byte list" where
  "patch a ps c = map (\<lambda>i. case if a \<le> i \<and> i < a + length ps then ps ! (i - a) else None of
     None \<Rightarrow> c ! i | Some b \<Rightarrow> b) [0..<length c]"

lemma length_patch [simp]: "length (patch a ps c) = length c"
  by (simp add: patch_def)

lemma nth_patch:
  "i < length c \<Longrightarrow> patch a ps c ! i =
     (case if a \<le> i \<and> i < a + length ps then ps ! (i - a) else None of None \<Rightarrow> c ! i | Some b \<Rightarrow> b)"
  by (simp add: patch_def split: option.split)

lemma patch_Nil [simp]: "patch a [] c = c"
  by (auto intro!: nth_equalityI simp: nth_patch)

lemma patch_None [simp]: "patch a (replicate n None) c = c"
  by (auto intro!: nth_equalityI simp: nth_patch)

lemma patch_Some: "a + length d \<le> length c \<Longrightarrow> patch a (map Some d) c = overwrite a d c"
  by (rule nth_equalityI) (auto simp: nth_patch nth_overwrite)

lemma patch_append: "patch (a + length xs) ys (patch a xs c) = patch a (xs @ ys) c"
proof (rule nth_equalityI)
  fix i assume i: "i < length (patch (a + length xs) ys (patch a xs c))"
  consider "i < a" | "a \<le> i" "i < a + length xs" | "a + length xs \<le> i" by linarith
  then show "patch (a + length xs) ys (patch a xs c) ! i = patch a (xs @ ys) c ! i"
    using i by cases (auto simp: nth_patch nth_append diff_diff_left split: option.split)
qed simp

text \<open>Two patches of the same range that do not determine the same byte.\<close>

definition join_cell :: "byte option \<Rightarrow> byte option \<Rightarrow> byte option" where
  "join_cell r f = (case f of None \<Rightarrow> r | Some b \<Rightarrow> Some b)"

lemma patch_join:
  "length xs = length ys \<Longrightarrow> patch a ys (patch a xs c) = patch a (map2 join_cell xs ys) c"
  by (rule nth_equalityI) (auto simp: nth_patch join_cell_def split: option.splits)

definition within :: "nat \<Rightarrow> nat \<Rightarrow> byte list \<Rightarrow> byte list \<Rightarrow> bool" where
  "within lo hi c c' \<longleftrightarrow> length c' = length c \<and> (\<forall>i < length c. i < lo \<or> hi \<le> i \<longrightarrow> c' ! i = c ! i)"

lemma within_refl [simp]: "within lo hi c c"
  by (simp add: within_def)

lemma within_trans: "within lo hi c c' \<Longrightarrow> within lo hi c' c'' \<Longrightarrow> within lo hi c c''"
  by (simp add: within_def)

lemma within_widen: "within lo hi c c' \<Longrightarrow> lo' \<le> lo \<Longrightarrow> hi \<le> hi' \<Longrightarrow> within lo' hi' c c'"
  by (auto simp: within_def)

lemma within_patch: "within a (a + length ps) c (patch a ps c)"
  by (auto simp: within_def nth_patch)

section \<open>Fill patterns and cells\<close>

lemma length_fill_bytes [simp]: "4 dvd n \<Longrightarrow> length (fill_bytes n v) = n"
  by (auto simp: fill_bytes_def length_concat sum_list_replicate elim: dvdE)

lemma fill_bytes_0 [simp]: "fill_bytes 0 v = []"
  by (simp add: fill_bytes_def)

lemma fill_bytes_add: "4 dvd m \<Longrightarrow> 4 dvd n \<Longrightarrow> fill_bytes (m + n) v = fill_bytes m v @ fill_bytes n v"
  by (auto simp: fill_bytes_def replicate_add elim!: dvdE)

lemma take_fill_bytes: "4 dvd m \<Longrightarrow> 4 dvd n \<Longrightarrow> m \<le> n \<Longrightarrow> take m (fill_bytes n v) = fill_bytes m v"
proof -
  assume a: "4 dvd m" "4 dvd n" "m \<le> n"
  then have "4 dvd n - m" by simp
  from fill_bytes_add [OF a(1) this, of v] a show ?thesis by simp
qed

lemma chunk_len:
  assumes "chunk_wf blk c" "4 dvd blk"
  shows "length (raw_cells blk c) = chunk_blocks blk c * blk" "length (fill_cells blk c) = chunk_blocks blk c * blk"
    "length (cells blk c) = chunk_blocks blk c * blk"
  using assms by (cases c; force)+

lemma join_chunk:
  "chunk_wf blk c \<Longrightarrow> 4 dvd blk \<Longrightarrow> map2 join_cell (raw_cells blk c) (fill_cells blk c) = cells blk c"
  by (cases c) (auto intro!: nth_equalityI simp: join_cell_def)

lemma join_cells:
  assumes "list_all (chunk_wf blk) cs" "4 dvd blk"
  shows "length (concat (map (raw_cells blk) cs)) = length (concat (map (fill_cells blk) cs))"
    "map2 join_cell (concat (map (raw_cells blk) cs)) (concat (map (fill_cells blk) cs)) = all_cells blk cs"
  using assms by (induction cs) (simp_all add: chunk_len join_chunk)

section \<open>Total correctness of computations that may not end\<close>

definition ends :: "('s, 'a) dio \<Rightarrow> 's \<Rightarrow> ('a res \<Rightarrow> 's \<Rightarrow> bool) \<Rightarrow> bool" where
  "ends m s Q = (case m s of None \<Rightarrow> False | Some (r, s') \<Rightarrow> Q r s')"

lemma ends_io: "ends (d_io m) s Q = run m s Q"
  by (simp add: ends_def d_io_def run_def)

lemma endsE:
  assumes "ends m s Q"
  obtains r s' where "m s = Some (r, s')" "Q r s'"
  using assms by (auto simp: ends_def split: option.splits)

lemma ends_mono: "ends m s P \<Longrightarrow> (\<And>r s'. P r s' \<Longrightarrow> Q r s') \<Longrightarrow> ends m s Q"
  by (auto simp: ends_def split: option.splits)

lemma ends_thenI:
  assumes "ends m s P" "\<And>v s'. P (Ok v) s' \<Longrightarrow> ends (k v) s' Q"
    "\<And>e s'. P (Err e) s' \<Longrightarrow> Q (Err e) s'" "\<And>s'. P Panic s' \<Longrightarrow> Q Panic s'"
  shows "ends (d_then m k) s Q"
proof -
  obtain r s' where "m s = Some (r, s')" "P r s'" using assms(1) by (rule endsE)
  then show ?thesis
    using assms(2) [of _ s'] assms(3,4) by (cases r) (simp_all add: ends_def d_then_def)
qed

lemma ends_then_lift: "r = Ok v \<Longrightarrow> ends (k v) s Q \<Longrightarrow> ends (d_then (d_io (st_lift r)) k) s Q"
  by (simp add: ends_def d_then_def d_io_def)

section \<open>Storage that takes the writes\<close>

text \<open>
  A writer that stores at \<open>base\<close> of a storage with room for \<open>cap\<close> bytes there. It gives the buffer back
  unchanged; \<open>al\<close> is room that the addresses of its buffers leave below the end of the address space.
\<close>

locale raw_sink =
  fixes w :: "'s raw_writer" and base cap al :: nat and content :: "'s \<Rightarrow> byte list" and invar :: "'s \<Rightarrow> bool"
    and reliable :: bool
  assumes room_law: "invar s \<Longrightarrow> base + cap \<le> length (content s)"
    and cap_law: "invar s \<Longrightarrow> cap < U64"
    and sink_law: "invar s \<Longrightarrow> off + length d \<le> cap \<Longrightarrow> q + length d + al < U64 \<Longrightarrow>
      \<exists>r s'. w off q d s = (r, d, s') \<and> r \<noteq> Panic \<and> invar s'
        \<and> within (base + off) (base + off + length d) (content s) (content s')
        \<and> (r = Ok () \<longrightarrow> content s' = overwrite (base + off) d (content s))
        \<and> (reliable \<longrightarrow> r = Ok ())"
begin

text \<open>What a computation that sets the cells \<open>ps\<close> at \<open>off\<close> promises.\<close>

definition written :: "'s \<Rightarrow> nat \<Rightarrow> byte option list \<Rightarrow> 'a res \<Rightarrow> 's \<Rightarrow> bool" where
  "written s off ps r s' \<longleftrightarrow> invar s' \<and> r \<noteq> Panic
     \<and> within (base + off) (base + off + length ps) (content s) (content s')
     \<and> (is_ok r \<longrightarrow> content s' = patch (base + off) ps (content s)) \<and> (reliable \<longrightarrow> is_ok r)"

lemma written_Ok [simp]:
  "written s off ps (Ok v) s' \<longleftrightarrow> invar s' \<and> content s' = patch (base + off) ps (content s)"
  by (auto simp: written_def within_patch)

lemma written_Err:
  "written s off ps (Err e) s' \<longleftrightarrow> invar s' \<and> \<not> reliable
     \<and> within (base + off) (base + off + length ps) (content s) (content s')"
  by (auto simp: written_def)

lemma written_Err_any: "written s off ps (Err e :: 'a res) s' \<Longrightarrow> written s off ps (Err e :: 'b res) s'"
  unfolding written_def by simp

lemma written_Err_length:
  "written s off xs (Err e :: 'a res) s' \<Longrightarrow> length xs = length ys \<Longrightarrow> written s off ys (Err e :: 'b res) s'"
  unfolding written_def by simp

lemma written_Panic [simp]: "\<not> written s off ps Panic s'"
  by (simp add: written_def)

lemma written_step:
  assumes "written s off xs (Ok v) s'" "written s' (off + length xs) ys r s''"
  shows "written s off (xs @ ys) r s''"
proof (cases r)
  case (Err e)
  have "within (base + off) (base + off + length (xs @ ys)) (content s) (content s')"
    using assms(1) within_patch [of "base + off" xs "content s"] by (auto elim: within_widen)
  moreover have "within (base + off) (base + off + length (xs @ ys)) (content s') (content s'')"
    using assms(2) Err unfolding written_def by (auto elim: within_widen)
  ultimately show ?thesis
    using assms(2) Err within_trans unfolding written_def by auto
qed (use assms in \<open>auto simp: patch_append [symmetric] add.assoc\<close>)

lemma written_stop: "written s off xs (Err e) s' \<Longrightarrow> written s off (xs @ ys) (Err e) s'"
  unfolding written_def by (auto elim: within_widen)

lemma sink_written:
  assumes "invar s" "off + length d \<le> cap" "q + length d + al < U64"
  shows "\<exists>r s'. w off q d s = (r, d, s') \<and> written s off (map Some d) r s'"
proof -
  obtain r s' where "w off q d s = (r, d, s')" "r \<noteq> Panic" "invar s'"
      "within (base + off) (base + off + length d) (content s) (content s')"
      "r = Ok () \<longrightarrow> content s' = overwrite (base + off) d (content s)" "reliable \<longrightarrow> r = Ok ()"
    using sink_law [OF assms] by blast
  moreover have "patch (base + off) (map Some d) (content s) = overwrite (base + off) d (content s)"
    using room_law [OF assms(1)] assms(2) by (intro patch_Some) simp
  ultimately show ?thesis unfolding written_def by (cases r) auto
qed

end

section \<open>Reading headers\<close>

lemma checked_Ok [simp]:
  "v < U64 \<Longrightarrow> to_usize v = Ok v" "v < U64 \<Longrightarrow> to_u64 v = Ok v"
  "a + b < U64 \<Longrightarrow> usize_add a b = Ok (a + b)" "a + b < U64 \<Longrightarrow> u64_add a b = Ok (a + b)"
  by (simp_all add: to_usize_def to_u64_def usize_add_def u64_add_def)

lemma U32_U64: "n < U32 \<Longrightarrow> n < U64"
  by (simp add: U32_def U64_def)

lemma u64_mul_Ok [simp]: "a < U32 \<Longrightarrow> b < U32 \<Longrightarrow> u64_mul a b = Ok (a * b)"
proof -
  assume a: "a < U32" "b < U32"
  then have "a * b < U32 * U32" by (intro mult_strict_mono) auto
  then have "a * b < U64" by (simp add: U32_def U64_def)
  with a show ?thesis by (simp add: u64_mul_def U32_U64)
qed

lemma sparse_get_prefix: "n < U64 \<Longrightarrow> n \<le> length bs \<Longrightarrow> sparse_get bs 0 n = Ok (take n bs)"
  by (simp add: sparse_get_def)

lemma length_chunk_bytes: "length (chunk_bytes blk c) = 12 + length (chunk_payload c)"
  by (simp add: chunk_bytes_def)

lemma drop_chunk_bytes: "drop 12 (chunk_bytes blk c @ ys) = chunk_payload c @ ys"
  by (simp add: chunk_bytes_def)

lemma chunk_blocks_bound: "chunk_wf blk c \<Longrightarrow> chunk_blocks blk c < U32"
  by (cases c) (auto simp: div_less_dividend intro: le_less_trans [OF div_le_dividend])

lemma chunk_payload_bound: "chunk_wf blk c \<Longrightarrow> 12 + length (chunk_payload c) < U32"
  by (cases c) (auto simp: U32_def)

lemma chunk_header_read:
  assumes "chunk_wf blk c"
  shows "copy_from CHUNK_HEADER_SIZE chunk_header_of_bytes (chunk_bytes blk c @ ys) =
    Ok \<lparr> chunk_type = chunk_code c, reserved1 = 0, chunk_sz = chunk_blocks blk c,
         total_sz = length (chunk_bytes blk c) \<rparr>"
proof -
  let ?n = "chunk_blocks blk c" and ?k = "12 + length (chunk_payload c)"
  have b: "chunk_code c < 256 ^ 2" "?n < 256 ^ 4" "?k < 256 ^ 4"
    using chunk_blocks_bound [OF assms] chunk_payload_bound [OF assms]
    by (cases c; simp add: U32_def CHUNK_TYPE_RAW_def CHUNK_TYPE_FILL_def CHUNK_TYPE_DONT_CARE_def CHUNK_TYPE_CRC32_def)+
  have "take 12 (chunk_bytes blk c @ ys) = nat_to_le 2 (chunk_code c) @ nat_to_le 2 0 @ nat_to_le 4 ?n @ nat_to_le 4 ?k"
    by (simp add: chunk_bytes_def)
  then show ?thesis
    using b by (simp add: copy_from_def CHUNK_HEADER_SIZE_def sparse_get_prefix length_chunk_bytes
        chunk_header_of_bytes_def le_at_def)
qed

lemma sparse_header_read:
  assumes "sparse_header_wf h" "take SPARSE_HEADER_SIZE img = sparse_header_bytes h"
  shows "is_sparse_image img = Ok h"
proof -
  have b: "HEADER_MAGIC < 256 ^ 4" "SPARSE_HEADER_MAJOR_VER < 256 ^ 2" "SPARSE_HEADER_MINOR_VER < 256 ^ 2"
    by (simp_all add: HEADER_MAGIC_def SPARSE_HEADER_MAJOR_VER_def SPARSE_HEADER_MINOR_VER_def)
  have "length (take SPARSE_HEADER_SIZE img) = SPARSE_HEADER_SIZE"
    using assms(2) by (simp add: sparse_header_bytes_def SPARSE_HEADER_SIZE_def)
  then have "28 \<le> length img" by (simp add: SPARSE_HEADER_SIZE_def)
  then have "copy_from SPARSE_HEADER_SIZE sparse_header_of_bytes img = Ok (sparse_header_of_bytes (sparse_header_bytes h))"
    using assms(2) by (simp add: copy_from_def sparse_get_prefix SPARSE_HEADER_SIZE_def)
  moreover have "sparse_header_of_bytes (sparse_header_bytes h) = h"
    using assms(1) b by (simp add: sparse_header_of_bytes_def sparse_header_bytes_def le_at_def sparse_header_wf_def U32_def)
  ultimately show ?thesis
    using assms(1) by (simp add: is_sparse_image_def sparse_header_wf_def)
qed

lemma fill_info_read:
  assumes "chunk_wf blk c"
  shows "fill_info_of_bytes (fill_info_bytes (chunk_info blk c)) = chunk_info blk c"
proof -
  have "fill_blocks (chunk_info blk c) < 256 ^ 4" "fill_value_or_skip_blocks (chunk_info blk c) < 256 ^ 4"
    using assms chunk_blocks_bound [OF assms] by (cases c; simp add: new_skip_def U32_def)+
  then show ?thesis by (simp add: fill_info_of_bytes_def fill_info_bytes_def le_at_def)
qed

lemma length_fill_info_bytes [simp]: "length (fill_info_bytes f) = 8"
  by (simp add: fill_info_bytes_def)

lemma run_put_fill_info:
  "foff + 8 \<le> length img \<Longrightarrow> run (st_then (put_fill_info foff f) k) (img, s) Q =
     run (k ()) (overwrite foff (fill_info_bytes f) img, s) Q"
  by (simp add: run_def put_fill_info_def FILL_INFO_SIZE_def)

lemma drop_payload:
  assumes "drop here img = chunk_bytes blk c @ ys"
  shows "here + length (chunk_bytes blk c) \<le> length img" "drop (here + 12) img = chunk_payload c @ ys"
proof -
  have "length (drop here img) = length (chunk_bytes blk c @ ys)" using assms by simp
  then show "here + length (chunk_bytes blk c) \<le> length img" using length_chunk_bytes [of blk c] by auto
  have "drop (here + 12) img = drop 12 (drop here img)" by (simp add: add.commute)
  then show "drop (here + 12) img = chunk_payload c @ ys" by (simp only: assms drop_chunk_bytes)
qed

lemma slice_index_rest: "a \<le> length xs \<Longrightarrow> slice_index a (length xs) xs = Ok (drop a xs)"
  by simp

section \<open>First pass\<close>

context raw_sink
begin

lemma write_image_part_run:
  assumes "invar s" "off + n \<le> cap" "a + n \<le> length img" "p + length img + al < U64"
  shows "run (write_image_part w off p a n) (img, s)
    (\<lambda>r st. written s off (map Some (take n (drop a img))) r (snd st) \<and> fst st = img)"
  using sink_written [of s off "take n (drop a img)" "p + a"] assms
  by (auto simp: run_def write_image_part_def overwrite_self min_absorb2)

lemma write_chunk_run:
  assumes s: "invar s" and c: "chunk_wf blk c" and fit: "woff + chunk_blocks blk c * blk \<le> cap"
    and img: "drop here img = chunk_bytes blk c @ ys" and p: "p + length img + al < U64"
    and h: "chunk_type h = chunk_code c" "chunk_sz h = chunk_blocks blk c"
  shows "run (write_chunk w p h here (chunk_payload c @ ys) (chunk_blocks blk c * blk) woff) (img, s)
    (\<lambda>r st. written s woff (raw_cells blk c) r (snd st) \<and> fst st = img \<and> (\<forall>v. r = Ok v \<longrightarrow> v = chunk_info blk c))"
proof (cases c)
  case (Raw d)
  note d = drop_payload [OF img]
  have n: "chunk_blocks blk c * blk = length d" using c Raw by simp
  have len: "here + 12 + length d \<le> length img" using d(1) Raw by (simp add: length_chunk_bytes)
  have "length d < U64" using fit n cap_law [OF s] by simp
  then have get: "sparse_get (chunk_payload c @ ys) 0 (length d) = Ok d"
    using Raw by (simp add: sparse_get_prefix)
  have td: "take (length d) (drop (here + 12) img) = d" using d(2) Raw by simp
  have "run (write_image_part w woff p (here + 12) (length d)) (img, s)
      (\<lambda>r st. written s woff (map Some d) r (snd st) \<and> fst st = img)"
    using write_image_part_run [OF s _ len p, of woff] fit n td by simp
  then have "run (st_then (write_image_part w woff p (here + 12) (length d)) (\<lambda>_. st_lift (Ok (chunk_info blk c)))) (img, s)
      (\<lambda>r st. written s woff (map Some d) r (snd st) \<and> fst st = img \<and> (\<forall>v. r = Ok v \<longrightarrow> v = chunk_info blk c))"
    by (rule run_thenI) (auto simp: run_simps intro: written_Err_any)
  then show ?thesis
    using h Raw get n \<open>length d < U64\<close> by (simp add: write_chunk_def run_simps CHUNK_HEADER_SIZE_def)
next
  case (Fill n v)
  have "v < 256 ^ 4" using c Fill by (simp add: U32_def)
  then have "new_fill n (nat_from_le (nat_to_le 4 v)) = Ok (chunk_info blk c)"
    using c Fill by (simp add: new_fill_def)
  then show ?thesis
    using h c s Fill sparse_get_prefix [of 4 "chunk_payload c @ ys"]
    by (simp add: write_chunk_def run_simps CHUNK_TYPE_RAW_def CHUNK_TYPE_FILL_def)
next
  case (Dont_care n)
  then show ?thesis
    using h s by (simp add: write_chunk_def run_simps CHUNK_TYPE_RAW_def CHUNK_TYPE_FILL_def CHUNK_TYPE_DONT_CARE_def)
next
  case (Crc32 n v)
  then show ?thesis
    using h s by (simp add: write_chunk_def run_simps CHUNK_TYPE_RAW_def CHUNK_TYPE_FILL_def CHUNK_TYPE_DONT_CARE_def
      CHUNK_TYPE_CRC32_def)
qed

lemma first_pass_step_run:
  assumes s: "invar s" and c: "chunk_wf (blk_sz sh) c" and fit: "woff + chunk_blocks (blk_sz sh) c * blk_sz sh \<le> cap"
    and blk: "blk_sz sh < U32" "4 dvd blk_sz sh"
    and img: "drop here img = chunk_bytes (blk_sz sh) c @ ys" and p: "p + length img + al < U64"
    and foff: "foff \<le> here"
  shows "run (first_pass_step w p sh (here, woff, foff)) (img, s)
    (\<lambda>r st. written s woff (raw_cells (blk_sz sh) c) r (snd st)
       \<and> (\<forall>v. r = Ok v \<longrightarrow> v = (here + length (chunk_bytes (blk_sz sh) c), woff + length (raw_cells (blk_sz sh) c), foff + 8)
            \<and> fst st = overwrite foff (fill_info_bytes (chunk_info (blk_sz sh) c)) img))"
proof -
  let ?blk = "blk_sz sh"
  let ?h = "\<lparr> chunk_type = chunk_code c, reserved1 = 0, chunk_sz = chunk_blocks ?blk c,
         total_sz = length (chunk_bytes ?blk c) \<rparr>"
  let ?n = "chunk_blocks ?blk c * ?blk"
  note d = drop_payload [OF img] length_chunk_bytes [of ?blk c]
  have len: "here + 12 \<le> length img" "length img < U64" using d p by auto
  have sum: "woff + ?n < U64" "foff + 8 < U64" "here + length (chunk_bytes ?blk c) < U64"
    using fit cap_law [OF s] len d foff by auto
  have rd: "slice_index here (length img) img = (Ok (chunk_bytes ?blk c @ ys) :: byte list res)"
    "slice_index (here + 12) (length img) img = (Ok (chunk_payload c @ ys) :: byte list res)"
    using slice_index_rest [of here img] slice_index_rest [of "here + 12" img] len img d(2) by simp_all
  have "run (st_then (write_chunk w p ?h here (chunk_payload c @ ys) ?n woff) (\<lambda>fill.
      st_then (st_lift (u64_add woff ?n)) (\<lambda>write_offset'.
      st_then (put_fill_info foff fill) (\<lambda>_.
      st_then (st_lift (usize_add foff FILL_INFO_SIZE)) (\<lambda>fill_off'.
      st_then (st_lift (usize_add here (total_sz ?h))) (\<lambda>here'.
        st_lift (Ok (here', write_offset', fill_off')))))))) (img, s)
    (\<lambda>r st. written s woff (raw_cells ?blk c) r (snd st)
       \<and> (\<forall>v. r = Ok v \<longrightarrow> v = (here + length (chunk_bytes ?blk c), woff + length (raw_cells ?blk c), foff + 8)
            \<and> fst st = overwrite foff (fill_info_bytes (chunk_info ?blk c)) img))"
    by (rule run_thenI [OF write_chunk_run [OF s c fit img p]])
       (use sum len foff chunk_len [OF c blk(2)] in \<open>auto simp: run_simps run_put_fill_info FILL_INFO_SIZE_def intro: written_Err_any\<close>)
  then show ?thesis
    using rd len chunk_header_read [OF c, of ys] chunk_blocks_bound [OF c] blk
    by (simp add: first_pass_step_def run_simps CHUNK_HEADER_SIZE_def del: slice_index_Ok)
qed

lemma first_pass_run:
  assumes "invar s" "list_all (chunk_wf (blk_sz sh)) cs" "blk_sz sh < U32" "4 dvd blk_sz sh"
    "woff + length (concat (map (raw_cells (blk_sz sh)) cs)) \<le> cap" "p + length img + al < U64" "foff \<le> here"
    "drop here img = concat (map (chunk_bytes (blk_sz sh)) cs) @ ys"
  shows "run (first_pass w p sh (length cs) (here, woff, foff)) (img, s)
    (\<lambda>r st. written s woff (concat (map (raw_cells (blk_sz sh)) cs)) r (snd st)
       \<and> (\<forall>v. r = Ok v \<longrightarrow> snd v = (woff + length (concat (map (raw_cells (blk_sz sh)) cs)), foff + 8 * length cs)
            \<and> length (fst st) = length img \<and> take (foff + 8 * length cs) (fst st)
                = take foff img @ concat (map (\<lambda>c. fill_info_bytes (chunk_info (blk_sz sh) c)) cs)))"
  using assms
proof (induction cs arbitrary: s here woff foff img)
  case Nil
  then show ?case by (simp add: run_def)
next
  case (Cons c cs)
  let ?blk = "blk_sz sh" and ?f = "fill_info_bytes (chunk_info (blk_sz sh) c)"
  let ?rest = "concat (map (chunk_bytes (blk_sz sh)) cs) @ ys"
  have c: "chunk_wf ?blk c" using Cons.prems by simp
  have img: "drop here img = chunk_bytes ?blk c @ ?rest" using Cons.prems by simp
  note d = drop_payload [OF img] length_chunk_bytes [of ?blk c]
  have fit: "woff + chunk_blocks ?blk c * ?blk \<le> cap" using Cons.prems chunk_len [OF c] by simp
  have f: "foff + 8 \<le> here + length (chunk_bytes ?blk c)" "foff + 8 \<le> length img" using Cons.prems(7) d by auto
  have "drop (here + length (chunk_bytes ?blk c)) img = drop (length (chunk_bytes ?blk c)) (drop here img)"
    by (simp add: add.commute)
  also have "\<dots> = ?rest" by (simp only: img append_eq_conv_conj drop_append) simp
  finally have rest: "drop (here + length (chunk_bytes ?blk c)) (overwrite foff ?f img) = ?rest"
    using f d(1) by (simp del: drop_append)
  have pre: "take (foff + 8) (overwrite foff ?f img) = take foff img @ ?f"
    using f by (simp add: overwrite_def)
  have fp: "first_pass w p sh (length (c # cs)) pos =
      st_then (first_pass_step w p sh pos) (\<lambda>pos'. first_pass w p sh (length cs) pos')" for pos
    by simp
  show ?case unfolding fp
  proof (rule run_thenI [OF first_pass_step_run [OF Cons.prems(1) c fit Cons.prems(3,4) img Cons.prems(6,7)]])
    fix v st
    let ?v = "(here + length (chunk_bytes ?blk c), woff + length (raw_cells ?blk c), foff + 8)"
    assume v: "written s woff (raw_cells ?blk c) (Ok v) (snd st) \<and> (\<forall>u. Ok v = Ok u \<longrightarrow> u = ?v
      \<and> fst st = overwrite foff ?f img)"
    then have st: "st = (overwrite foff ?f img, snd st)" and w: "written s woff (raw_cells ?blk c) (Ok v) (snd st)" and [simp]: "v = ?v"
      by (cases st; simp)+
    have "run (first_pass w p sh (length cs) ?v) (overwrite foff ?f img, snd st)
      (\<lambda>r st'. written (snd st) (woff + length (raw_cells ?blk c)) (concat (map (raw_cells ?blk) cs)) r (snd st')
       \<and> (\<forall>v. r = Ok v \<longrightarrow> snd v = (woff + length (raw_cells ?blk c) + length (concat (map (raw_cells ?blk) cs)), foff + 8 + 8 * length cs)
            \<and> length (fst st') = length (overwrite foff ?f img) \<and> take (foff + 8 + 8 * length cs) (fst st')
                = take (foff + 8) (overwrite foff ?f img) @ concat (map (\<lambda>c. fill_info_bytes (chunk_info ?blk c)) cs)))"
      by (rule Cons.IH) (use Cons.prems w rest f in \<open>simp_all add: add.assoc\<close>)
    then have "run (first_pass w p sh (length cs) v) st
      (\<lambda>r st'. written (snd st) (woff + length (raw_cells ?blk c)) (concat (map (raw_cells ?blk) cs)) r (snd st')
       \<and> (\<forall>v. r = Ok v \<longrightarrow> snd v = (woff + length (raw_cells ?blk c) + length (concat (map (raw_cells ?blk) cs)), foff + 8 + 8 * length cs)
            \<and> length (fst st') = length img \<and> take (foff + 8 + 8 * length cs) (fst st')
                = take foff img @ ?f @ concat (map (\<lambda>c. fill_info_bytes (chunk_info ?blk c)) cs)))"
      using st f pre by simp
    then show "run (first_pass w p sh (length cs) v) st
      (\<lambda>r st. written s woff (concat (map (raw_cells ?blk) (c # cs))) r (snd st)
       \<and> (\<forall>v. r = Ok v \<longrightarrow> snd v = (woff + length (concat (map (raw_cells ?blk) (c # cs))), foff + 8 * length (c # cs))
            \<and> length (fst st) = length img \<and> take (foff + 8 * length (c # cs)) (fst st)
                = take foff img @ concat (map (\<lambda>c. fill_info_bytes (chunk_info ?blk c)) (c # cs))))"
      by (rule run_mono) (use w in \<open>auto intro: written_step simp: add.assoc\<close>)
  qed (auto intro: written_stop written_Err_any)
qed

end

section \<open>Second pass\<close>

definition fb_ok :: "fill_buffer \<Rightarrow> bool" where
  "fb_ok fb \<longleftrightarrow> 4 dvd curr_size fb \<and> curr_size fb \<le> length (fb_buffer fb) \<and> 4 \<le> length (fb_buffer fb)
     \<and> (\<forall>v. curr_val fb = Some v \<longrightarrow> take (curr_size fb) (fb_buffer fb) = fill_bytes (curr_size fb) v)"

lemma fill_buffer_get_ok:
  assumes fb: "fb_ok fb" and sz: "4 dvd sz"
  shows "\<exists>n fb'. fill_buffer_get v sz (fb, s) = (Ok n, fb', s) \<and> fb_ok fb' \<and> length (fb_buffer fb') = length (fb_buffer fb)
    \<and> 4 dvd n \<and> n \<le> length (fb_buffer fb) \<and> (0 < sz \<longrightarrow> 0 < n) \<and> take n (fb_buffer fb') = fill_bytes n v"
proof -
  let ?len = "length (fb_buffer fb)"
  define al_len where "al_len = ?len - ?len mod 4"
  define n where "n = min al_len sz"
  define cur where "cur = (if Some v \<noteq> curr_val fb then 0 else curr_size fb)"
  define gap where "gap = max cur n - cur"
  define b where "b = overwrite cur (fill_bytes gap v) (fb_buffer fb)"
  have len: "4 \<le> ?len" and cs: "4 dvd curr_size fb" "curr_size fb \<le> ?len" using fb by (auto simp: fb_ok_def)
  have al: "4 dvd al_len" "al_len \<le> ?len" by (simp_all add: al_len_def dvd_minus_mod)
  have al_pos: "0 < al_len"
  proof -
    have "?len mod 4 < 4" by simp
    with len show ?thesis unfolding al_len_def by linarith
  qed
  have n: "4 dvd n" "n \<le> ?len" "0 < sz \<longrightarrow> 0 < n" using al al_pos sz by (auto simp: n_def min_def)
  have cur: "4 dvd cur" "cur \<le> ?len" "take cur (fb_buffer fb) = fill_bytes cur v"
    using fb cs by (auto simp: cur_def fb_ok_def)
  have gap: "4 dvd gap" "cur + gap = max cur n" using n cur by (auto simp: gap_def max_def)
  then have fits: "cur + gap \<le> ?len" using n cur by simp
  have b: "length b = ?len" "take (cur + gap) b = fill_bytes (cur + gap) v"
    using fits gap(1) cur by (simp_all add: b_def overwrite_def fill_bytes_add)
  have "take n b = take n (take (cur + gap) b)" using gap(2) by (simp add: min_absorb1)
  also have "\<dots> = fill_bytes n v" unfolding b(2) using take_fill_bytes [OF n(1) dvd_add [OF cur(1) gap(1)]] gap(2) by simp
  finally have tn: "take n b = fill_bytes n v" .
  have "fill_buffer_get v sz (fb, s) = (Ok n, \<lparr> curr_val = Some v, curr_size = cur + gap, fb_buffer = b \<rparr>, s)"
    using fits gap(1) n(2) by (simp add: fill_buffer_get_def Let_def fill_bytes_def
        flip: al_len_def n_def cur_def gap_def b_def [unfolded fill_bytes_def])
  moreover have "fb_ok \<lparr> curr_val = Some v, curr_size = cur + gap, fb_buffer = b \<rparr>"
    using b fits dvd_add [OF cur(1) gap(1)] len by (simp add: fb_ok_def)
  ultimately show ?thesis using n b(1) tn by auto
qed

lemma chunk_info_get:
  "chunk_wf blk c \<Longrightarrow> get_blocks_and_value (chunk_info blk c) =
     (case c of Fill n v \<Rightarrow> (n, Some v) | _ \<Rightarrow> (chunk_blocks blk c, None))"
  by (cases c) (auto simp: get_blocks_and_value_def new_skip_def)

context raw_sink
begin

lemma fill_write_loop_ends:
  assumes "invar s" "off \<le> stop" "stop \<le> cap" "4 dvd n" "4 dvd stop - off" "0 < n \<or> off = stop"
    "take n (fb_buffer fb) = fill_bytes n v" "n \<le> length (fb_buffer fb)" "q + length (fb_buffer fb) + al < U64"
  shows "ends (fill_write_loop w q n off stop) (fb, s)
    (\<lambda>r st. written s off (map Some (fill_bytes (stop - off) v)) r (snd st) \<and> fst st = fb \<and> (\<forall>x. r = Ok x \<longrightarrow> x = stop))"
  using assms
proof (induction "stop - off" arbitrary: off s rule: less_induct)
  case less
  show ?case
  proof (cases "off < stop")
    case False
    then show ?thesis using less.prems by (simp add: ends_def fill_write_loop.simps [of w q n stop stop])
  next
    case True
    let ?k = "min n (stop - off)" and ?b = "fb_buffer fb"
    have k: "4 dvd ?k" "0 < ?k" using less.prems(4-6) True by (auto simp: min_def)
    have tk: "take ?k ?b = fill_bytes ?k v"
    proof -
      have "take ?k ?b = take ?k (take n ?b)" by (simp add: min_absorb1)
      then show ?thesis using less.prems(4,7) k(1) take_fill_bytes [of ?k n v] by simp
    qed
    have fb: "fb\<lparr> fb_buffer := overwrite 0 (take ?k ?b) ?b \<rparr> = fb"
      using overwrite_self [of 0 ?k ?b] less.prems(8) by simp
    have split: "fill_bytes (stop - off) v = fill_bytes ?k v @ fill_bytes (stop - (off + ?k)) v"
    proof -
      have "4 dvd stop - off - ?k" using k(1) less.prems(5) by (rule dvd_diff_nat [rotated])
      from fill_bytes_add [OF k(1) this, of v] show ?thesis by (simp only: diff_diff_left [symmetric] le_add_diff_inverse min.cobounded2)
    qed
    obtain r s' where w: "w off q (take ?k ?b) s = (r, take ?k ?b, s')" "written s off (map Some (fill_bytes ?k v)) r s'"
    proof -
      have len: "length (take ?k ?b) = ?k" using less.prems(8) by simp
      have "off + ?k \<le> cap" "q + ?k + al < U64" using less.prems(2,3,8,9) by linarith+
      then show ?thesis using sink_written [OF less.prems(1), of off "take ?k ?b" q, unfolded len] that
        unfolding tk by blast
    qed
    show ?thesis
    proof (cases r)
      case (Ok u)
      have "ends (fill_write_loop w q n (off + ?k) stop) (fb, s')
          (\<lambda>r st. written s' (off + ?k) (map Some (fill_bytes (stop - (off + ?k)) v)) r (snd st) \<and> fst st = fb
             \<and> (\<forall>x. r = Ok x \<longrightarrow> x = stop))"
      proof (rule less.hyps)
        show "4 dvd stop - (off + ?k)" using dvd_diff_nat [OF less.prems(5) k(1)] by (simp only: diff_diff_left)
        show "invar s'" using w(2) Ok by simp
        show "off + ?k \<le> stop" "stop - (off + ?k) < stop - off" using True k(2) by linarith+
        show "0 < n \<or> off + ?k = stop" using k(2) by simp
      qed (use less.prems in \<open>simp_all only:\<close>)
      then have "ends (fill_write_loop w q n (off + ?k) stop) (fb, s')
          (\<lambda>r st. written s off (map Some (fill_bytes (stop - off) v)) r (snd st) \<and> fst st = fb
             \<and> (\<forall>x. r = Ok x \<longrightarrow> x = stop))"
        by (rule ends_mono)
           (use w(2) Ok k(1) written_step [of s off "map Some (fill_bytes ?k v)"] in \<open>auto simp: split\<close>)
      then show ?thesis
        using True w(1) Ok fb by (simp add: ends_def fill_write_loop.simps [of w q n off] Let_def)
    next
      case (Err e)
      then have "written s off (map Some (fill_bytes (stop - off) v)) (Err e :: nat res) s'"
        using w(2) by (auto simp: split intro: written_stop written_Err_any)
      then show ?thesis
        using True w(1) Err fb by (simp add: ends_def fill_write_loop.simps [of w q n off] Let_def)
    qed (use w(2) in simp)
  qed
qed

lemma second_pass_step_ends:
  assumes s: "invar s" and c: "chunk_wf (blk_sz sh) c" and blk: "blk_sz sh < U32" "4 dvd blk_sz sh"
    and fit: "off + length (fill_cells (blk_sz sh) c) \<le> cap" and fb: "fb_ok fb" "q + length (fb_buffer fb) + al < U64"
  shows "ends (second_pass_step w q sh (chunk_info (blk_sz sh) c) off) (fb, s)
    (\<lambda>r st. written s off (fill_cells (blk_sz sh) c) r (snd st)
       \<and> (\<forall>x. r = Ok x \<longrightarrow> x = off + length (fill_cells (blk_sz sh) c) \<and> fb_ok (fst st)
            \<and> length (fb_buffer (fst st)) = length (fb_buffer fb)))"
proof -
  let ?blk = "blk_sz sh"
  have len: "length (fill_cells ?blk c) = chunk_blocks ?blk c * ?blk" using chunk_len [OF c blk(2)] by simp
  have mul: "u64_mul (chunk_blocks ?blk c) ?blk = Ok (chunk_blocks ?blk c * ?blk)"
    using chunk_blocks_bound [OF c] blk by simp
  have off: "off + chunk_blocks ?blk c * ?blk < U64" using fit len cap_law [OF s] by simp
  show ?thesis
  proof (cases "\<exists>n v. c = Fill n v")
    case False
    then have "get_blocks_and_value (chunk_info ?blk c) = (chunk_blocks ?blk c, None)"
      "fill_cells ?blk c = replicate (chunk_blocks ?blk c * ?blk) None"
      using chunk_info_get [OF c] by (cases c; simp)+
    then show ?thesis
      using mul off s fb by (simp add: second_pass_step_def ends_io run_lift)
  next
    case True
    then obtain n v where F: "c = Fill n v" by blast
    let ?sz = "n * ?blk"
    have sz: "4 dvd ?sz" "length (fill_cells ?blk c) = ?sz" using blk(2) len F by simp_all
    obtain m fb' where get: "fill_buffer_get v ?sz (fb, s) = (Ok m, fb', s)" "fb_ok fb'"
        "length (fb_buffer fb') = length (fb_buffer fb)" "4 dvd m" "m \<le> length (fb_buffer fb)" "0 < ?sz \<longrightarrow> 0 < m"
        "take m (fb_buffer fb') = fill_bytes m v"
      using fill_buffer_get_ok [OF fb(1) sz(1), of v s] by (elim exE conjE) (rule that)
    have mU: "m < U64" using get(5) fb(2) by simp
    have loop: "ends (fill_write_loop w q m off (off + ?sz)) (fb', s)
      (\<lambda>r st. written s off (map Some (fill_bytes (off + ?sz - off) v)) r (snd st) \<and> fst st = fb' \<and> (\<forall>x. r = Ok x \<longrightarrow> x = off + ?sz))"
    proof (rule fill_write_loop_ends [OF s])
      show "0 < m \<or> off = off + ?sz" using get(6) by (cases "?sz = 0") simp_all
      show "off + ?sz \<le> cap" using fit sz(2) by (simp only:)
      show "q + length (fb_buffer fb') + al < U64" "m \<le> length (fb_buffer fb')" using fb(2) get(3,5) by (simp_all only:)
    qed (use get(4,7) sz(1) in simp_all)
    have eq: "second_pass_step w q sh (chunk_info ?blk c) off (fb, s) = fill_write_loop w q m off (off + ?sz) (fb', s)"
      using chunk_info_get [OF c] mul off get(1) mU F
      by (simp add: second_pass_step_def d_then_def d_io_def)
    have "ends (second_pass_step w q sh (chunk_info ?blk c) off) (fb, s)
      (\<lambda>r st. written s off (map Some (fill_bytes ?sz v)) r (snd st) \<and> fst st = fb' \<and> (\<forall>x. r = Ok x \<longrightarrow> x = off + ?sz))"
      using loop by (simp add: ends_def eq)
    then show ?thesis
      by (rule ends_mono) (use get(2,3) sz F in auto)
  qed
qed

lemma second_pass_ends:
  assumes "invar s" "list_all (chunk_wf (blk_sz sh)) cs" "blk_sz sh < U32" "4 dvd blk_sz sh"
    "off + length (concat (map (fill_cells (blk_sz sh)) cs)) \<le> cap" "fb_ok fb" "q + length (fb_buffer fb) + al < U64"
  shows "ends (second_pass w q sh (map (chunk_info (blk_sz sh)) cs) off) (fb, s)
    (\<lambda>r st. written s off (concat (map (fill_cells (blk_sz sh)) cs)) r (snd st))"
  using assms
proof (induction cs arbitrary: s off fb)
  case Nil
  then show ?case by (simp add: ends_def d_io_def)
next
  case (Cons c cs)
  let ?blk = "blk_sz sh"
  have c: "chunk_wf ?blk c" "off + length (fill_cells ?blk c) \<le> cap" using Cons.prems by auto
  show ?case
    unfolding list.map second_pass.simps
  proof (rule ends_thenI [OF second_pass_step_ends [OF Cons.prems(1) c(1) Cons.prems(3,4) c(2) Cons.prems(6,7)]])
    fix v st
    assume "written s off (fill_cells ?blk c) (Ok v) (snd st) \<and> (\<forall>x. Ok v = Ok x \<longrightarrow> x = off + length (fill_cells ?blk c)
      \<and> fb_ok (fst st) \<and> length (fb_buffer (fst st)) = length (fb_buffer fb))"
    then have w: "written s off (fill_cells ?blk c) (Ok v) (snd st)" and v: "v = off + length (fill_cells ?blk c)"
      and st: "fb_ok (fst st)" "length (fb_buffer (fst st)) = length (fb_buffer fb)" by auto
    have "ends (second_pass w q sh (map (chunk_info ?blk) cs) v) (fst st, snd st)
      (\<lambda>r st'. written (snd st) v (concat (map (fill_cells ?blk) cs)) r (snd st'))"
      by (rule Cons.IH) (use Cons.prems w v st in auto)
    then show "ends (second_pass w q sh (map (chunk_info ?blk) cs) v) st
      (\<lambda>r st. written s off (concat (fill_cells ?blk c # map (fill_cells ?blk) cs)) r (snd st))"
      using w v by (auto elim!: ends_mono intro: written_step)
  qed (auto intro: written_stop)
qed

lemma written_join:
  assumes "written s off xs (Ok v) s'" "written s' off ys r s''" "length xs = length ys"
  shows "written s off (map2 join_cell xs ys) r s''"
proof (cases r)
  case (Err e)
  have "within (base + off) (base + off + length ys) (content s) (content s')"
    using assms(1,3) within_patch [of "base + off" xs "content s"] by simp
  then show ?thesis
    using assms(2,3) Err within_trans unfolding written_def by auto
qed (use assms in \<open>auto simp: patch_join\<close>)

lemma write_fills_ends:
  assumes "invar s" "list_all (chunk_wf (blk_sz sh)) cs" "blk_sz sh < U32" "4 dvd blk_sz sh"
    "length (concat (map (fill_cells (blk_sz sh)) cs)) \<le> cap" "p + length img + al < U64"
    "take (8 * length cs) img = concat (map (\<lambda>c. fill_info_bytes (chunk_info (blk_sz sh) c)) cs)"
    "8 * length cs + 4 \<le> length img"
  shows "ends (write_fills w p sh (8 * length cs)) (img, s)
    (\<lambda>r st. written s 0 (concat (map (fill_cells (blk_sz sh)) cs)) r (snd st))"
proof -
  let ?f = "\<lambda>c. fill_info_bytes (chunk_info (blk_sz sh) c)" and ?n = "length cs"
  let ?fb = "\<lparr> curr_val = None, curr_size = 0, fb_buffer = drop (8 * ?n) img \<rparr>"
  have "chunks 8 (length (map ?f cs)) (concat (map ?f cs) @ drop (8 * ?n) img) = map ?f cs"
    by (rule chunks_concat) simp
  then have "chunks 8 ?n img = map ?f cs" unfolding assms(7) [symmetric] by simp
  moreover have "map (fill_info_of_bytes \<circ> ?f) cs = map (chunk_info (blk_sz sh)) cs"
    using assms(2) fill_info_read by (auto simp: list_all_iff)
  ultimately have infos: "map fill_info_of_bytes (chunks 8 ?n img) = map (chunk_info (blk_sz sh)) cs" by simp
  have "ends (second_pass w (p + 8 * ?n) sh (map (chunk_info (blk_sz sh)) cs) 0) (?fb, s)
      (\<lambda>r st. written s 0 (concat (map (fill_cells (blk_sz sh)) cs)) r (snd st))"
    by (rule second_pass_ends) (use assms in \<open>auto simp: fb_ok_def\<close>)
  then show ?thesis
    using assms(8) by (auto simp: ends_def write_fills_def FILL_INFO_SIZE_def infos split: option.splits)
qed

lemma write_sparse_image_ends:
  assumes img: "sparse_image h cs img" and s: "invar s" and fit: "length (all_cells (blk_sz h) cs) \<le> cap"
    and p: "p + length img + al < U64"
  shows "ends (write_sparse_image w p) (img, s)
    (\<lambda>r st. written s 0 (all_cells (blk_sz h) cs) r (snd st) \<and> (\<forall>v. r = Ok v \<longrightarrow> v = length (all_cells (blk_sz h) cs)))"
proof -
  let ?blk = "blk_sz h" and ?cb = "concat (map (chunk_bytes (blk_sz h)) cs)"
  let ?raw = "concat (map (raw_cells (blk_sz h)) cs)" and ?fill = "concat (map (fill_cells (blk_sz h)) cs)"
  have wf: "list_all (chunk_wf ?blk) cs" "4 dvd ?blk" "?blk < U32" "total_chunks h = length cs" "sparse_header_wf h"
    using img by (auto simp: sparse_image_def sparse_header_wf_def)
  have t: "take (28 + length ?cb) img = sparse_header_bytes h @ ?cb"
    using img by (simp add: sparse_image_def SPARSE_HEADER_SIZE_def)
  have hl: "length (sparse_header_bytes h) = 28" by (simp add: sparse_header_bytes_def)
  have "length (take (28 + length ?cb) img) = 28 + length ?cb" by (simp only: t length_append hl)
  then have len: "28 + length ?cb \<le> length img" by simp
  have img_eq: "img = sparse_header_bytes h @ ?cb @ drop (28 + length ?cb) img"
    using append_take_drop_id [of "28 + length ?cb" img, unfolded t] by simp
  have hd: "take 28 img = sparse_header_bytes h" "drop 28 img = ?cb @ drop (28 + length ?cb) img"
    by (subst img_eq, simp add: hl)+
  have ok: "is_sparse_image img = Ok h"
    by (rule sparse_header_read [OF wf(5)]) (simp add: SPARSE_HEADER_SIZE_def hd)
  have n12: "12 * length cs \<le> length ?cb" by (induction cs) (simp_all add: length_chunk_bytes)
  note join = join_cells [OF wf(1,2)]
  have lens: "length ?raw = length (all_cells ?blk cs)" "length ?fill = length (all_cells ?blk cs)"
    using arg_cong [OF join(2), of length] join(1) by simp_all
  have first: "run (first_pass w p h (length cs) (28, 0, 0)) (img, s)
      (\<lambda>r st. written s 0 ?raw r (snd st) \<and> (\<forall>v. r = Ok v \<longrightarrow> snd v = (0 + length ?raw, 0 + 8 * length cs)
            \<and> length (fst st) = length img \<and> take (0 + 8 * length cs) (fst st)
                = take 0 img @ concat (map (\<lambda>c. fill_info_bytes (chunk_info ?blk c)) cs)))"
    by (rule first_pass_run [OF s wf(1,3,2) _ p _ hd(2)]) (use fit lens in simp_all)
  have rest: "ends (d_then (d_io (first_pass w p h (length cs) (28, 0, 0))) (\<lambda>(here, total, fill_off).
      d_then (write_fills w p h fill_off) (\<lambda>_. d_io (st_lift (Ok total))))) (img, s)
    (\<lambda>r st. written s 0 (all_cells ?blk cs) r (snd st) \<and> (\<forall>v. r = Ok v \<longrightarrow> v = length (all_cells ?blk cs)))"
  proof (rule ends_thenI [OF first [folded ends_io]])
    fix v and st :: "byte list \<times> 's"
    assume "written s 0 ?raw (Ok v) (snd st) \<and> (\<forall>u. Ok v = Ok u \<longrightarrow> snd u = (0 + length ?raw, 0 + 8 * length cs)
            \<and> length (fst st) = length img \<and> take (0 + 8 * length cs) (fst st)
                = take 0 img @ concat (map (\<lambda>c. fill_info_bytes (chunk_info ?blk c)) cs))"
    then have w: "written s 0 ?raw (Ok v) (snd st)" and v: "v = (fst v, length ?raw, 8 * length cs)"
      and st: "length (fst st) = length img"
        "take (8 * length cs) (fst st) = concat (map (\<lambda>c. fill_info_bytes (chunk_info ?blk c)) cs)"
      by (cases v; simp)+
    have "ends (write_fills w p h (8 * length cs)) (fst st, snd st) (\<lambda>r st'. written (snd st) 0 ?fill r (snd st'))"
      by (rule write_fills_ends) (use w wf st fit lens p len n12 in auto)
    then have "ends (d_then (write_fills w p h (8 * length cs)) (\<lambda>_. d_io (st_lift (Ok (length ?raw))))) st
      (\<lambda>r st. written s 0 (all_cells ?blk cs) r (snd st) \<and> (\<forall>v. r = Ok v \<longrightarrow> v = length (all_cells ?blk cs)))"
      unfolding prod.collapse
    proof (rule ends_thenI)
      fix u and st' :: "byte list \<times> 's" assume "written (snd st) 0 ?fill (Ok u) (snd st')"
      from written_join [OF w this join(1), unfolded join(2)]
      show "ends (d_io (st_lift (Ok (length ?raw)))) st' (\<lambda>r st. written s 0 (all_cells ?blk cs) r (snd st)
          \<and> (\<forall>v. r = Ok v \<longrightarrow> v = length (all_cells ?blk cs)))"
        using lens(1) by (simp add: ends_io run_lift)
    next
      fix e and st' :: "byte list \<times> 's" assume "written (snd st) 0 ?fill (Err e :: nat res) (snd st')"
      from written_join [OF w this join(1), unfolded join(2)]
      show "written s 0 (all_cells ?blk cs) (Err e :: nat res) (snd st')
          \<and> (\<forall>v. Err e = Ok v \<longrightarrow> v = length (all_cells ?blk cs))" by simp
    qed simp
    then show "ends (case v of (here, n, fill_off) \<Rightarrow>
        d_then (write_fills w p h fill_off) (\<lambda>_. d_io (st_lift (Ok n)))) st
      (\<lambda>r st. written s 0 (all_cells ?blk cs) r (snd st) \<and> (\<forall>v. r = Ok v \<longrightarrow> v = length (all_cells ?blk cs)))"
      by (subst v) simp
  qed (auto intro: written_Err_length [OF _ lens(1)])
  show ?thesis
    unfolding write_sparse_image_def
    by (rule ends_thenI [where P = "\<lambda>r st. r = Ok h \<and> st = (img, s)"])
       (use ok rest wf(4) in \<open>auto simp: ends_io run_gets SPARSE_HEADER_SIZE_def\<close>)
qed

end

end
