(* ===== verification/Partition_Correct.thy ===== *)
theory Partition_Correct
  imports Gbl_Partition Sparse_Correct Gpt_Ram
begin

text \<open>
  Properties of partition input and output. Every block device gives a storage for sparse images (the
  sublocale \<open>sink\<close>), so the result of writing one carries over to RAM disks with and without errors.
\<close>

section \<open>Ranges\<close>

lemma check_rw_range_eq:
  assumes "part_end pio < U64"
  shows "check_rw_range off n pio =
    (if part_start pio + off + n \<le> part_end pio then Ok (part_start pio + off) else Err OutOfRange)"
  using assms by (auto simp: check_rw_range_def Let_def split: if_splits)


section \<open>Writing sparse images\<close>

lemma torn_within: "torn c off d c' \<Longrightarrow> within off (off + length d) c c'"
  by (auto simp: torn_def within_def)

sublocale block_device \<subseteq> sink: raw_sink "disk_raw_write io base" base cap al "\<lambda>d. content (disk_io d)"
  "\<lambda>d. disk_ok d \<and> base + cap \<le> total" reliable for base cap :: nat
proof
  fix s assume s: "disk_ok s \<and> base + cap \<le> total"
  have len: "length (content (disk_io s)) = total" using s by (simp add: disk_ok_length)
  then show "base + cap \<le> length (content (disk_io s))" using s by simp
  have geo: "geometry info" using s by (auto simp: disk_ok_def geometry_law)
  have tot: "total < U64" using geometryD [OF geo] by simp
  then show "cap < U64" using s by simp
  fix off q :: nat and d :: "byte list" assume a: "off + length d \<le> cap" "q + length d + al < U64"
  have pos: "base + off < U64" using s a tot by simp
  obtain r d' where w: "disk_write io (off + base) q d s = (r, d, d')" "disk_ok d'"
      "wr (content (disk_io s)) (off + base) d r (content (disk_io d'))"
    using disk_write_ok [of s "off + base" q d] s a pos by (auto simp: addr_ok_def add.commute)
  then show "\<exists>r s'. disk_raw_write io base off q d s = (r, d, s') \<and> r \<noteq> Panic \<and> (disk_ok s' \<and> base + cap \<le> total)
      \<and> within (base + off) (base + off + length d) (content (disk_io s)) (content (disk_io s'))
      \<and> (r = Ok () \<longrightarrow> content (disk_io s') = overwrite (base + off) d (content (disk_io s)))
      \<and> (reliable \<longrightarrow> r = Ok ())"
    using s a pos torn_within [of "content (disk_io s)" "off + base" d "content (disk_io d')"]
    by (auto simp: disk_raw_write_def wr_def add.commute)
qed

text \<open>Writing to a partition is writing to the disk from the partition's start, if the declared size fits.\<close>

lemma pio_write_sparse_eq:
  assumes "sparse_image h cs img" "part_end pio < U64" "part_start pio + off + data_size h \<le> part_end pio"
  shows "pio_write_sparse io off p (img, pio) =
    map_option (\<lambda>(r, img', d). (map_ok (\<lambda>_. ()) r, img', pio\<lparr> pio_disk := d \<rparr>))
      (write_sparse_image (disk_raw_write io (part_start pio + off)) p (img, pio_disk pio))"
proof -
  have "take SPARSE_HEADER_SIZE (take (SPARSE_HEADER_SIZE + length (concat (map (chunk_bytes (blk_sz h)) cs))) img)
      = sparse_header_bytes h"
    using assms(1) by (simp add: sparse_image_def) (simp add: sparse_header_bytes_def SPARSE_HEADER_SIZE_def)
  then have "is_sparse_image img = Ok h"
    using assms(1) by (intro sparse_header_read) (simp_all add: sparse_image_def min_absorb1)
  then show ?thesis
    using assms by (simp add: pio_write_sparse_def check_rw_range_eq)
qed

lemma write_sparse_ok:
  assumes "ram_disk_ok info (pio_disk pio)" "sparse_image h cs img" "part_end pio < U64"
    "part_start pio + off + data_size h \<le> part_end pio"
    "part_start pio + off + length (all_cells (blk_sz h) cs) \<le> num_blocks info * block_size info"
    "p + length img + alignment info < U64"
  shows "\<exists>img' d'. pio_write_sparse ram_block_ops off p (img, pio) = Some (Ok (), img', pio\<lparr> pio_disk := d' \<rparr>)
    \<and> ram_disk_ok info d' \<and> storage (disk_io d')
        = patch (part_start pio + off) (all_cells (blk_sz h) cs) (storage (disk_io (pio_disk pio)))"
proof -
  let ?base = "part_start pio + off" and ?cap = "length (all_cells (blk_sz h) cs)"
  have "ends (write_sparse_image (disk_raw_write ram_block_ops ?base) p) (img, pio_disk pio)
    (\<lambda>r st. ram.sink.written ?base info ?cap (pio_disk pio) 0 (all_cells (blk_sz h) cs) r (snd st)
       \<and> (\<forall>v. r = Ok v \<longrightarrow> v = ?cap))"
    by (rule ram.sink.write_sparse_image_ends [OF assms(2)]) (use assms in \<open>simp_all add: ram_disk_ok_eq\<close>)
  then obtain r st where "write_sparse_image (disk_raw_write ram_block_ops ?base) p (img, pio_disk pio) = Some (r, st)"
      "ram.sink.written ?base info ?cap (pio_disk pio) 0 (all_cells (blk_sz h) cs) r (snd st)"
    by (rule endsE) blast
  then obtain img' d' where w: "write_sparse_image (disk_raw_write ram_block_ops ?base) p (img, pio_disk pio) = Some (r, img', d')"
      "ram.sink.written ?base info ?cap (pio_disk pio) 0 (all_cells (blk_sz h) cs) r d'"
    by (cases st) simp
  have facts: "is_ok r" "ram_disk_ok info d'"
      "storage (disk_io d') = patch ?base (all_cells (blk_sz h) cs) (storage (disk_io (pio_disk pio)))"
    using w(2) [unfolded ram.sink.written_def] by (auto simp: ram_disk_ok_eq)
  then obtain v where r: "r = Ok v" by (cases r) auto
  show ?thesis
    by (rule exI [of _ img'], rule exI [of _ d']) (simp add: pio_write_sparse_eq [OF assms(2-4)] w(1) r facts)
qed


section \<open>Look-up over several disks\<close>



section \<open>Properties\<close>

text \<open>An image of a raw, a fill and a don't-care chunk of one block each, and one that declares a single block.\<close>

definition sample_chunks :: "chunk list" where
  "sample_chunks = [Raw [100, 101, 102, 103], Fill 1 0x07070707, Dont_care 1]"

definition sample_sparse_header :: "nat \<Rightarrow> sparse_header" where
  "sample_sparse_header n = \<lparr> sh_magic = HEADER_MAGIC, major_version = SPARSE_HEADER_MAJOR_VER,
     minor_version = SPARSE_HEADER_MINOR_VER, file_hdr_sz = 28, chunk_hdr_sz = 12, blk_sz = 4, total_blks = n,
     total_chunks = 3, image_checksum = 0 \<rparr>"

definition sample_sparse :: "nat \<Rightarrow> byte list" where
  "sample_sparse n = sparse_header_bytes (sample_sparse_header n) @ concat (map (chunk_bytes 4) sample_chunks)"

definition sample_pio :: "nat \<Rightarrow> ram_block_io partition_io" where
  "sample_pio stop = \<lparr> pio_disk = sample_disk, part_start = 4, part_end = stop \<rparr>"

lemma sample_sparse_image: "n < U32 \<Longrightarrow> sparse_image (sample_sparse_header n) sample_chunks (sample_sparse n)"
proof -
  have "(4 :: nat) dvd Suc (Suc (Suc (Suc 0)))" by presburger
  then show "n < U32 \<Longrightarrow> sparse_image (sample_sparse_header n) sample_chunks (sample_sparse n)"
    by (simp add: sparse_image_def sample_sparse_header_def sample_chunks_def sample_sparse_def sparse_header_wf_def U32_def)
       (simp add: sparse_header_bytes_def SPARSE_HEADER_SIZE_def)
qed

lemma sample_cells:
  "all_cells 4 sample_chunks = [Some 100, Some 101, Some 102, Some 103, Some 7, Some 7, Some 7, Some 7, None, None, None, None]"
proof -
  have "nat_to_le 4 0x07070707 = [7, 7, 7, 7]" by (simp add: nat_to_le_4)
  moreover have "replicate 4 (None :: byte option) = [None, None, None, None]" by code_simp
  ultimately show ?thesis by (simp add: sample_chunks_def fill_bytes_def)
qed

lemma sample_patch:
  "patch 4 (all_cells 4 sample_chunks) (storage (disk_io sample_disk)) =
     [0, 1, 2, 3, 100, 101, 102, 103, 7, 7, 7, 7, 12, 13, 14, 15]"
  unfolding sample_cells patch_def sample_disk_def by code_simp

lemma sample_sparse_length: "length (sample_sparse n) = 72"
  by (simp add: sample_sparse_def sparse_header_bytes_def sample_chunks_def chunk_bytes_def)

text \<open>
  C13. Writing a sparse image to a partition, whose declared size fits the partition and whose chunks do not exceed
  the declared size, returns, and the disk then holds the bytes of the raw and fill chunks at their places in the
  partition and its old bytes everywhere else.
\<close>

theorem sparse_write_exact:
  assumes "ram_disk_ok info (pio_disk pio)" "sparse_image h cs img" "length (all_cells (blk_sz h) cs) \<le> data_size h"
    "part_start pio + off + data_size h \<le> part_end pio" "part_end pio \<le> num_blocks info * block_size info"
    "p + length img + alignment info < U64"
  shows "\<exists>img' d'. pio_write_sparse ram_block_ops off p (img, pio) = Some (Ok (), img', pio\<lparr> pio_disk := d' \<rparr>)
    \<and> ram_disk_ok info d' \<and> storage (disk_io d')
        = patch (part_start pio + off) (all_cells (blk_sz h) cs) (storage (disk_io (pio_disk pio)))"
proof (rule write_sparse_ok [OF assms(1,2)])
  show "part_end pio < U64" using ram_total_less [OF assms(1), of 0 "part_end pio"] assms(5) by simp
qed (use assms in simp_all)

theorem sparse_write_exact_witness:
  "\<exists>img' d'. pio_write_sparse ram_block_ops 0 40 (sample_sparse 3, sample_pio 16) = Some (Ok (), img', sample_pio 16\<lparr> pio_disk := d' \<rparr>)
    \<and> storage (disk_io d') = [0, 1, 2, 3, 100, 101, 102, 103, 7, 7, 7, 7, 12, 13, 14, 15]"
  using sparse_write_exact [of sample_info "sample_pio 16" "sample_sparse_header 3" sample_chunks "sample_sparse 3" 0 40]
    sample_disk_ok sample_sparse_image [of 3] sample_patch sample_cells sample_sparse_length
  by (simp add: sample_pio_def sample_sparse_header_def data_size_def sample_info_def U32_def) blast



text \<open>
  C40. The range check of a sparse write trusts the size that the header declares. When the chunks of the image describe
  more, the write succeeds and overwrites the bytes after the end of the partition, as far as the disk reaches.
\<close>

theorem sparse_write_escapes_partition:
  assumes "ram_disk_ok info (pio_disk pio)" "sparse_image h cs img" "part_start pio + off + data_size h \<le> part_end pio"
    "part_end pio \<le> i" "i < part_start pio + off + length (all_cells (blk_sz h) cs)"
    "part_start pio + off + length (all_cells (blk_sz h) cs) \<le> num_blocks info * block_size info"
    "all_cells (blk_sz h) cs ! (i - (part_start pio + off)) = Some b" "p + length img + alignment info < U64"
  shows "\<exists>img' d'. pio_write_sparse ram_block_ops off p (img, pio) = Some (Ok (), img', pio\<lparr> pio_disk := d' \<rparr>)
    \<and> storage (disk_io d') ! i = b"
proof -
  have "part_end pio < U64" using ram_total_less [OF assms(1), of 0 "part_end pio"] assms(4-6) by simp
  from write_sparse_ok [OF assms(1,2) this assms(3,6,8)] obtain img' d' where
      w: "pio_write_sparse ram_block_ops off p (img, pio) = Some (Ok (), img', pio\<lparr> pio_disk := d' \<rparr>)"
        "storage (disk_io d') = patch (part_start pio + off) (all_cells (blk_sz h) cs) (storage (disk_io (pio_disk pio)))"
    by blast
  have "length (storage (disk_io (pio_disk pio))) = num_blocks info * block_size info"
    using assms(1) by (simp add: ram_disk_ok_def ram_disk_usable_def ram_ok_def)
  then have "storage (disk_io d') ! i = b"
    using w(2) assms(3-7) by (simp add: nth_patch)
  with w(1) show ?thesis by blast
qed

theorem sparse_write_escapes_partition_witness:
  "\<exists>img' d'. pio_write_sparse ram_block_ops 0 40 (sample_sparse 1, sample_pio 8) = Some (Ok (), img', sample_pio 8\<lparr> pio_disk := d' \<rparr>)
    \<and> storage (disk_io d') ! 8 = 7"
  using sparse_write_escapes_partition [of sample_info "sample_pio 8" "sample_sparse_header 1" sample_chunks "sample_sparse 1"
      0 8 7 40] sample_disk_ok sample_sparse_image [of 1] sample_cells sample_sparse_length
  by (simp add: sample_pio_def sample_sparse_header_def data_size_def sample_info_def U32_def)




end
