(* ===== verification/Boot_Params.thy ===== *)
theory Boot_Params
  imports Layout
begin

text \<open>
  Kernel command line and bootconfig (\<open>libbootparams\<close>): the parser of command line entries and the two builders
  that append to a caller's buffer. A Rust string is the list of its bytes in the builders and the list of its
  characters (code points) in the parser, whose position always is at a character.
\<close>

section \<open>Entries\<close>

type_synonym chars = "nat list"

record entry =
  key :: chars
  val :: "chars option"

definition entry_display :: "entry \<Rightarrow> chars" where
  "entry_display self = (case val self of Some v \<Rightarrow> key self @ [61] @ v | None \<Rightarrow> key self)"

text \<open>\<open>char::is_whitespace\<close>: the characters with the property White\_Space.\<close>

definition is_whitespace :: "nat \<Rightarrow> bool" where
  "is_whitespace c \<longleftrightarrow> 9 \<le> c \<and> c \<le> 13 \<or> c = 32 \<or> c = 0x85 \<or> c = 0xA0 \<or> c = 0x1680 \<or> 0x2000 \<le> c \<and> c \<le> 0x200A
     \<or> c = 0x2028 \<or> c = 0x2029 \<or> c = 0x202F \<or> c = 0x205F \<or> c = 0x3000"

definition trim_start :: "chars \<Rightarrow> chars" where
  "trim_start s = dropWhile is_whitespace s"

definition trim_str :: "chars \<Rightarrow> chars" where
  "trim_str s = rev (dropWhile is_whitespace (rev (trim_start s)))"

record commandline_parser =
  cp_data :: chars
  cp_pos :: nat

definition parser_new :: "chars \<Rightarrow> commandline_parser" where
  "parser_new s = \<lparr> cp_data = s, cp_pos = 0 \<rparr>"

definition remains :: "commandline_parser \<Rightarrow> chars" where
  "remains self = (if cp_pos self \<le> length (cp_data self) then drop (cp_pos self) (cp_data self) else [])"

definition peek :: "commandline_parser \<Rightarrow> nat option" where
  "peek self = (case remains self of [] \<Rightarrow> None | c # _ \<Rightarrow> Some c)"

definition skip :: "nat \<Rightarrow> commandline_parser \<Rightarrow> commandline_parser" where
  "skip n self = self\<lparr> cp_pos := cp_pos self + n \<rparr>"

definition take_while :: "(nat \<Rightarrow> bool) \<Rightarrow> commandline_parser \<Rightarrow> chars \<times> commandline_parser" where
  "take_while predicate self =
     (let rest = remains self; n = length (takeWhile predicate rest)
      in (take n rest, self\<lparr> cp_pos := cp_pos self + n \<rparr>))"

definition skip_whitespaces :: "commandline_parser \<Rightarrow> commandline_parser" where
  "skip_whitespaces self =
     self\<lparr> cp_pos := cp_pos self + (length (remains self) - length (trim_start (remains self))) \<rparr>"

definition parse_key :: "commandline_parser \<Rightarrow> chars option \<times> commandline_parser" where
  "parse_key self =
     (case take_while (\<lambda>c. \<not> is_whitespace c \<and> c \<noteq> 61) (skip_whitespaces self) of
        (k, self') \<Rightarrow> (if k = [] then None else Some k, self'))"

text \<open>The value after the equals sign, quoted or not.\<close>

definition parse_text :: "commandline_parser \<Rightarrow> chars option res \<times> commandline_parser" where
  "parse_text self =
     (if peek self = Some 34 then
        (case take_while (\<lambda>c. c \<noteq> 34) (skip 1 self) of
           (v, self') \<Rightarrow>
             if peek self' = Some 34 then (Ok (Some v), skip 1 self')
             else (Err InvalidInput, skip (length (remains self')) self'))
      else (case take_while (\<lambda>c. \<not> is_whitespace c) self of (v, self') \<Rightarrow> (Ok (Some v), self')))"

definition parse_value :: "commandline_parser \<Rightarrow> chars option res \<times> commandline_parser" where
  "parse_value self = (case peek self of
      None \<Rightarrow> (Ok None, self)
    | Some c \<Rightarrow>
        if c = 61 then parse_text (skip 1 self)
        else if is_whitespace c then (Ok None, self)
        else (Err InvalidInput, skip (length (remains self)) self))"

definition parser_next :: "commandline_parser \<Rightarrow> entry res option \<times> commandline_parser" where
  "parser_next self = (case parse_key self of
      (None, self') \<Rightarrow> (None, self')
    | (Some k, self') \<Rightarrow> (case parse_value self' of
        (r, self'') \<Rightarrow> (Some (map_ok (\<lambda>v. \<lparr> key = k, val = v \<rparr>) r), self'')))"

section \<open>Command line builder\<close>

record commandline_builder =
  cl_size :: nat
  cl_buffer :: "byte list"

definition COMMANDLINE_TRAILING_SIZE :: nat where "COMMANDLINE_TRAILING_SIZE = 1"

definition update_null_terminator :: "commandline_builder \<Rightarrow> commandline_builder res" where
  "update_null_terminator self =
     (if cl_size self < length (cl_buffer self)
      then Ok (self\<lparr> cl_buffer := (cl_buffer self)[cl_size self := 0] \<rparr>) else Panic)"

definition cl_new :: "byte list \<Rightarrow> commandline_builder res" where
  "cl_new buffer =
     (if length buffer < COMMANDLINE_TRAILING_SIZE then Err (BufferTooSmall (Some COMMANDLINE_TRAILING_SIZE))
      else update_null_terminator \<lparr> cl_size = 0, cl_buffer = buffer \<rparr>)"

text \<open>\<open>CStr::from_bytes_until_nul\<close> and \<open>CStr::from_bytes_with_nul\<close>: the bytes before the terminator.\<close>

definition from_bytes_until_nul :: "byte list \<Rightarrow> byte list res" where
  "from_bytes_until_nul bs = (if 0 \<in> set bs then Ok (takeWhile (\<lambda>b. b \<noteq> 0) bs) else Err InvalidInput)"

definition from_bytes_with_nul :: "byte list \<Rightarrow> byte list res" where
  "from_bytes_with_nul bs =
     (if bs \<noteq> [] \<and> last bs = 0 \<and> 0 \<notin> set (butlast bs) then Ok (butlast bs) else Err InvalidInput)"

definition cl_new_from_prefix :: "byte list \<Rightarrow> commandline_builder res" where
  "cl_new_from_prefix buffer =
     map_ok (\<lambda>prefix. \<lparr> cl_size = length prefix, cl_buffer = buffer \<rparr>) (from_bytes_until_nul buffer)"

definition cl_remaining_capacity :: "commandline_builder \<Rightarrow> nat res" where
  "cl_remaining_capacity self =
     and_then (psub (length (cl_buffer self)) (cl_size self)) (\<lambda>n. psub n COMMANDLINE_TRAILING_SIZE)"

definition cl_as_str :: "commandline_builder \<Rightarrow> chars res" where
  "cl_as_str self =
     and_then (slice_index 0 (cl_size self + 1) (cl_buffer self)) (\<lambda>bs.
     and_then (unwrap (from_bytes_with_nul bs)) (\<lambda>s.
     and_then (rust_assert (utf8_valid s)) (\<lambda>_. Ok (trim_str (utf8_chars s)))))"

text \<open>A reader is given the current command line and the free part of the buffer, and returns its new contents.\<close>

type_synonym reader = "byte list \<Rightarrow> byte list \<Rightarrow> nat res \<times> byte list"

definition cl_read :: "reader \<Rightarrow> commandline_builder \<Rightarrow> (nat \<times> byte list) res \<times> commandline_builder" where
  "cl_read reader self =
     (let pos = cl_size self + COMMANDLINE_TRAILING_SIZE in
      if length (cl_buffer self) < pos then (Panic, self)
      else case from_bytes_with_nul (take pos (cl_buffer self)) of
        Ok current_commandline \<Rightarrow>
          (let remains_len = length (cl_buffer self) - pos;
               remains_buffer = take (if remains_len \<noteq> 0 then remains_len - 1 else remains_len) (drop pos (cl_buffer self))
           in case reader current_commandline remains_buffer of
                (r, out) \<Rightarrow>
                  (let self' = self\<lparr> cl_buffer := overwrite pos out (cl_buffer self) \<rparr> in
                   (case r of
                      Ok n \<Rightarrow> (Ok (n, out), self')
                    | Err (BufferTooSmall (Some requested)) \<Rightarrow>
                        (and_then (padd requested 1) (\<lambda>k. Err (BufferTooSmall (Some k))), self')
                    | Err e \<Rightarrow> (Err e, self')
                    | Panic \<Rightarrow> (Panic, self'))))
      | _ \<Rightarrow> (Panic, self))"

definition cl_add_with :: "reader \<Rightarrow> commandline_builder \<Rightarrow> unit res \<times> commandline_builder" where
  "cl_add_with reader self = (case cl_read reader self of
      (Ok (n, remains_buffer), self') \<Rightarrow>
        if n = 0 then (Ok (), self')
        else if length remains_buffer < n then (Panic, self')
        else if 0 \<in> set (take n remains_buffer) then (Err InvalidInput, self')
        else (case update_null_terminator (self'\<lparr> cl_buffer := (cl_buffer self')[cl_size self' := 32],
                cl_size := cl_size self' + n + 1 \<rparr>) of
            Ok self'' \<Rightarrow> (Ok (), self'') | Err e \<Rightarrow> (Err e, self') | Panic \<Rightarrow> (Panic, self'))
    | (Err e, self') \<Rightarrow> (Err e, self')
    | (Panic, self') \<Rightarrow> (Panic, self'))"

text \<open>\<open>out[..n].clone_from_slice(s)\<close> in a reader.\<close>

definition copy_reader :: "byte list \<Rightarrow> reader" where
  "copy_reader s cur out = (if length s \<le> length out then (Ok (length s), overwrite 0 s out) else (Panic, out))"

definition cl_add :: "byte list \<Rightarrow> commandline_builder \<Rightarrow> unit res \<times> commandline_builder" where
  "cl_add commandline self =
     (if commandline = [] then (Ok (), self)
      else let required_capacity = length commandline + 1 in
        case cl_remaining_capacity self of
          Ok cap \<Rightarrow> if cap < required_capacity then (Err (BufferTooSmall (Some required_capacity)), self)
                    else cl_add_with (copy_reader commandline) self
        | Err e \<Rightarrow> (Err e, self)
        | Panic \<Rightarrow> (Panic, self))"

definition cl_entries :: "commandline_builder \<Rightarrow> commandline_parser res" where
  "cl_entries self = map_ok parser_new (cl_as_str self)"

text \<open>The traits \<open>Display\<close> and \<open>Write\<close>; a formatting error carries no value.\<close>

definition cl_display :: "commandline_builder \<Rightarrow> chars res" where
  "cl_display self = cl_as_str self"

fun fmt_err :: "unit res \<Rightarrow> (unit, unit) result" where
  "fmt_err (Ok u) = Ok u"
| "fmt_err (Err e) = Err ()"
| "fmt_err Panic = Panic"

definition cl_write_str :: "byte list \<Rightarrow> commandline_builder \<Rightarrow> (unit, unit) result \<times> commandline_builder" where
  "cl_write_str s self = (case cl_add s self of (r, self') \<Rightarrow> (fmt_err r, self'))"

section \<open>Bootconfig builder\<close>

record boot_config_builder =
  bcb_size :: nat
  bcb_buffer :: "byte list"

definition BOOTCONFIG_MAGIC :: "byte list" where
  "BOOTCONFIG_MAGIC = [35, 66, 79, 79, 84, 67, 79, 78, 70, 73, 71, 10]"

definition BOOTCONFIG_TRAILER_SIZE :: nat where
  "BOOTCONFIG_TRAILER_SIZE = 4 + 4 + length BOOTCONFIG_MAGIC"

definition bcb_checksum :: "boot_config_builder \<Rightarrow> (32 word) res" where
  "bcb_checksum self =
     map_ok (\<lambda>bs. foldl (\<lambda>acc v. acc + ucast v) 0 bs) (slice_index 0 (bcb_size self) (bcb_buffer self))"

definition update_trailer :: "boot_config_builder \<Rightarrow> unit res \<times> boot_config_builder" where
  "update_trailer self =
     (if U32 \<le> bcb_size self then (Err (Other None), self)
      else case bcb_checksum self of
        Ok checksum \<Rightarrow>
          if bcb_size self + BOOTCONFIG_TRAILER_SIZE \<le> length (bcb_buffer self)
          then (Ok (), self\<lparr> bcb_buffer := overwrite (bcb_size self)
                  (nat_to_le 4 (bcb_size self) @ u32_to_le_bytes checksum @ BOOTCONFIG_MAGIC) (bcb_buffer self) \<rparr>)
          else (Panic, self)
      | Err e \<Rightarrow> (Err e, self)
      | Panic \<Rightarrow> (Panic, self))"

definition bcb_new :: "byte list \<Rightarrow> boot_config_builder res" where
  "bcb_new buffer =
     (if length buffer < BOOTCONFIG_TRAILER_SIZE then Err (BufferTooSmall (Some BOOTCONFIG_TRAILER_SIZE))
      else case update_trailer \<lparr> bcb_size = 0, bcb_buffer = buffer \<rparr> of (r, self) \<Rightarrow> map_ok (\<lambda>_. self) r)"

definition bcb_remaining_capacity :: "boot_config_builder \<Rightarrow> nat res" where
  "bcb_remaining_capacity self =
     and_then (psub (length (bcb_buffer self)) (bcb_size self)) (\<lambda>n. psub n BOOTCONFIG_TRAILER_SIZE)"

definition config_bytes :: "boot_config_builder \<Rightarrow> byte list res" where
  "config_bytes self =
     and_then (padd (bcb_size self) BOOTCONFIG_TRAILER_SIZE) (\<lambda>n. slice_index 0 n (bcb_buffer self))"

definition bcb_add_with :: "reader \<Rightarrow> boot_config_builder \<Rightarrow> unit res \<times> boot_config_builder" where
  "bcb_add_with reader self = (case bcb_remaining_capacity self of
      Ok n \<Rightarrow>
        (case reader (take (bcb_size self) (bcb_buffer self)) (take n (drop (bcb_size self) (bcb_buffer self))) of
           (r, out) \<Rightarrow>
             (let self' = self\<lparr> bcb_buffer := overwrite (bcb_size self) out (bcb_buffer self) \<rparr> in
              case r of
                Ok sz \<Rightarrow> if sz \<le> n then update_trailer (self'\<lparr> bcb_size := bcb_size self + sz \<rparr>) else (Panic, self')
              | Err e \<Rightarrow> (Err e, self')
              | Panic \<Rightarrow> (Panic, self')))
    | Err e \<Rightarrow> (Err e, self)
    | Panic \<Rightarrow> (Panic, self))"

definition bcb_add :: "byte list \<Rightarrow> boot_config_builder \<Rightarrow> unit res \<times> boot_config_builder" where
  "bcb_add config self = (case bcb_remaining_capacity self of
      Ok n \<Rightarrow> if n < length config then (Err (BufferTooSmall (Some (length config))), self)
              else bcb_add_with (copy_reader config) self
    | Err e \<Rightarrow> (Err e, self)
    | Panic \<Rightarrow> (Panic, self))"

definition checked_copy_reader :: "byte list \<Rightarrow> reader" where
  "checked_copy_reader s cur out =
     (if length s \<le> length out then (Ok (length s), overwrite 0 s out) else (Err (BufferTooSmall (Some (length s))), out))"

definition bcb_write_str :: "byte list \<Rightarrow> boot_config_builder \<Rightarrow> (unit, unit) result \<times> boot_config_builder" where
  "bcb_write_str s self = (case bcb_add_with (checked_copy_reader s) self of (r, self') \<Rightarrow> (fmt_err r, self'))"

text \<open>\<open>core::ascii::escape_default\<close>, with lower-case hexadecimal digits.\<close>

definition hex_digit :: "nat \<Rightarrow> byte" where
  "hex_digit d = (if d < 10 then of_nat (48 + d) else of_nat (87 + d))"

definition escape_default :: "byte \<Rightarrow> byte list" where
  "escape_default c =
     (if c = 9 then [92, 116] else if c = 13 then [92, 114] else if c = 10 then [92, 110]
      else if c = 39 \<or> c = 34 \<or> c = 92 then [92, c]
      else if 0x20 \<le> c \<and> c \<le> 0x7E then [c]
      else [92, 120, hex_digit (unat c div 16), hex_digit (unat c mod 16)])"

definition bcb_display :: "boot_config_builder \<Rightarrow> byte list res" where
  "bcb_display self =
     and_then (config_bytes self) (\<lambda>bytes.
     and_then (psub (length bytes) BOOTCONFIG_TRAILER_SIZE) (\<lambda>n.
       Ok (concat (map escape_default (take n bytes)))))"

end
