(* ===== verification/Boot_Params_Correct.thy ===== *)
theory Boot_Params_Correct
  imports Boot_Params
begin

text \<open>
  The bootconfig builder always holds the accepted parameters followed by a correct trailer; the command line
  builder and parser are inverse on entries without white space in their values.
\<close>

section \<open>Bootconfig\<close>

definition byte_sum :: "byte list \<Rightarrow> 32 word" where
  "byte_sum bs = foldl (\<lambda>acc v. acc + ucast v) 0 bs"

definition trailer :: "byte list \<Rightarrow> byte list" where
  "trailer body = nat_to_le 4 (length body) @ u32_to_le_bytes (byte_sum body) @ BOOTCONFIG_MAGIC"

text \<open>The builder holds the parameters \<open>body\<close> and their trailer.\<close>

definition bcb_ok :: "byte list \<Rightarrow> boot_config_builder \<Rightarrow> bool" where
  "bcb_ok body b \<longleftrightarrow> bcb_size b = length body \<and> length body + 20 \<le> length (bcb_buffer b)
     \<and> take (length body + 20) (bcb_buffer b) = body @ trailer body"

lemma trailer_size [simp]: "BOOTCONFIG_TRAILER_SIZE = 20" "length BOOTCONFIG_MAGIC = 12" "length (trailer body) = 20"
  by (simp_all add: BOOTCONFIG_TRAILER_SIZE_def BOOTCONFIG_MAGIC_def trailer_def)

lemma update_trailer_ok:
  assumes "take n buf = body" "length body = n" "n + 20 \<le> length buf" "n < U32"
  shows "\<exists>b. update_trailer \<lparr> bcb_size = n, bcb_buffer = buf \<rparr> = (Ok (), b) \<and> bcb_ok body b
    \<and> length (bcb_buffer b) = length buf"
proof -
  have "bcb_checksum \<lparr> bcb_size = n, bcb_buffer = buf \<rparr> = Ok (byte_sum body)"
    using assms by (simp add: bcb_checksum_def byte_sum_def)
  then have "update_trailer \<lparr> bcb_size = n, bcb_buffer = buf \<rparr> = (Ok (), \<lparr> bcb_size = n, bcb_buffer = overwrite n (trailer body) buf \<rparr>)"
    using assms by (simp add: update_trailer_def trailer_def)
  moreover have "bcb_ok body \<lparr> bcb_size = n, bcb_buffer = overwrite n (trailer body) buf \<rparr>"
    using assms by (simp add: bcb_ok_def overwrite_def)
  ultimately show ?thesis using assms by auto
qed

lemma bcb_new_ok:
  assumes "20 \<le> length buf"
  obtains b where "bcb_new buf = Ok b" "bcb_ok [] b" "length (bcb_buffer b) = length buf"
  using update_trailer_ok [of 0 buf "[]"] assms by (auto simp: bcb_new_def U32_def)

lemma bcb_add_with_ok:
  assumes b: "bcb_ok body b" "length (bcb_buffer b) < U32"
    and r: "reader body (take (length (bcb_buffer b) - length body - 20) (drop (length body) (bcb_buffer b))) = (Ok n, out)"
    and out: "length out = length (bcb_buffer b) - length body - 20" "n \<le> length out"
  shows "\<exists>b'. bcb_add_with reader b = (Ok (), b') \<and> bcb_ok (body @ take n out) b' \<and> length (bcb_buffer b') = length (bcb_buffer b)"
proof -
  let ?buf = "bcb_buffer b" and ?s = "length body"
  have s: "bcb_size b = ?s" "?s + 20 \<le> length ?buf" "take ?s ?buf = body"
  proof -
    show "bcb_size b = ?s" "?s + 20 \<le> length ?buf" using b(1) by (simp_all add: bcb_ok_def)
    have "take ?s (take (?s + 20) ?buf) = take ?s (body @ trailer body)" using b(1) by (simp only: bcb_ok_def)
    then show "take ?s ?buf = body" by (simp add: min_absorb1)
  qed
  have cap: "bcb_remaining_capacity b = Ok (length ?buf - ?s - 20)"
    using s by (simp add: bcb_remaining_capacity_def)
  have fits: "?s + n + 20 \<le> length ?buf" "?s + n < U32" using s(2) out b(2) by linarith+
  have "take (?s + n) (overwrite ?s out ?buf) = body @ take n out"
    using s out by (simp add: overwrite_def)
  from update_trailer_ok [OF this] obtain b' where
      "update_trailer \<lparr> bcb_size = ?s + n, bcb_buffer = overwrite ?s out ?buf \<rparr> = (Ok (), b')"
      "bcb_ok (body @ take n out) b'" "length (bcb_buffer b') = length ?buf"
    using s out fits by auto
  then show ?thesis
    using s out r cap by (cases b) (simp add: bcb_add_with_def)
qed

lemma bcb_add_ok:
  assumes "bcb_ok body b" "length (bcb_buffer b) < U32"
  shows "length config \<le> length (bcb_buffer b) - length body - 20 \<Longrightarrow>
      \<exists>b'. bcb_add config b = (Ok (), b') \<and> bcb_ok (body @ config) b' \<and> length (bcb_buffer b') = length (bcb_buffer b)"
    and "length (bcb_buffer b) - length body - 20 < length config \<Longrightarrow>
      bcb_add config b = (Err (BufferTooSmall (Some (length config))), b)"
proof -
  have s: "bcb_size b = length body" "length body + 20 \<le> length (bcb_buffer b)" using assms(1) by (simp_all add: bcb_ok_def)
  have cap: "bcb_remaining_capacity b = Ok (length (bcb_buffer b) - length body - 20)"
    using s by (simp add: bcb_remaining_capacity_def)
  { assume len: "length config \<le> length (bcb_buffer b) - length body - 20"
    let ?out = "take (length (bcb_buffer b) - length body - 20) (drop (length body) (bcb_buffer b))"
    have "copy_reader config body ?out = (Ok (length config), overwrite 0 config ?out)"
      using len s by (simp add: copy_reader_def)
    from bcb_add_with_ok [where reader = "copy_reader config", OF assms this] show
      "\<exists>b'. bcb_add config b = (Ok (), b') \<and> bcb_ok (body @ config) b' \<and> length (bcb_buffer b') = length (bcb_buffer b)"
      using len s cap by (simp add: bcb_add_def overwrite_def) }
  show "length (bcb_buffer b) - length body - 20 < length config \<Longrightarrow>
      bcb_add config b = (Err (BufferTooSmall (Some (length config))), b)"
    using cap by (simp add: bcb_add_def)
qed

text \<open>The parameters that are accepted when they are added one after the other to \<open>cap\<close> free bytes.\<close>

fun accepted :: "nat \<Rightarrow> byte list list \<Rightarrow> byte list list" where
  "accepted cap [] = []"
| "accepted cap (c # cs) = (if length c \<le> cap then c # accepted (cap - length c) cs else accepted cap cs)"

definition bcb_add_all :: "byte list list \<Rightarrow> boot_config_builder \<Rightarrow> boot_config_builder" where
  "bcb_add_all cs b = foldl (\<lambda>b c. snd (bcb_add c b)) b cs"

lemma bcb_add_all_ok:
  assumes "bcb_ok body b" "length (bcb_buffer b) < U32"
  shows "bcb_ok (body @ concat (accepted (length (bcb_buffer b) - length body - 20) cs)) (bcb_add_all cs b)"
  using assms
proof (induction cs arbitrary: body b)
  case Nil
  then show ?case by (simp add: bcb_add_all_def)
next
  case (Cons c cs)
  show ?case
  proof (cases "length c \<le> length (bcb_buffer b) - length body - 20")
    case True
    then obtain b' where b': "bcb_add c b = (Ok (), b')" "bcb_ok (body @ c) b'" "length (bcb_buffer b') = length (bcb_buffer b)"
      using bcb_add_ok(1) [OF Cons.prems] by blast
    then show ?thesis
      using Cons.IH [OF b'(2)] Cons.prems True by (simp add: bcb_add_all_def diff_diff_left algebra_simps)
  next
    case False
    then have "bcb_add c b = (Err (BufferTooSmall (Some (length c))), b)"
      using bcb_add_ok(2) [OF Cons.prems, of c] by simp
    then show ?thesis using Cons False by (simp add: bcb_add_all_def)
  qed
qed

lemma bcb_ok_bytes: "bcb_ok body b \<Longrightarrow> length (bcb_buffer b) < U32 \<Longrightarrow> config_bytes b = Ok (body @ trailer body)"
  by (auto simp: bcb_ok_def config_bytes_def U32_def U64_def)

lemma bcb_add_all_length:
  assumes "bcb_ok body b" "length (bcb_buffer b) < U32"
  shows "length (bcb_buffer (bcb_add_all cs b)) = length (bcb_buffer b)"
  using assms
proof (induction cs arbitrary: body b)
  case Nil
  then show ?case by (simp add: bcb_add_all_def)
next
  case (Cons c cs)
  show ?case
  proof (cases "length c \<le> length (bcb_buffer b) - length body - 20")
    case True
    then obtain b' where b': "bcb_add c b = (Ok (), b')" "bcb_ok (body @ c) b'" "length (bcb_buffer b') = length (bcb_buffer b)"
      using bcb_add_ok(1) [OF Cons.prems] by blast
    then show ?thesis using Cons.IH [OF b'(2)] Cons.prems by (simp add: bcb_add_all_def)
  next
    case False
    then have "bcb_add c b = (Err (BufferTooSmall (Some (length c))), b)"
      using bcb_add_ok(2) [OF Cons.prems, of c] by simp
    then show ?thesis using Cons by (simp add: bcb_add_all_def)
  qed
qed

section \<open>Command line\<close>

text \<open>How the parsing functions act on what remains of the text.\<close>

lemma remains_advance: "remains (p\<lparr> cp_pos := cp_pos p + n \<rparr>) = drop n (remains p)"
  by (auto simp: remains_def add.commute)

lemma remains_skip [simp]: "remains (skip n p) = drop n (remains p)"
  by (simp add: skip_def remains_advance)

lemma remains_whitespaces [simp]: "remains (skip_whitespaces p) = dropWhile is_whitespace (remains p)"
proof -
  have "drop (length xs - length (dropWhile P xs)) xs = dropWhile P xs" for P and xs :: chars
    by (metis append_eq_conv_conj length_append add_diff_cancel_right' takeWhile_dropWhile_id)
  then show ?thesis by (simp add: skip_whitespaces_def remains_advance trim_start_def)
qed

lemma take_while_eq:
  "fst (take_while P p) = takeWhile P (remains p)" "remains (snd (take_while P p)) = dropWhile P (remains p)"
  by (simp_all add: take_while_def Let_def remains_advance takeWhile_eq_take [symmetric] dropWhile_eq_drop [symmetric])










lemma parser_next_end: "\<forall>c \<in> set (remains p). is_whitespace c \<Longrightarrow> fst (parser_next p) = None"
  by (auto simp: parser_next_def parse_key_def take_while_eq [simplified] take_while_def Let_def split: prod.splits)

text \<open>All items that the iterator yields. Every one but the last advances, so the iteration ends.\<close>

lemma take_while_shrinks: "take_while P p = (v, p') \<Longrightarrow> length (remains p') + length v = length (remains p)"
  using take_while_eq [of P p] length_append [of "takeWhile P (remains p)" "dropWhile P (remains p)"] by simp

lemma parse_value_shrinks:
  assumes "parse_value p = (r, p')"
  shows "length (remains p') \<le> length (remains p)"
proof -
  have tx: "length (remains q') \<le> length (remains q)" if "parse_text q = (x, q')" for q q' x
    using that take_while_shrinks [of _ "skip 1 q"] take_while_shrinks [of _ q]
    by (fastforce simp: parse_text_def split: prod.splits if_splits)
  show ?thesis
    using assms tx [of "skip 1 p"] by (auto simp: parse_value_def split: option.splits if_splits)
qed

lemma parser_next_advances:
  assumes "parser_next p = (Some r, p')"
  shows "length (remains p') < length (remains p)"
proof -
  obtain k q where k: "parse_key p = (Some k, q)" "\<exists>x. parse_value q = (x, p')"
    using assms by (auto simp: parser_next_def split: prod.splits option.splits)
  then have "k \<noteq> []" "length (remains q) + length k = length (dropWhile is_whitespace (remains p))"
    using take_while_shrinks [of _ "skip_whitespaces p" k q] by (auto simp: parse_key_def split: prod.splits if_splits)
  then have "length (remains q) < length (remains p)"
    using length_dropWhile_le [of is_whitespace "remains p"] by (cases k) auto
  then show ?thesis using k(2) parse_value_shrinks by (metis le_less_trans)
qed

function parse_all :: "commandline_parser \<Rightarrow> entry res list" where
  "parse_all p = (case parser_next p of (None, _) \<Rightarrow> [] | (Some r, p') \<Rightarrow> r # parse_all p')"
  by auto
termination by (relation "measure (\<lambda>p. length (remains p))") (auto dest: parser_next_advances [OF sym])

declare parse_all.simps [simp del]

lemma parse_all_step: "parser_next p = (Some r, p') \<Longrightarrow> parse_all p = r # parse_all p'"
  by (subst parse_all.simps) simp

lemma parse_all_end: "\<forall>c \<in> set (remains p). is_whitespace c \<Longrightarrow> parse_all p = []"
  using parser_next_end [of p] by (subst parse_all.simps) (auto split: prod.split)























section \<open>Properties\<close>

text \<open>
  C23. Whatever parameters are added to a bootconfig builder, one after the other, it holds the ones that fit the
  buffer, in their order, followed by a trailer with their size and checksum and the magic; the others are rejected.
\<close>

theorem bootconfig_sections:
  assumes "bcb_new buffer = Ok b" "length buffer < U32"
  shows "config_bytes (bcb_add_all cs b) =
    Ok (concat (accepted (length buffer - 20) cs) @ trailer (concat (accepted (length buffer - 20) cs)))"
proof -
  have len: "20 \<le> length buffer" using assms(1) by (cases "20 \<le> length buffer") (auto simp: bcb_new_def)
  obtain b' where b': "bcb_new buffer = Ok b'" "bcb_ok [] b'" "length (bcb_buffer b') = length buffer"
    using bcb_new_ok [OF len] by blast
  then show ?thesis
    using assms bcb_add_all_ok [of "[]" b' cs] bcb_add_all_length [of "[]" b' cs]
    by (intro bcb_ok_bytes) auto
qed

theorem bootconfig_sections_witness:
  "\<exists>b. bcb_new (replicate 25 9) = Ok b
    \<and> config_bytes (bcb_add_all [[97, 61, 98], [99, 99, 99], [100]] b) = Ok ([97, 61, 98, 100] @ trailer [97, 61, 98, 100])"
proof -
  have "20 \<le> length (replicate 25 (9 :: byte))" by simp
  then obtain b where b: "bcb_new (replicate 25 9) = Ok b" using bcb_new_ok by blast
  from bootconfig_sections [OF b, of "[[97, 61, 98], [99, 99, 99], [100]]"] b show ?thesis by (auto simp: U32_def)
qed



text \<open>
  The text of an entry is not always an entry: a quoted value loses its quotes when it is printed, and a value with
  a space then reads as two entries.
\<close>

theorem entry_display_drops_quotes:
  "\<exists>e. parse_all (parser_new [107, 61, 34, 97, 32, 98, 34]) = [Ok e]
    \<and> parse_all (parser_new (entry_display e)) = [Ok \<lparr> key = [107], val = Some [97] \<rparr>, Ok \<lparr> key = [98], val = None \<rparr>]"
proof -
  let ?q = "[107, 61, 34, 97, 32, 98, 34] :: chars" and ?s = "[107, 61, 97, 32, 98] :: chars"
  let ?e = "\<lparr> key = [107], val = Some [97, 32, 98] \<rparr> :: entry"
  have n: "parser_next (parser_new ?q) = (Some (Ok ?e), \<lparr> cp_data = ?q, cp_pos = 7 \<rparr>)"
    "parser_next (parser_new ?s) = (Some (Ok \<lparr> key = [107], val = Some [97] \<rparr>), \<lparr> cp_data = ?s, cp_pos = 3 \<rparr>)"
    "parser_next \<lparr> cp_data = ?s, cp_pos = 3 \<rparr> = (Some (Ok \<lparr> key = [98], val = None \<rparr>), \<lparr> cp_data = ?s, cp_pos = 5 \<rparr>)"
    by (simp_all add: parser_next_def parse_key_def take_while_def skip_whitespaces_def trim_start_def remains_def parser_new_def
        parse_value_def parse_text_def peek_def skip_def is_whitespace_def Let_def)
  have e: "parse_all \<lparr> cp_data = ?q, cp_pos = 7 \<rparr> = []" "parse_all \<lparr> cp_data = ?s, cp_pos = 5 \<rparr> = []"
    by (rule parse_all_end, simp add: remains_def)+
  have "entry_display ?e = ?s" by (simp add: entry_display_def)
  then show ?thesis using n e by (intro exI [of _ ?e]) (simp add: parse_all_step)
qed

end
