(* ===== verification/Xbc.thy ===== *)
theory Xbc
  imports Boot_Params_Correct
begin

text \<open>
  The C library that appends bootconfig parameters in memory (\<open>libxbc/libxbc.c\<close>), and its agreement with the
  bootconfig builder. Memory maps 64-bit addresses to bytes; all arithmetic wraps at the width of its C type.
\<close>

section \<open>Memory\<close>

type_synonym mem = "64 word \<Rightarrow> byte"

definition read_mem :: "mem \<Rightarrow> 64 word \<Rightarrow> nat \<Rightarrow> byte list" where
  "read_mem m a n = map (\<lambda>i. m (a + of_nat i)) [0..<n]"

definition memcpy :: "64 word \<Rightarrow> byte list \<Rightarrow> mem \<Rightarrow> mem" where
  "memcpy a bs m = (\<lambda>x. if unat (x - a) < length bs then bs ! unat (x - a) else m x)"

text \<open>Whether \<open>strncmp\<close> finds its two arguments, of the compared length, equal.\<close>

fun strncmp_equal :: "byte list \<Rightarrow> byte list \<Rightarrow> bool" where
  "strncmp_equal (x # xs) (y # ys) = (if x \<noteq> y then False else if x = 0 then True else strncmp_equal xs ys)"
| "strncmp_equal _ _ = True"

section \<open>Operations\<close>

definition XBC_MAGIC :: "byte list" where "XBC_MAGIC = [35, 66, 79, 79, 84, 67, 79, 78, 70, 73, 71, 10]"
definition BOOTCONFIG_MAGIC_SIZE :: nat where "BOOTCONFIG_MAGIC_SIZE = 12"
definition BOOTCONFIG_SIZE_SIZE :: nat where "BOOTCONFIG_SIZE_SIZE = 4"
definition BOOTCONFIG_CHECKSUM_SIZE :: nat where "BOOTCONFIG_CHECKSUM_SIZE = 4"
definition XBC_TRAILER_SIZE :: nat where
  "XBC_TRAILER_SIZE = BOOTCONFIG_MAGIC_SIZE + BOOTCONFIG_SIZE_SIZE + BOOTCONFIG_CHECKSUM_SIZE"

definition xbc_checksum :: "mem \<Rightarrow> 64 word \<Rightarrow> 32 word \<Rightarrow> 32 word" where
  "xbc_checksum m buffer sz = foldl (\<lambda>sum i. sum + ucast (m (buffer + of_nat i))) 0 [0..<unat sz]"

definition isTrailerPresent :: "mem \<Rightarrow> 64 word \<Rightarrow> bool" where
  "isTrailerPresent m bootconfig_end_addr =
     strncmp_equal (read_mem m (bootconfig_end_addr - of_nat BOOTCONFIG_MAGIC_SIZE) BOOTCONFIG_MAGIC_SIZE) XBC_MAGIC"

definition addBootConfigTrailer :: "64 word \<Rightarrow> 32 word \<Rightarrow> mem \<Rightarrow> 32 word \<times> mem" where
  "addBootConfigTrailer bootconfig_start_addr bootconfig_size m =
     (if bootconfig_start_addr = 0 then (-1, m)
      else if bootconfig_size = 0 then (0, m)
      else let stop = bootconfig_start_addr + ucast bootconfig_size in
        if isTrailerPresent m stop then (0, m)
        else let m1 = memcpy stop (u32_to_le_bytes bootconfig_size) m;
                 sum = xbc_checksum m1 bootconfig_start_addr bootconfig_size;
                 m2 = memcpy (stop + of_nat BOOTCONFIG_SIZE_SIZE) (u32_to_le_bytes sum) m1;
                 m3 = memcpy (stop + of_nat BOOTCONFIG_SIZE_SIZE + of_nat BOOTCONFIG_CHECKSUM_SIZE) XBC_MAGIC m2
             in (of_nat XBC_TRAILER_SIZE, m3))"

text \<open>The parameters are \<open>None\<close> for a null pointer; \<open>new_size\<close> is never used and left out.\<close>

definition addBootConfigParameters :: "byte list option \<Rightarrow> 32 word \<Rightarrow> 64 word \<Rightarrow> 32 word \<Rightarrow> mem \<Rightarrow> 32 word \<times> mem" where
  "addBootConfigParameters params params_size bootconfig_start_addr bootconfig_size m =
     (case params of
        None \<Rightarrow> (-1, m)
      | Some ps \<Rightarrow>
          if bootconfig_start_addr = 0 then (-1, m)
          else if params_size = 0 then (0, m)
          else let stop = bootconfig_start_addr + ucast bootconfig_size;
                   present = isTrailerPresent m stop;
                   stop' = (if present then stop - of_nat XBC_TRAILER_SIZE else stop);
                   applied = (if present then - of_nat XBC_TRAILER_SIZE else 0) + params_size;
                   m1 = memcpy stop' (take (unat params_size) ps) m
               in (case addBootConfigTrailer bootconfig_start_addr (bootconfig_size + applied) m1 of
                     (n, m2) \<Rightarrow> (applied + n, m2)))"

section \<open>Sections of memory\<close>

lemma length_read_mem [simp]: "length (read_mem m a n) = n"
  by (simp add: read_mem_def)

lemma nth_read_mem [simp]: "i < n \<Longrightarrow> read_mem m a n ! i = m (a + of_nat i)"
  by (simp add: read_mem_def)

lemma take_read_mem: "k \<le> n \<Longrightarrow> take k (read_mem m a n) = read_mem m a k"
  by (rule nth_equalityI) auto

lemma drop_read_mem: "drop k (read_mem m a n) = read_mem m (a + of_nat k) (n - k)"
  by (rule nth_equalityI) (auto simp: add.assoc)

lemma word_offset:
  fixes a :: "64 word"
  assumes "i < 2 ^ 64" "k < 2 ^ 64"
  shows "unat ((a + of_nat i) - (a + of_nat k)) = (if k \<le> i then i - k else 2 ^ 64 - (k - i))"
proof (cases "k \<le> i")
  case True
  then have "(a + of_nat i) - (a + of_nat k) = (of_nat (i - k) :: 64 word)" by (simp add: of_nat_diff)
  moreover have "unat (of_nat (i - k) :: 64 word) = i - k" using assms by (simp only: unat_of_nat) simp
  ultimately show ?thesis using True by (simp only: if_True)
next
  case False
  define d where "d = 2 ^ 64 - (k - i)"
  have d: "d + k = i + 2 ^ 64" "d < 2 ^ 64" using False assms by (simp_all add: d_def)
  have "(of_nat (d + k) :: 64 word) = of_nat i" unfolding d(1) by simp
  then have "(a + of_nat i) - (a + of_nat k) = (of_nat d :: 64 word)" by (simp add: algebra_simps)
  then show ?thesis using False d(2) by (simp add: unat_of_nat d_def)
qed

lemma read_memcpy:
  assumes "k + length bs \<le> n" "n < 2 ^ 64"
  shows "read_mem (memcpy (a + of_nat k) bs m) a n = overwrite k bs (read_mem m a n)"
proof (rule nth_equalityI)
  fix i assume "i < length (read_mem (memcpy (a + of_nat k) bs m) a n)"
  then have i: "i < n" by simp
  then show "read_mem (memcpy (a + of_nat k) bs m) a n ! i = overwrite k bs (read_mem m a n) ! i"
    using assms word_offset [of i k a] by (auto simp: memcpy_def nth_overwrite)
qed (use assms in simp)

lemma memcpy_outside: "length bs \<le> unat (x - a) \<Longrightarrow> memcpy a bs m x = m x"
  by (simp add: memcpy_def)

lemma memcpy_far:
  assumes "k + length bs \<le> unat (x - a)" "k < 2 ^ 64"
  shows "memcpy (a + of_nat k) bs m x = m x"
proof (rule memcpy_outside)
  have d: "unat (x - a) < 2 ^ 64" using unsigned_less [of "x - a"] by simp
  have "x = a + of_nat (unat (x - a))" by simp
  then have "unat (x - (a + of_nat k)) = unat (x - a) - k"
    using word_offset [OF d assms(2), of a] assms(1) by simp
  then show "length bs \<le> unat (x - (a + of_nat k))" using assms(1) by simp
qed

lemma strncmp_equal_iff: "length xs = length ys \<Longrightarrow> 0 \<notin> set ys \<Longrightarrow> strncmp_equal xs ys \<longleftrightarrow> xs = ys"
  by (induction xs ys rule: strncmp_equal.induct) auto

lemma foldl_read_mem: "foldl (\<lambda>sum i. sum + ucast (m (a + of_nat i))) z [0..<n] = foldl (\<lambda>acc v. acc + ucast v) z (read_mem m a n)"
  by (simp add: read_mem_def foldl_map)

lemma trailer_present:
  assumes "12 \<le> e"
  shows "isTrailerPresent m (a + of_nat e) \<longleftrightarrow> drop (e - 12) (read_mem m a e) = XBC_MAGIC"
proof -
  have e: "(a + of_nat e) - 12 = a + of_nat (e - 12)" using assms by (simp add: of_nat_diff algebra_simps)
  have "strncmp_equal (read_mem m (a + of_nat (e - 12)) 12) XBC_MAGIC \<longleftrightarrow> read_mem m (a + of_nat (e - 12)) 12 = XBC_MAGIC"
    by (rule strncmp_equal_iff) (simp_all add: XBC_MAGIC_def)
  then show ?thesis
    using assms by (simp add: isTrailerPresent_def BOOTCONFIG_MAGIC_SIZE_def e drop_read_mem)
qed

section \<open>Agreement with the builder\<close>

lemma xbc_trailer_size [simp]: "XBC_TRAILER_SIZE = 20"
  by (simp add: XBC_TRAILER_SIZE_def BOOTCONFIG_MAGIC_SIZE_def BOOTCONFIG_SIZE_SIZE_def BOOTCONFIG_CHECKSUM_SIZE_def)

lemma xbc_magic: "XBC_MAGIC = BOOTCONFIG_MAGIC"
  by (simp add: XBC_MAGIC_def BOOTCONFIG_MAGIC_def)

lemma unat_size: "n < 2 ^ 32 \<Longrightarrow> unat (of_nat n :: 32 word) = n"
  by (simp add: unat_of_nat)

lemma ucast_size: "n < 2 ^ 32 \<Longrightarrow> (ucast (of_nat n :: 32 word) :: 64 word) = of_nat n"
  by (metis of_nat_unat unat_size)

text \<open>Adding a trailer to parameters that do not end in the magic.\<close>

lemma add_trailer:
  assumes a: "a \<noteq> 0" and body: "read_mem m a (length body) = body" "12 \<le> length body" "length body + 20 < 2 ^ 31"
    and fin: "drop (length body - 12) body \<noteq> BOOTCONFIG_MAGIC"
  shows "\<exists>m'. addBootConfigTrailer a (of_nat (length body)) m = (20, m') \<and> read_mem m' a (length body + 20) = body @ trailer body
    \<and> (\<forall>x. length body + 20 \<le> unat (x - a) \<longrightarrow> m' x = m x)"
proof -
  let ?n = "length body"
  have n: "?n < 2 ^ 32" "?n + 20 < 2 ^ 64" using body(3) by simp_all
  have nz: "(of_nat ?n :: 32 word) \<noteq> 0" using unat_size [OF n(1)] body(2) by (metis not_numeral_le_zero unat_0)
  have absent: "\<not> isTrailerPresent m (a + of_nat ?n)"
    using trailer_present [OF body(2), of m a] body(1) fin by (simp add: xbc_magic)
  define m1 where "m1 = memcpy (a + of_nat ?n) (u32_to_le_bytes (of_nat ?n)) m"
  have r1: "read_mem m1 a (?n + 20) = overwrite ?n (u32_to_le_bytes (of_nat ?n)) (read_mem m a (?n + 20))"
    unfolding m1_def by (rule read_memcpy) (use n in simp_all)
  have "read_mem m1 a ?n = take ?n (read_mem m1 a (?n + 20))" by (simp add: take_read_mem)
  also have "\<dots> = body" unfolding r1 using body(1) by (simp add: take_read_mem)
  finally have sum: "xbc_checksum m1 a (of_nat ?n) = byte_sum body"
    by (simp add: xbc_checksum_def unat_size [OF n(1)] foldl_read_mem byte_sum_def)
  define m2 where "m2 = memcpy (a + of_nat (?n + 4)) (u32_to_le_bytes (byte_sum body)) m1"
  define m3 where "m3 = memcpy (a + of_nat (?n + 8)) BOOTCONFIG_MAGIC m2"
  have r2: "read_mem m2 a (?n + 20) = overwrite (?n + 4) (u32_to_le_bytes (byte_sum body)) (read_mem m1 a (?n + 20))"
    unfolding m2_def by (rule read_memcpy) (use n in simp_all)
  have r3: "read_mem m3 a (?n + 20) = overwrite (?n + 8) BOOTCONFIG_MAGIC (read_mem m2 a (?n + 20))"
    unfolding m3_def by (rule read_memcpy) (use n in simp_all)
  have "u32_to_le_bytes (of_nat ?n) = nat_to_le 4 ?n" by (simp add: u32_to_le_bytes_def unat_size [OF n(1)])
  then have r: "read_mem m3 a (?n + 20) = overwrite ?n (trailer body) (read_mem m a (?n + 20))"
    unfolding r3 r2 r1 trailer_def
    using overwrite_append [of ?n "nat_to_le 4 ?n" "u32_to_le_bytes (byte_sum body)" "read_mem m a (?n + 20)"]
      overwrite_append [of ?n "nat_to_le 4 ?n @ u32_to_le_bytes (byte_sum body)" BOOTCONFIG_MAGIC "read_mem m a (?n + 20)"]
    by simp
  have "take ?n (read_mem m a (?n + 20)) = body" using body(1) by (simp add: take_read_mem)
  then have "read_mem m3 a (?n + 20) = body @ trailer body" unfolding r by (simp add: overwrite_def)
  moreover have "m3 x = m x" if "?n + 20 \<le> unat (x - a)" for x
  proof -
    have "m3 x = m2 x" unfolding m3_def by (rule memcpy_far) (use that n in simp_all)
    also have "\<dots> = m1 x" unfolding m2_def by (rule memcpy_far) (use that n in simp_all)
    also have "\<dots> = m x" unfolding m1_def by (rule memcpy_far) (use that n in simp_all)
    finally show ?thesis .
  qed
  moreover have "addBootConfigTrailer a (of_nat ?n) m = (20, m3)"
    using a nz absent sum
    by (simp add: addBootConfigTrailer_def ucast_size [OF n(1)] Let_def xbc_magic m1_def [symmetric]
        BOOTCONFIG_SIZE_SIZE_def BOOTCONFIG_CHECKSUM_SIZE_def m2_def m3_def add.assoc)
  ultimately show ?thesis by blast
qed

lemma add_parameters:
  assumes a: "a \<noteq> 0" and sec: "read_mem m a (length body + 20) = body @ trailer body"
    and p: "p \<noteq> []" "12 \<le> length (body @ p)" "length (body @ p) + 20 < 2 ^ 31"
    and fin: "drop (length (body @ p) - 12) (body @ p) \<noteq> BOOTCONFIG_MAGIC"
  shows "\<exists>m'. addBootConfigParameters (Some p) (of_nat (length p)) a (of_nat (length body + 20)) m = (of_nat (length p), m')
    \<and> read_mem m' a (length (body @ p) + 20) = (body @ p) @ trailer (body @ p)
    \<and> (\<forall>x. length (body @ p) + 20 \<le> unat (x - a) \<longrightarrow> m' x = m x)"
proof -
  let ?n = "length body" and ?k = "length p"
  have b: "?n + 20 < 2 ^ 32" "?k < 2 ^ 32" "?n + ?k < 2 ^ 64" using p(3) by simp_all
  have kz: "(of_nat ?k :: 32 word) \<noteq> 0" using unat_size [OF b(2)] p(1) by (metis length_0_conv unat_0)
  have "drop (?n + 20 - 12) (body @ trailer body) = BOOTCONFIG_MAGIC"
    by (simp add: trailer_def)
  then have present: "isTrailerPresent m (a + of_nat (?n + 20))"
    using trailer_present [of "?n + 20" m a] sec by (simp add: xbc_magic)
  have pos: "a + of_nat (?n + 20) - 20 = a + of_nat ?n" by simp
  have sz: "of_nat (?n + 20) + (- 20 + of_nat ?k) = (of_nat (length (body @ p)) :: 32 word)" by simp
  define m1 where "m1 = memcpy (a + of_nat ?n) p m"
  have "read_mem m1 a (?n + ?k) = overwrite ?n p (read_mem m a (?n + ?k))"
    unfolding m1_def by (rule read_memcpy) (use b in simp_all)
  moreover have "read_mem m a ?n = body"
  proof -
    have "read_mem m a ?n = take ?n (read_mem m a (?n + 20))" by (simp add: take_read_mem)
    then show ?thesis by (simp add: sec)
  qed
  then have "take ?n (read_mem m a (?n + ?k)) = body" by (simp add: take_read_mem)
  ultimately have r1: "read_mem m1 a (length (body @ p)) = body @ p" by (simp add: overwrite_def)
  obtain m' where m': "addBootConfigTrailer a (of_nat (length (body @ p))) m1 = (20, m')"
      "read_mem m' a (length (body @ p) + 20) = (body @ p) @ trailer (body @ p)"
      "\<forall>x. length (body @ p) + 20 \<le> unat (x - a) \<longrightarrow> m' x = m1 x"
    using add_trailer [OF a r1 p(2,3) fin] by blast
  have "addBootConfigParameters (Some p) (of_nat ?k) a (of_nat (?n + 20)) m = (of_nat ?k, m')"
  proof -
    have "ucast (of_nat (?n + 20) :: 32 word) = (of_nat (?n + 20) :: 64 word)" by (rule ucast_size [OF b(1)])
    then show ?thesis
      unfolding addBootConfigParameters_def option.case Let_def
      using a kz present m'(1) pos sz
      by (simp only: if_False if_True xbc_trailer_size unat_size [OF b(2)] take_all order_refl m1_def [symmetric]
          of_nat_numeral prod.case) simp
  qed
  moreover have "m1 x = m x" if "length (body @ p) + 20 \<le> unat (x - a)" for x
    unfolding m1_def by (rule memcpy_far) (use that b in simp_all)
  ultimately show ?thesis using m' by auto
qed

section \<open>Properties\<close>

text \<open>
  C22. Appending parameters with the C library to a bootconfig section in memory gives the same section as adding them to
  the builder, and reports the number of bytes that the section grew; memory after the section does not change. The
  parameters must not end in the bootconfig magic.
\<close>

theorem libxbc_agrees_with_builder:
  assumes "bcb_ok body b" "length (bcb_buffer b) < 2 ^ 31" "length (body @ p) + 20 \<le> length (bcb_buffer b)"
    and "a \<noteq> 0" "config_bytes b = Ok (read_mem m a (length body + 20))"
    and "p \<noteq> []" "12 \<le> length (body @ p)" "drop (length (body @ p) - 12) (body @ p) \<noteq> BOOTCONFIG_MAGIC"
  shows "\<exists>b' m'. bcb_add p b = (Ok (), b')
    \<and> addBootConfigParameters (Some p) (of_nat (length p)) a (of_nat (length body + 20)) m = (of_nat (length p), m')
    \<and> config_bytes b' = Ok (read_mem m' a (length (body @ p) + 20))
    \<and> (\<forall>x. length (body @ p) + 20 \<le> unat (x - a) \<longrightarrow> m' x = m x)"
proof -
  have u: "length (bcb_buffer b) < U32" using assms(2) by (simp add: U32_def)
  have "config_bytes b = Ok (body @ trailer body)" by (rule bcb_ok_bytes [OF assms(1) u])
  then have sec: "read_mem m a (length body + 20) = body @ trailer body" using assms(5) by simp
  have "length p \<le> length (bcb_buffer b) - length body - 20" using assms(3) by simp
  then obtain b' where b': "bcb_add p b = (Ok (), b')" "bcb_ok (body @ p) b'" "length (bcb_buffer b') = length (bcb_buffer b)"
    using bcb_add_ok(1) [OF assms(1) u, of p] by blast
  then have "config_bytes b' = Ok ((body @ p) @ trailer (body @ p))" using bcb_ok_bytes u by simp
  then show ?thesis
    using b'(1) add_parameters [OF assms(4) sec assms(6,7) _ assms(8)] assms(2,3) by auto
qed

theorem libxbc_agrees_with_builder_witness:
  "\<exists>b b' m'. bcb_new (replicate 50 0) = Ok b \<and> bcb_add (replicate 13 97) b = (Ok (), b')
    \<and> addBootConfigParameters (Some (replicate 13 97)) 13 4096 20 (\<lambda>x. trailer [] ! unat (x - 4096)) = (13, m')
    \<and> config_bytes b' = Ok (read_mem m' 4096 33)"
proof -
  let ?m = "\<lambda>x. trailer [] ! unat (x - 4096) :: byte"
  obtain b where b: "bcb_new (replicate 50 0) = Ok b" "bcb_ok [] b" "length (bcb_buffer b) = 50"
    using bcb_new_ok [of "replicate 50 0"] by auto
  have "read_mem ?m 4096 20 = trailer []"
  proof (rule nth_equalityI)
    fix i assume "i < length (read_mem ?m 4096 20)"
    then have "i < 20" by simp
    then show "read_mem ?m 4096 20 ! i = trailer [] ! i" using word_offset [of i 0 4096] by simp
  qed simp
  then have "config_bytes b = Ok (read_mem ?m 4096 (length ([] :: byte list) + 20))"
    using bcb_ok_bytes [OF b(2)] b(3) by (simp add: U32_def)
  moreover have "drop 1 (replicate 13 (97 :: byte)) \<noteq> BOOTCONFIG_MAGIC" by code_simp
  ultimately show ?thesis
    using libxbc_agrees_with_builder [OF b(2), of "replicate 13 97" 4096 ?m] b by auto
qed

end
