(* ===== verification/Libc.thy ===== *)
theory Libc
  imports Layout
begin

text \<open>
  The C library functions that \<open>libc\<close> provides to third-party code: allocation with alignment, searching, comparing
  and number parsing. A C string is the list of its bytes before the terminator; a pointer into a buffer is an
  index, \<open>None\<close> the null pointer. The pointers that the functions require to be non-null and valid are those of the
  lists: \<open>memchr\<close> is given a buffer of at least \<open>count\<close> bytes, or one in which the byte occurs.
\<close>

section \<open>Searching\<close>

definition target_byte :: "32 word \<Rightarrow> byte" where
  "target_byte ch = ucast (ch AND 0xFF)"

fun find_byte :: "byte \<Rightarrow> byte list \<Rightarrow> nat option" where
  "find_byte t [] = None"
| "find_byte t (c # cs) = (if c = t then Some 0 else map_option Suc (find_byte t cs))"

definition memchr :: "byte list \<Rightarrow> 32 word \<Rightarrow> nat \<Rightarrow> nat option" where
  "memchr buf ch count = find_byte (target_byte ch) (take count buf)"

definition strnlen :: "byte list \<Rightarrow> nat \<Rightarrow> nat" where
  "strnlen s maxlen = (case memchr (s @ [0]) 0 maxlen of None \<Rightarrow> maxlen | Some p \<Rightarrow> p)"

definition strchr :: "byte list \<Rightarrow> 32 word \<Rightarrow> nat option" where
  "strchr s ch = find_byte (target_byte ch) (s @ [0])"

definition strrchr :: "byte list \<Rightarrow> 32 word \<Rightarrow> nat option" where
  "strrchr s ch = map_option (\<lambda>i. length s - i) (find_byte (target_byte ch) (rev (s @ [0])))"

section \<open>Comparing\<close>

fun strcmp :: "byte list \<Rightarrow> byte list \<Rightarrow> int" where
  "strcmp [] [] = 0"
| "strcmp [] (y # ys) = -1"
| "strcmp (x # xs) [] = 1"
| "strcmp (x # xs) (y # ys) = (if x < y then -1 else if y < x then 1 else strcmp xs ys)"

text \<open>
  \<open>c_char\<close> is signed on some targets and unsigned on others. The arguments are the bytes from the pointers on; they
  end after a terminator.
\<close>

definition c_char_less :: "bool \<Rightarrow> byte \<Rightarrow> byte \<Rightarrow> bool" where
  "c_char_less signed_char x y = (if signed_char then sint x < sint y else x < y)"

fun strncmp :: "bool \<Rightarrow> byte list \<Rightarrow> byte list \<Rightarrow> nat \<Rightarrow> int" where
  "strncmp sg (l # s1) (r # s2) (Suc n) =
     (if c_char_less sg l r then -1 else if c_char_less sg r l then 1 else if l = 0 then 0 else strncmp sg s1 s2 n)"
| "strncmp sg _ _ _ = 0"

section \<open>Parsing numbers\<close>

definition is_ascii_whitespace :: "byte \<Rightarrow> bool" where
  "is_ascii_whitespace b \<longleftrightarrow> b = 32 \<or> b = 9 \<or> b = 10 \<or> b = 12 \<or> b = 13"

definition digit_value :: "nat \<Rightarrow> byte \<Rightarrow> nat option" where
  "digit_value base symbol =
     (if 48 \<le> symbol \<and> symbol \<le> 55 \<and> base = 8 then Some (unat symbol - 48)
      else if 48 \<le> symbol \<and> symbol \<le> 57 \<and> (base = 10 \<or> base = 16) then Some (unat symbol - 48)
      else if 97 \<le> symbol \<and> symbol \<le> 102 \<and> base = 16 then Some (unat symbol - 97 + 10)
      else if 65 \<le> symbol \<and> symbol \<le> 70 \<and> base = 16 then Some (unat symbol - 65 + 10)
      else None)"

text \<open>The loop over the digits, from what follows the prefix: value and number of digits.\<close>

fun digits_loop :: "nat \<Rightarrow> byte list \<Rightarrow> unit safe_num \<Rightarrow> nat \<Rightarrow> unit safe_num \<times> nat" where
  "digits_loop base [] acc pos = (acc, pos)"
| "digits_loop base (symbol # bytes) acc pos = (case digit_value base symbol of
      None \<Rightarrow> (acc, pos)
    | Some v \<Rightarrow> digits_loop base bytes (sn_add (sn_mul acc (sn base)) (sn v)) (pos + 1))"

text \<open>The base and the position after an optional prefix; \<open>bytes.len() - 1\<close> aborts for an empty string.\<close>

definition base_prefix :: "byte list \<Rightarrow> nat \<Rightarrow> nat \<Rightarrow> (nat \<times> nat) res" where
  "base_prefix bytes pos base =
     and_then (if base = 16 \<or> base = 0 then
         map_ok (\<lambda>n. if pos < n \<and> bytes ! pos = 48 \<and> (bytes ! (pos + 1) = 120 \<or> bytes ! (pos + 1) = 88)
             then (pos + 2, 16) else (pos, base)) (psub (length bytes) 1)
       else Ok (pos, base)) (\<lambda>(pos, base).
     let (pos, base) = (if (base = 8 \<or> base = 0) \<and> pos < length bytes \<and> bytes ! pos = 48 then (pos + 1, 8) else (pos, base))
     in Ok (pos, if base = 0 then 10 else base))"

definition strtoul :: "byte list \<Rightarrow> nat \<Rightarrow> (64 word \<times> nat) res" where
  "strtoul bytes base =
     and_then (rust_assert (base = 0 \<or> base = 8 \<or> base = 10 \<or> base = 16)) (\<lambda>_.
       let pos = length (takeWhile is_ascii_whitespace bytes);
           negative = (pos < length bytes \<and> bytes ! pos = 45);
           pos = (if pos < length bytes \<and> (bytes ! pos = 43 \<or> bytes ! pos = 45) then pos + 1 else pos)
       in and_then (base_prefix bytes pos base) (\<lambda>(pos, base).
            let (acc, pos) = digits_loop base (drop pos bytes) (sn 0) pos
            in Ok (case sn_try acc of
                     Ok v \<Rightarrow> if negative then - of_nat v else of_nat v
                   | _ \<Rightarrow> - 1, pos)))"

section \<open>Allocation\<close>

text \<open>
  The global allocator is a parameter: for a size and an alignment it returns an address, \<open>0\<close> for failure. Memory
  maps addresses to bytes. A layout exists when its alignment is a power of two and its size, rounded up to the
  alignment, does not exceed \<open>isize::MAX\<close>.
\<close>

record layout =
  l_size :: nat
  l_align :: nat

fun is_pow2 :: "nat \<Rightarrow> nat \<Rightarrow> bool" where
  "is_pow2 0 n \<longleftrightarrow> n = 1"
| "is_pow2 (Suc k) n \<longleftrightarrow> n = 1 \<or> n mod 2 = 0 \<and> is_pow2 k (n div 2)"

definition from_size_align :: "nat \<Rightarrow> nat \<Rightarrow> layout option" where
  "from_size_align sz al =
     (if al \<noteq> 0 \<and> is_pow2 64 al \<and> sz \<le> 2 ^ 63 - al then Some \<lparr> l_size = sz, l_align = al \<rparr> else None)"

type_synonym memory = "nat \<Rightarrow> byte"

definition store_bytes :: "nat \<Rightarrow> byte list \<Rightarrow> memory \<Rightarrow> memory" where
  "store_bytes a bs m = (\<lambda>x. if a \<le> x \<and> x < a + length bs then bs ! (x - a) else m x)"

definition load_bytes :: "nat \<Rightarrow> nat \<Rightarrow> memory \<Rightarrow> byte list" where
  "load_bytes a n m = map m [a..<a + n]"

definition to_opt :: "'a res \<Rightarrow> 'a option" where
  "to_opt r = (case r of Ok v \<Rightarrow> Some v | _ \<Rightarrow> None)"

definition or_null :: "'a option \<Rightarrow> ('a \<Rightarrow> 'b option res) \<Rightarrow> 'b option res" where
  "or_null x k = (case x of None \<Rightarrow> Ok None | Some v \<Rightarrow> k v)"

text \<open>
  \<open>Ok None\<close> is the null pointer, for which nothing was stored. \<open>align_offset\<close> is a plain \<open>usize\<close>, so that the
  subtraction giving \<open>size_offset\<close> is not a \<open>SafeNum\<close> one: it would abort rather than return null.
\<close>

definition gbl_malloc :: "(layout \<Rightarrow> nat) \<Rightarrow> nat \<Rightarrow> nat \<Rightarrow> memory \<Rightarrow> (nat \<times> memory) option res" where
  "gbl_malloc alloc request_size al m =
     or_null (to_opt (sn_try (sn_add (sn al) (sn 16)))) (\<lambda>pad.
     or_null (to_opt (sn_try (sn_add (sn request_size) (sn pad)))) (\<lambda>sz.
     or_null (from_size_align sz 1) (\<lambda>lay.
     let ptr = alloc lay in
     if ptr = 0 then Ok None
     else
       let ret_address = sn_round_up (sn_add (sn ptr) (sn 16)) (sn al);
           ret_offset = sn_sub ret_address (sn ptr)
       in or_null (to_opt (sn_try (sn_sub ret_offset (sn 8)))) (\<lambda>align_offset.
          and_then (psub align_offset 8) (\<lambda>size_offset.
          or_null (to_opt (sn_try ret_offset)) (\<lambda>offset.
            Ok (Some (ptr + offset, store_bytes (ptr + align_offset) (nat_to_le 8 offset)
              (store_bytes (ptr + size_offset) (nat_to_le 8 sz) m)))))))))"

text \<open>The address and the layout that are given back to the allocator; \<open>Panic\<close> when there is no such layout.\<close>

definition gbl_free :: "nat \<Rightarrow> nat \<Rightarrow> memory \<Rightarrow> (nat \<times> layout) option res" where
  "gbl_free ptr al m =
     (if ptr = 0 then Ok None
      else let offset = nat_from_le (load_bytes (ptr - 8) 8 m);
               sz = nat_from_le (load_bytes (ptr - 16) 8 m)
           in map_ok (\<lambda>lay. Some (ptr - offset, lay)) (unwrap_opt (from_size_align sz al)))"

end
