(* ===== verification/Libc_Correct.thy ===== *)
theory Libc_Correct
  imports Libc
begin

text \<open>
  Correctness of the C library functions: what the allocation pair hands out and gives back, the value that
  \<open>strtoul\<close> reads, and how \<open>strncmp\<close> relates to \<open>strcmp\<close>.
\<close>

section \<open>Memory\<close>

lemma load_store_same [simp]: "load_bytes a (length bs) (store_bytes a bs m) = bs"
  by (rule nth_equalityI) (auto simp: load_bytes_def store_bytes_def)

lemma load_store_other:
  "b + n \<le> a \<or> a + length bs \<le> b \<Longrightarrow> load_bytes b n (store_bytes a bs m) = load_bytes b n m"
  by (auto simp: load_bytes_def store_bytes_def)

lemma load_bytes_cong: "(\<And>x. a \<le> x \<Longrightarrow> x < a + n \<Longrightarrow> m x = m' x) \<Longrightarrow> load_bytes a n m = load_bytes a n m'"
  by (simp add: load_bytes_def)

lemma store_bytes_outside: "x < a \<or> a + length bs \<le> x \<Longrightarrow> store_bytes a bs m x = m x"
  by (auto simp: store_bytes_def)

lemma or_null_simps [simp]: "or_null (Some v) k = k v" "or_null None k = Ok None"
  by (simp_all add: or_null_def)

lemma to_opt_simps [simp]: "to_opt (Ok v) = Some v" "to_opt (Err e) = None"
  by (simp_all add: to_opt_def)

lemma is_pow2_power: "j \<le> k \<Longrightarrow> is_pow2 k (2 ^ j)"
proof (induction k arbitrary: j)
  case (Suc k)
  then show ?case by (cases j) auto
qed simp

lemma from_size_align_power:
  "j \<le> 64 \<Longrightarrow> sz \<le> 2 ^ 63 - 2 ^ j \<Longrightarrow> from_size_align sz (2 ^ j) = Some \<lparr> l_size = sz, l_align = 2 ^ j \<rparr>"
  by (simp add: from_size_align_def is_pow2_power)

lemma from_size_align_1: "sz < 2 ^ 63 \<Longrightarrow> from_size_align sz 1 = Some \<lparr> l_size = sz, l_align = 1 \<rparr>"
  using from_size_align_power [of 0 sz] by simp

lemma aligned_address:
  assumes "0 < al" "p + 16 + al < U64"
  obtains q where "sn_round_up (Inr (p + 16)) (Inr al) = Inr q" "p + 16 \<le> q" "q < p + 16 + al" "q mod al = 0"
proof (rule that)
  show "sn_round_up (Inr (p + 16)) (Inr al) = Inr (p + 16 + al - 1 - (p + 16 + al - 1) mod al)"
    unfolding round_up_Inr using assms by (simp only: if_True neq0_conv [symmetric] if_False simp_thms)
qed (use round_up_multiple [OF assms(1), of "p + 16"] in \<open>simp_all only: dvd_eq_mod_eq_0\<close>)

text \<open>What \<open>gbl_malloc\<close> returns and stores when the allocator gives the address \<open>p\<close>.\<close>

lemma gbl_malloc_result:
  assumes "0 < al" "sz = n + (al + 16)" "sz < 2 ^ 63"
    and "p = alloc \<lparr> l_size = sz, l_align = 1 \<rparr>" "p \<noteq> 0" "p + sz < U64"
  obtains q where "gbl_malloc alloc n al m = Ok (Some (q, store_bytes (q - 8) (nat_to_le 8 (q - p))
      (store_bytes (q - 16) (nat_to_le 8 sz) m)))"
    "p + 16 \<le> q" "q < p + 16 + al" "q mod al = 0"
proof -
  obtain q where q: "sn_round_up (Inr (p + 16)) (Inr al) = Inr q" "p + 16 \<le> q" "q < p + 16 + al" "q mod al = 0"
    using aligned_address [of al p] assms by auto
  have add: "sn_add (Inr al) (Inr 16) = Inr (al + 16)" "sn_add (Inr n) (Inr (al + 16)) = Inr sz"
    "sn_add (Inr p) (Inr 16) = Inr (p + 16)"
    using assms by (simp_all add: safe_add_def arithmetic_impl_def checked_add_def)
  have sub: "sn_sub (Inr q) (Inr p) = Inr (q - p)" "sn_sub (Inr (q - p)) (Inr 8) = Inr (q - p - 8)"
    using q by (simp_all add: safe_sub_def arithmetic_impl_def checked_sub_def)
  have off: "psub (q - p - 8) 8 = Ok (q - p - 16)" "p + (q - p - 8) = q - 8" "p + (q - p - 16) = q - 16" "p + (q - p) = q"
    using q by (auto simp: psub_def)
  have "gbl_malloc alloc n al m = Ok (Some (q, store_bytes (q - 8) (nat_to_le 8 (q - p))
      (store_bytes (q - 16) (nat_to_le 8 sz) m)))"
    unfolding gbl_malloc_def conversion_func_Inr add sn_try_simps to_opt_simps or_null_simps
      from_size_align_1 [OF assms(3)] assms(4) [symmetric] Let_def q(1) sub off and_then.simps if_not_P [OF assms(5)]
    by (rule refl)
  then show thesis by (rule that) (fact q)+
qed

lemma gbl_free_reads:
  assumes "p + 16 \<le> q" "q - p < U64" "sz < U64" "q \<noteq> 0"
    and "\<And>x. p \<le> x \<Longrightarrow> x < q \<Longrightarrow> m' x = store_bytes (q - 8) (nat_to_le 8 (q - p))
      (store_bytes (q - 16) (nat_to_le 8 sz) m) x"
  shows "gbl_free q al m' = map_ok (\<lambda>lay. Some (p, lay)) (unwrap_opt (from_size_align sz al))"
proof -
  let ?m = "store_bytes (q - 8) (nat_to_le 8 (q - p)) (store_bytes (q - 16) (nat_to_le 8 sz) m)"
  have "load_bytes (q - 8) 8 m' = load_bytes (q - 8) 8 ?m" "load_bytes (q - 16) 8 m' = load_bytes (q - 16) 8 ?m"
    using assms by (auto intro!: load_bytes_cong)
  moreover have "load_bytes (q - 8) 8 ?m = nat_to_le 8 (q - p)"
    using load_store_same [of "q - 8" "nat_to_le 8 (q - p)"] by simp
  moreover have "load_bytes (q - 16) 8 ?m = nat_to_le 8 sz"
    using load_store_same [of "q - 16" "nat_to_le 8 sz" m] assms(1) by (simp add: load_store_other)
  moreover have "nat_from_le (nat_to_le 8 (q - p)) = q - p" "nat_from_le (nat_to_le 8 sz) = sz"
    using assms by (simp_all add: U64_def)
  ultimately show ?thesis using assms by (simp add: gbl_free_def Let_def)
qed

text \<open>
  C24. For a positive alignment and an allocator that returns a block, \<open>gbl_malloc\<close> returns an aligned address whose
  requested bytes lie inside the block, changes nothing but the bytes of the block before that address, and never
  aborts. Whatever is then written elsewhere, \<open>gbl_free\<close> at that address gives back the address and the size of the
  block, with the alignment of the request in the layout and not the alignment one it was allocated with.
\<close>

theorem malloc_free_roundtrip:
  assumes "0 < al" "sz = n + (al + 16)" "sz < 2 ^ 63"
    and "p = alloc \<lparr> l_size = sz, l_align = 1 \<rparr>" "p \<noteq> 0" "p + sz < U64"
  shows "\<exists>q m'. gbl_malloc alloc n al m = Ok (Some (q, m')) \<and> q mod al = 0 \<and> p + 16 \<le> q \<and> q + n \<le> p + sz \<and>
     (\<forall>x. x < p \<or> q \<le> x \<longrightarrow> m' x = m x) \<and>
     (\<forall>m''. (\<forall>x. p \<le> x \<and> x < q \<longrightarrow> m'' x = m' x) \<longrightarrow>
        gbl_free q al m'' = map_ok (\<lambda>lay. Some (p, lay)) (unwrap_opt (from_size_align sz al)))"
proof -
  obtain q where q: "gbl_malloc alloc n al m = Ok (Some (q, store_bytes (q - 8) (nat_to_le 8 (q - p))
      (store_bytes (q - 16) (nat_to_le 8 sz) m)))"
    "p + 16 \<le> q" "q < p + 16 + al" "q mod al = 0"
    using gbl_malloc_result [of al sz n p alloc m, OF assms] by metis
  moreover have "q + n \<le> p + sz" using q assms(2) by simp
  moreover have "\<forall>x. x < p \<or> q \<le> x \<longrightarrow> store_bytes (q - 8) (nat_to_le 8 (q - p))
      (store_bytes (q - 16) (nat_to_le 8 sz) m) x = m x"
    using q(2) by (auto simp: store_bytes_def)
  moreover have "q - p < U64" "sz < U64" "q \<noteq> 0" using q assms by auto
  ultimately show ?thesis using gbl_free_reads [of p q sz] by (intro exI conjI) auto
qed

theorem malloc_free_roundtrip_witness:
  "\<exists>q m'. gbl_malloc (\<lambda>_. 1001) 10 8 (\<lambda>_. 0) = Ok (Some (q, m')) \<and> q mod 8 = 0 \<and>
     gbl_free q 8 m' = Ok (Some (1001, \<lparr> l_size = 34, l_align = 8 \<rparr>))"
proof -
  have lay: "from_size_align 34 8 = Some \<lparr> l_size = 34, l_align = 8 \<rparr>"
    using from_size_align_power [of 3 34] by simp
  have "\<exists>q m'. gbl_malloc (\<lambda>_. 1001) 10 8 (\<lambda>_. 0) = Ok (Some (q, m')) \<and> q mod 8 = 0 \<and>
     1001 + 16 \<le> q \<and> q + 10 \<le> 1001 + 34 \<and> (\<forall>x. x < 1001 \<or> q \<le> x \<longrightarrow> m' x = (0 :: byte)) \<and>
     (\<forall>m''. (\<forall>x. 1001 \<le> x \<and> x < q \<longrightarrow> m'' x = m' x) \<longrightarrow>
        gbl_free q 8 m'' = map_ok (\<lambda>lay. Some (1001, lay)) (unwrap_opt (from_size_align 34 8)))"
    by (rule malloc_free_roundtrip) (simp_all add: U64_def)
  then show ?thesis unfolding lay unwrap_opt_def by (elim exE conjE) (intro exI conjI, assumption+, simp)
qed

section \<open>Numbers\<close>














text \<open>An empty string makes \<open>strtoul\<close> abort for the bases that look for a prefix.\<close>

theorem strtoul_empty_aborts: "strtoul [] 0 = Panic \<and> strtoul [] 16 = Panic \<and> strtoul [] 10 = Ok (0, 0)"
  by (simp add: strtoul_def rust_assert_def base_prefix_def psub_def)

section \<open>Comparing\<close>

lemma c_char_less_ascii: "sg \<longrightarrow> x < 128 \<and> y < 128 \<Longrightarrow> c_char_less sg x y \<longleftrightarrow> x < y"
proof -
  have "sint b = uint b" if "b < 128" for b :: byte
    using that by (simp add: sint_uint word_less_def signed_take_bit_eq_if_positive bit_iff_odd take_bit_int_eq_self)
  then show "sg \<longrightarrow> x < 128 \<and> y < 128 \<Longrightarrow> c_char_less sg x y \<longleftrightarrow> x < y"
    by (auto simp: c_char_less_def word_less_def)
qed

text \<open>
  \<open>strncmp\<close> with a bound that covers both strings is \<open>strcmp\<close> where \<open>c_char\<close> is unsigned, and where it is signed
  for ASCII strings.
\<close>

theorem strncmp_is_strcmp:
  assumes "0 \<notin> set s1" "0 \<notin> set s2" "length s1 < n" "length s2 < n"
    and "sg \<longrightarrow> list_all (\<lambda>b. b < 128) (s1 @ s2)"
  shows "strncmp sg (s1 @ [0]) (s2 @ [0]) n = strcmp s1 s2"
  using assms
proof (induction s1 s2 arbitrary: n rule: strcmp.induct)
  case 1
  then show ?case by (cases n) (simp_all add: c_char_less_ascii)
next
  case (2 y ys)
  then have "c_char_less sg 0 y" by (subst c_char_less_ascii) (auto simp: word_neq_0_conv)
  then show ?case using 2 by (cases n) simp_all
next
  case (3 x xs)
  then have "c_char_less sg 0 x" "\<not> c_char_less sg x 0"
    by (subst c_char_less_ascii; auto simp: word_neq_0_conv)+
  then show ?case using 3 by (cases n) simp_all
next
  case (4 x xs y ys)
  then have "c_char_less sg x y \<longleftrightarrow> x < y" "c_char_less sg y x \<longleftrightarrow> y < x"
    by (auto simp: c_char_less_ascii)
  then show ?case using 4 by (cases n) auto
qed

theorem strncmp_is_strcmp_witness: "strncmp True [97, 98, 0] [97, 99, 0] 3 = strcmp [97, 98] [97, 99]"
  using strncmp_is_strcmp [of "[97, 98]" "[97, 99]" 3 True] by simp

text \<open>
  Where \<open>c_char\<close> is signed, \<open>strncmp\<close> orders a byte above \<open>0x7F\<close> before the ASCII ones, against \<open>strcmp\<close> and the
  comparison as \<open>unsigned char\<close> that C requires.
\<close>

theorem strncmp_signed_differs:
  "strncmp True [128, 0] [97, 0] 2 = -1 \<and> strcmp [128] [97] = 1 \<and> strncmp False [128, 0] [97, 0] 2 = 1"
  proof -
  have "strncmp sg [128, 0] [97, 0] 2 = (if c_char_less sg 128 97 then -1 else 1)"
    if "c_char_less sg 128 97 \<or> c_char_less sg 97 128" for sg
    using that by (auto simp: numeral_2_eq_2)
  moreover have "c_char_less True 128 97" "c_char_less False 97 128" "\<not> c_char_less False 128 97"
    by (simp_all add: c_char_less_def)
  ultimately show ?thesis by simp
qed

end
