(* ===== verification/Spec2Isabelle.thy ===== *)
theory Spec2Isabelle
  imports Abr_Storage Gpt_Ram Slots_Abr Partition_Correct Xbc Libc_Correct
begin

text \<open>
  Generic Boot Loader: a model of its storage, slot and boot parameter libraries, and their correctness.

  \<^bold>\<open>The program.\<close> The boot loader is a set of Rust libraries under \<open>src/gbl\<close>, with a C library under
  \<open>src/libxbc\<close>. The libraries at the bottom are the error type (\<open>liberror\<close>), checked arithmetic (\<open>libsafemath\<close>),
  buffers (\<open>libutils\<close>) and C functions for foreign code (\<open>libc\<close>). On these rests \<open>libstorage\<close>: accesses to arbitrary ranges
  of a block device, and the GUID partition table. \<open>libgbl\<close> finds partitions on all disks, writes images to them
  (also sparse ones) and keeps the metadata of boot slots in one of them. \<open>libabr\<close> is a second, independent
  implementation of the slot metadata of Fuchsia. \<open>libbootparams\<close> and \<open>libxbc\<close> both build the bootconfig section for the
  kernel, the former also the command line.

  \<^bold>\<open>Conventions.\<close> \<open>Prelude\<close> has the outcome of a Rust computation: \<open>Ok\<close>, \<open>Err\<close> or \<open>Panic\<close>. A method that changes its
  receiver is a function from a state to an outcome and a state, in the order of the calls in the source
  (\<open>st_then\<close>); an outcome \<open>Err\<close> keeps the changes made before it. \<open>usize\<close> and \<open>u64\<close> are natural numbers below \<open>U64\<close>, with
  every overflow check written out (\<open>padd\<close>, \<open>psub\<close>, \<open>pmul\<close>, and the operations \<open>sn_add\<close> etc. of \<open>SafeNum\<close>); smaller
  integers, bit fields and C integers are words. A buffer is its list of bytes together with its address where
  alignment matters. Targets are little-endian with 64-bit addresses.

  \<^bold>\<open>Theories and the code they model.\<close>
  \<^item> \<open>Errors\<close>: \<open>liberror/src/lib.rs\<close>; \<open>Safe_Math\<close>: \<open>libsafemath/src/lib.rs\<close>; \<open>Utils\<close>: \<open>libutils/src/lib.rs\<close>.
    Every \<open>SafeNum\<close> expression has the exact value or the location of its first failing operator.
  \<^item> \<open>Abr_Crc\<close>, \<open>Abr\<close>: \<open>libabr/src/lib.rs\<close>. The CRC loop equals the reflected CRC-32. \<open>Abr_Spec\<close> is what a caller may rely
    on, \<open>Abr_Storage\<close> the contract of a storage backend (locale \<open>abr_storage\<close>, interpreted on the library's own backend, a byte
    array) and the refinement of the specification by all operations, on which the properties of
    boot attempts rest.
  \<^item> \<open>Block_Io\<close>, \<open>Storage_Algorithm\<close>, \<open>Ram_Block\<close>, \<open>Disk\<close>: \<open>libstorage/src/lib.rs\<close>, \<open>algorithm.rs\<close> and \<open>ram_block.rs\<close>.
    \<open>Storage_Correct\<close> and \<open>Storage_Write\<close> prove reads and writes of any range over the contract \<open>block_device\<close>, interpreted
    twice on \<open>RamBlockIo\<close>: without errors, and with its injected errors.
  \<^item> \<open>Layout\<close>: packed structures, UTF-8 and UTF-16 as far as the sources use them. \<open>Gpt_Format\<close>, \<open>Gpt\<close>, \<open>Gpt_Builder\<close>:
    \<open>libstorage/src/gpt.rs\<close>. \<open>Gpt_Correct\<close> shows that checked tables have disjoint partitions, \<open>Gpt_Sync\<close> and \<open>Gpt_Ram\<close> what
    loading and synchronising establish, that synchronising converges, and that partition writes are isolated.
  \<^item> \<open>Slots\<close>, \<open>Slots_Fuchsia\<close>, \<open>Slots_Android\<close>: \<open>libgbl/src/slots.rs\<close> and \<open>slots/\<close>. \<open>Slot_Manager\<close> has the contracts \<open>slot_manager\<close>
    and \<open>metadata\<close> with what clients conclude from them; both managers are interpretations. \<open>Slots_Correct\<close> adds the
    reachable states of a manager over restarts, \<open>Slots_Abr\<close> the agreement with \<open>libabr\<close>.
  \<^item> \<open>Sparse\<close>: \<open>libgbl/src/fastboot/sparse.rs\<close>; \<open>Gbl_Partition\<close>: \<open>libgbl/src/partition.rs\<close>. \<open>Sparse_Correct\<close> proves the writing of an
    image over the contract \<open>raw_sink\<close>, which every block device gives (a sublocale in \<open>Partition_Correct\<close>).
  \<^item> \<open>Boot_Params\<close>: \<open>libbootparams/src\<close>, with its round trips in \<open>Boot_Params_Correct\<close>; \<open>Xbc\<close>: \<open>libxbc/libxbc.c\<close> and its agreement
    with the bootconfig builder.
  \<^item> \<open>Libc\<close>: \<open>gbl_malloc\<close>, \<open>gbl_free\<close>, \<open>memchr\<close>, \<open>strnlen\<close>, \<open>strchr\<close>, \<open>strrchr\<close>, \<open>strcmp\<close>, \<open>strncmp\<close> and \<open>strtoul\<close> of \<open>libc/src\<close>, with their
    properties in \<open>Libc_Correct\<close>.

  \<^bold>\<open>Parameters.\<close> Code from outside the repository is an argument: the CRC of the crate \<open>crc32fast\<close>, the in-place sort of the
  core library where its order of equal elements is unspecified (the environment \<open>gpt_env\<close>, with the hypothesis
  \<open>sorts\<close>), the global allocator, and the callbacks of readers. Block devices and slot storage are records
  of operations, as the traits are.

  \<^bold>\<open>Loops.\<close> Loops over a list or with a decreasing count are recursive functions. The loops that may run forever, of
  \<open>Disk::fill\<close> and of the sparse writer, have \<open>None\<close> as the outcome of not returning; that they return is proved as
  such (\<open>disk_fill_exact\<close>, \<open>sparse_write_exact\<close>), and so is a case in which \<open>Disk::fill\<close> does not (\<open>disk_fill_loops\<close>). No bound on a
  number of iterations is chosen anywhere.

  \<^bold>\<open>Where the code differs from its intention.\<close> Some theorems state a defect: \<open>check_entries_misses_overlap\<close>,
  \<open>scratch_size_one_short\<close>, \<open>disk_fill_loops\<close>, \<open>fuchsia_boots_priority_zero\<close>, \<open>sparse_write_escapes_partition\<close>,
  \<open>entry_display_drops_quotes\<close>, \<open>strtoul_empty_aborts\<close>, \<open>strncmp_signed_differs\<close>, and the layout in \<open>malloc_free_roundtrip\<close>.

  \<^bold>\<open>Not modelled.\<close>
  \<^item> Boot flows, fastboot commands and verified boot of \<open>libgbl\<close>, and the application under \<open>efi\<close>: they mostly call
    \<open>avb\<close>, \<open>libfdt\<close>, \<open>zbi\<close>, decompressors and firmware, none of which is in the repository. Smaller parts between these
    calls (image buffers, boot reasons, fastboot variables) could be modelled and are not yet.
  \<^item> \<open>libfastboot\<close>, \<open>libasync\<close>: the packet protocol and the executor are asynchronous; here the asynchronous methods of
    the storage libraries are modelled as run to completion, and interleaved tasks are not.
  \<^item> \<open>libefi\<close>, \<open>libefi_types\<close>: calls through tables of firmware functions. \<open>libavb\<close>, \<open>libfdt\<close>, \<open>libbootimg\<close>, \<open>smoltcp\<close>: bindings of
    foreign libraries. \<open>libdttable\<close>: the structures it reads are generated from a header outside the repository.
  \<^item> \<open>libboot\<close>, \<open>libelf\<close>, \<open>efi/arch\<close>: register and memory operations below the level of the language, and relocation
    of the running program.
  \<^item> Formatted output of \<open>libc\<close> (\<open>format.c\<close>, \<open>print.rs\<close>), \<open>libmisc\<close>, the C interface of \<open>libabr\<close>, \<open>Display\<close> of errors, tools and tests.
\<close>

end
